(* ===== verification/Whot_Prelude.thy ===== *)
theory Whot_Prelude
  imports Main "HOL-Library.Multiset" "HOL-Library.Signed_Division"
begin

text \<open>
  What every component of the Whot server model shares: the collections of hints the component
  theories add to, the vector operations of the C++ standard library the code uses (erase at an
  index, linear search, scans that remember the best element so far), the drawing loop, the
  truncating integer operations of C++, and the two interfaces that are about no component in
  particular (a source of cards, and a machine driven by a list of events).
\<close>

named_theorems whot_size \<open>sizes and lengths after an operation\<close>
named_theorems whot_mset \<open>the multiset of cards after an operation\<close>
named_theorems whot_frame \<open>fields an operation leaves alone\<close>
named_theorems whot_defs \<open>definitions of one-line operations\<close>


section \<open>Vectors\<close>

text \<open>\<open>v.erase(v.begin() + i)\<close> with \<open>i < v.size()\<close>.\<close>

definition erase_nth :: "nat \<Rightarrow> 'a list \<Rightarrow> 'a list" where
  "erase_nth i xs = take i xs @ drop (Suc i) xs"

lemma length_erase_nth [simp]: "i < length xs \<Longrightarrow> length (erase_nth i xs) = length xs - 1"
  by (simp add: erase_nth_def)

lemma mset_erase_nth: "i < length xs \<Longrightarrow> add_mset (xs ! i) (mset (erase_nth i xs)) = mset xs"
proof -
  assume "i < length xs"
  then have "mset xs = mset (take i xs @ xs ! i # drop (Suc i) xs)"
    by (simp add: id_take_nth_drop [symmetric])
  then show ?thesis by (simp add: erase_nth_def)
qed

lemma set_erase_nth: "set (erase_nth i xs) \<subseteq> set xs"
  by (auto simp: erase_nth_def dest: in_set_takeD in_set_dropD)

lemma sum_list_erase_nth:
  fixes f :: "'a \<Rightarrow> int"
  assumes "i < length xs"
  shows "sum_list (map f xs) = f (xs ! i) + sum_list (map f (erase_nth i xs))"
proof -
  have "sum_mset (image_mset f (mset xs)) = f (xs ! i) + sum_mset (image_mset f (mset (erase_nth i xs)))"
    using mset_erase_nth [OF assms] by (metis image_mset_add_mset sum_mset.add_mset)
  then show ?thesis by (simp add: sum_mset_sum_list [symmetric])
qed

lemma sum_list_update_nth:
  fixes f :: "'a \<Rightarrow> 'b::comm_monoid_add"
  shows "i < length xs \<Longrightarrow> sum_list (map f (xs[i := y])) + f (xs ! i) = sum_list (map f xs) + f y"
proof (induction xs arbitrary: i)
  case (Cons x xs)
  show ?case
  proof (cases i)
    case 0
    then show ?thesis by (simp add: ac_simps)
  next
    case (Suc k)
    then show ?thesis using Cons.IH [of k] Cons.prems by (simp add: add.assoc)
  qed
qed simp

lemma map_update_same: "g y = g (xs ! i) \<Longrightarrow> map g (xs[i := y]) = map g xs"
  by (cases "i < length xs") (simp_all add: map_update list_update_same_conv list_update_beyond)

text \<open>A property kept by every step of a \<open>fold\<close> over good elements.\<close>

lemma fold_invariant_set:
  assumes "\<And>x s. x \<in> set xs \<Longrightarrow> P s \<Longrightarrow> P (f x s)" and "P s"
  shows "P (fold f xs s)"
  using assms by (induction xs arbitrary: s) auto

text \<open>The first index whose element satisfies \<open>P\<close>: the linear searches of the code.\<close>

fun find_index :: "('a \<Rightarrow> bool) \<Rightarrow> 'a list \<Rightarrow> nat option" where
  "find_index P [] = None"
| "find_index P (x # xs) = (if P x then Some 0 else map_option Suc (find_index P xs))"

lemma find_index_Some:
  "find_index P xs = Some i \<Longrightarrow> i < length xs \<and> P (xs ! i) \<and> (\<forall>j<i. \<not> P (xs ! j))"
proof (induction xs arbitrary: i)
  case Nil
  then show ?case by simp
next
  case (Cons x xs)
  show ?case
  proof (cases "P x")
    case True
    with Cons.prems show ?thesis by auto
  next
    case False
    with Cons.prems obtain k where k: "find_index P xs = Some k" "i = Suc k" by auto
    from Cons.IH [OF k(1)] show ?thesis
      using False k(2) by (auto simp: nth_Cons split: nat.splits)
  qed
qed

lemma find_index_None [simp]: "find_index P xs = None \<longleftrightarrow> (\<forall>x \<in> set xs. \<not> P x)"
  by (induction xs) auto

lemma find_index_none: "\<forall>x \<in> set xs. \<not> P x \<Longrightarrow> find_index P xs = None"
  by simp

lemma find_index_lt: "find_index P xs = Some i \<Longrightarrow> i < length xs"
  by (drule find_index_Some) simp

lemma find_index_sat: "find_index P xs = Some i \<Longrightarrow> P (xs ! i)"
  by (drule find_index_Some) simp

lemma find_index_eqI:
  assumes "i < length xs" "P (xs ! i)" "\<And>j. j < i \<Longrightarrow> \<not> P (xs ! j)"
  shows "find_index P xs = Some i"
proof (cases "find_index P xs")
  case None
  with assms show ?thesis by auto
next
  case (Some k)
  note k = find_index_Some [OF this]
  have "\<not> k < i" using k assms(3) by blast
  moreover have "\<not> i < k" using k assms(2) by blast
  ultimately show ?thesis using Some by simp
qed

lemma find_index_map: "find_index P (map f xs) = find_index (\<lambda>x. P (f x)) xs"
  by (induction xs) simp_all

text \<open>Indices of the elements that satisfy \<open>P\<close>, in order.\<close>

definition indices_where :: "('a \<Rightarrow> bool) \<Rightarrow> 'a list \<Rightarrow> nat list" where
  "indices_where P xs = filter (\<lambda>i. P (xs ! i)) [0..<length xs]"

lemma set_indices_where: "set (indices_where P xs) = {i. i < length xs \<and> P (xs ! i)}"
  by (auto simp: indices_where_def)

lemma sorted_indices_where: "sorted (indices_where P xs)"
  by (simp add: indices_where_def sorted_wrt_filter)

lemma distinct_indices_where: "distinct (indices_where P xs)"
  by (simp add: indices_where_def)

lemma indices_where_Nil: "indices_where P xs = [] \<longleftrightarrow> (\<forall>x \<in> set xs. \<not> P x)"
  by (auto simp: indices_where_def filter_empty_conv set_conv_nth)

section \<open>Scans that keep the best element so far\<close>

text \<open>
  The loops \<open>for (x : xs) if (f(x) > m) { m = f(x); b = x; }\<close>, and their mirror image with
  \<open><\<close>.  Both keep the first of several equally good elements.
\<close>

fun scan_max :: "('a \<Rightarrow> int) \<Rightarrow> int \<Rightarrow> 'a \<Rightarrow> 'a list \<Rightarrow> 'a" where
  "scan_max f m b [] = b"
| "scan_max f m b (x # xs) = (if m < f x then scan_max f (f x) x xs else scan_max f m b xs)"

fun scan_min :: "('a \<Rightarrow> int) \<Rightarrow> int \<Rightarrow> 'a \<Rightarrow> 'a list \<Rightarrow> 'a" where
  "scan_min f m b [] = b"
| "scan_min f m b (x # xs) = (if f x < m then scan_min f (f x) x xs else scan_min f m b xs)"

lemma scan_min_scan_max: "scan_min f m b xs = scan_max (\<lambda>x. - f x) (- m) b xs"
  by (induction xs arbitrary: m b) simp_all

lemma scan_max_from: "f b = m \<Longrightarrow>
    scan_max f m b xs \<in> insert b (set xs) \<and> (\<forall>x \<in> insert b (set xs). f x \<le> f (scan_max f m b xs))"
proof (induction xs arbitrary: m b)
  case Nil
  then show ?case by simp
next
  case (Cons x xs)
  show ?case
  proof (cases "m < f x")
    case True
    with Cons.IH [of x "f x"] Cons.prems show ?thesis by auto
  next
    case False
    with Cons.IH [OF Cons.prems] Cons.prems show ?thesis
      by (auto intro: order_trans)
  qed
qed

lemma scan_max_in:
  assumes "xs \<noteq> []" "\<forall>x \<in> set xs. m < f x"
  shows "scan_max f m b xs \<in> set xs"
proof (cases xs)
  case (Cons x ys)
  then have "scan_max f m b xs = scan_max f (f x) x ys" using assms(2) by simp
  then show ?thesis using scan_max_from [of f x "f x" ys] Cons by simp
qed (use assms in simp)

lemma scan_max_greatest:
  assumes "xs \<noteq> []" "\<forall>x \<in> set xs. m < f x" "y \<in> set xs"
  shows "f y \<le> f (scan_max f m b xs)"
proof (cases xs)
  case (Cons x ys)
  then have "scan_max f m b xs = scan_max f (f x) x ys" using assms(2) by simp
  then show ?thesis using scan_max_from [of f x "f x" ys] Cons assms(3) by auto
qed (use assms in simp)

text \<open>A scan whose starting element is itself one of the elements never leaves the list.\<close>

lemma scan_max_insert: "scan_max f m b xs \<in> insert b (set xs)"
  by (induction xs arbitrary: m b) auto

lemma scan_max_member: "b \<in> set xs \<Longrightarrow> scan_max f m b xs \<in> set xs"
  using scan_max_insert [of f m b xs] by auto

lemma scan_max_dom:
  "(\<forall>x \<in> set xs. f x \<le> m) \<Longrightarrow> scan_max f m b xs = b"
  by (induction xs arbitrary: m b) auto

text \<open>Exactly which element a scan ends with: the first of the best, if any beats the start.\<close>

lemma scan_max_first:
  "scan_max f m b xs = b \<and> (\<forall>x \<in> set xs. f x \<le> m) \<or>
   (\<exists>i < length xs. scan_max f m b xs = xs ! i \<and> m < f (xs ! i) \<and>
      (\<forall>x \<in> set xs. f x \<le> f (xs ! i)) \<and> (\<forall>j < i. f (xs ! j) < f (xs ! i)))"
proof (induction xs arbitrary: m b)
  case (Cons x xs)
  show ?case
  proof (cases "m < f x")
    case True
    from Cons.IH [of "f x" x] show ?thesis
    proof
      assume "scan_max f (f x) x xs = x \<and> (\<forall>y \<in> set xs. f y \<le> f x)"
      then show ?thesis using True by (intro disjI2 exI [of _ 0]) simp
    next
      assume "\<exists>i < length xs. scan_max f (f x) x xs = xs ! i \<and> f x < f (xs ! i) \<and>
        (\<forall>y \<in> set xs. f y \<le> f (xs ! i)) \<and> (\<forall>j < i. f (xs ! j) < f (xs ! i))"
      then obtain i where "i < length xs" "scan_max f (f x) x xs = xs ! i" "f x < f (xs ! i)"
        "\<forall>y \<in> set xs. f y \<le> f (xs ! i)" "\<forall>j < i. f (xs ! j) < f (xs ! i)" by blast
      then show ?thesis
        using True by (intro disjI2 exI [of _ "Suc i"]) (auto simp: less_Suc_eq_0_disj)
    qed
  next
    case False
    from Cons.IH [of m b] show ?thesis
    proof
      assume "scan_max f m b xs = b \<and> (\<forall>y \<in> set xs. f y \<le> m)"
      then show ?thesis using False by simp
    next
      assume "\<exists>i < length xs. scan_max f m b xs = xs ! i \<and> m < f (xs ! i) \<and>
        (\<forall>y \<in> set xs. f y \<le> f (xs ! i)) \<and> (\<forall>j < i. f (xs ! j) < f (xs ! i))"
      then obtain i where "i < length xs" "scan_max f m b xs = xs ! i" "m < f (xs ! i)"
        "\<forall>y \<in> set xs. f y \<le> f (xs ! i)" "\<forall>j < i. f (xs ! j) < f (xs ! i)" by blast
      then show ?thesis
        using False by (intro disjI2 exI [of _ "Suc i"]) (auto simp: less_Suc_eq_0_disj)
    qed
  qed
qed simp

section \<open>The drawing loop and the interface of a source of cards\<close>

text \<open>\<open>for (i = 0; i < n && !empty; ++i) hand.add(source.draw())\<close>: the cards in the order drawn.\<close>

fun draw_many :: "('d \<Rightarrow> 'c option \<times> 'd) \<Rightarrow> nat \<Rightarrow> 'd \<Rightarrow> 'c list \<times> 'd" where
  "draw_many dr 0 d = ([], d)"
| "draw_many dr (Suc n) d =
     (case dr d of
        (None, d') \<Rightarrow> ([], d')
      | (Some c, d') \<Rightarrow> (let (cs, d'') = draw_many dr n d' in (c # cs, d'')))"

locale card_source =
  fixes draw1 :: "'d \<Rightarrow> 'c option \<times> 'd"
    and content :: "'d \<Rightarrow> 'c list"
  assumes draw_empty: "content d = [] \<Longrightarrow> draw1 d = (None, d)"
    and draw_some: "content d \<noteq> [] \<Longrightarrow> fst (draw1 d) = Some (last (content d))"
    and draw_rest: "content (snd (draw1 d)) = butlast (content d)"
begin

lemma draw_many_spec:
  "fst (draw_many draw1 n d) = rev (drop (length (content d) - n) (content d)) \<and>
   content (snd (draw_many draw1 n d)) = take (length (content d) - n) (content d)"
proof (induction n arbitrary: d)
  case 0
  then show ?case by simp
next
  case (Suc n)
  show ?case
  proof (cases "content d = []")
    case True
    then show ?thesis by (simp add: draw_empty)
  next
    case False
    obtain xs x where x: "content d = xs @ [x]" using False by (cases "content d" rule: rev_cases) auto
    obtain d' where d': "draw1 d = (Some x, d')"
      using draw_some [OF False] x by (cases "draw1 d") auto
    have c': "content d' = xs" using draw_rest [of d] d' x by simp
    show ?thesis
      using Suc.IH [of d'] d' c' x by (simp add: split_beta Let_def)
  qed
qed

lemma draw_many_length: "length (fst (draw_many draw1 n d)) = min n (length (content d))"
  by (simp add: draw_many_spec)

lemma draw_many_mset:
  "mset (fst (draw_many draw1 n d)) + mset (content (snd (draw_many draw1 n d))) = mset (content d)"
proof -
  let ?k = "length (content d) - n"
  have "mset (fst (draw_many draw1 n d)) + mset (content (snd (draw_many draw1 n d)))
      = mset (drop ?k (content d)) + mset (take ?k (content d))"
    by (simp add: draw_many_spec)
  also have "\<dots> = mset (take ?k (content d) @ drop ?k (content d))"
    unfolding mset_append by (rule add.commute)
  also have "\<dots> = mset (content d)"
    unfolding append_take_drop_id ..
  finally show ?thesis .
qed

end

section \<open>Machines driven by a list of events\<close>

fun run_events :: "('s \<Rightarrow> 'e \<Rightarrow> 's) \<Rightarrow> 's \<Rightarrow> 'e list \<Rightarrow> 's" where
  "run_events st s [] = s"
| "run_events st s (e # es) = run_events st (st s e) es"

locale event_invariant =
  fixes estep :: "'s \<Rightarrow> 'e \<Rightarrow> 's"
    and einv :: "'s \<Rightarrow> bool"
  assumes estep_inv: "einv s \<Longrightarrow> einv (estep s e)"
begin

lemma run_events_inv: "einv s \<Longrightarrow> einv (run_events estep s es)"
  by (induction es arbitrary: s) (simp_all add: estep_inv)

lemma run_events_prefix_inv:
  "einv s \<Longrightarrow> einv (run_events estep s (take n es))"
  by (rule run_events_inv)

end

section \<open>C++ integers\<close>

text \<open>
  \<open>%\<close> truncates towards zero.  On the operands the code has it agrees with \<open>mod\<close>, which
  the index arithmetic of the turn order needs.
\<close>

definition c_mod :: "int \<Rightarrow> int \<Rightarrow> int" where
  "c_mod a b = a smod b"

lemma c_mod_nonneg [simp]: "0 \<le> a \<Longrightarrow> 0 < b \<Longrightarrow> c_mod a b = a mod b"
  by (cases "a = 0") (simp_all add: c_mod_def signed_modulo_int_def)

lemma c_mod_bounds: "0 \<le> a \<Longrightarrow> 0 < b \<Longrightarrow> 0 \<le> c_mod a b \<and> c_mod a b < b"
  by simp

text \<open>Conversion of an integer to a signed 32-bit \<open>int\<close> (modulo \<open>2 ^ 32\<close>) and to \<open>uint8_t\<close>.\<close>

definition to_int32 :: "int \<Rightarrow> int" where
  "to_int32 n = (n + 2 ^ 31) mod 2 ^ 32 - 2 ^ 31"

lemma to_int32_bounds: "- (2 ^ 31) \<le> to_int32 n \<and> to_int32 n < 2 ^ 31"
  by (simp add: to_int32_def)

lemma to_int32_id [simp]: "- (2 ^ 31) \<le> n \<Longrightarrow> n < 2 ^ 31 \<Longrightarrow> to_int32 n = n"
  by (simp add: to_int32_def)

end
