(* ===== verification/Whot_Text.thy ===== *)
theory Whot_Text
  imports Whot_Prelude
begin

text \<open>
  Strings as the server handles them: byte strings (\<open>char list\<close>) with the character classes of
  the C locale, \<open>std::to_string\<close> and \<open>std::stoi\<close>, and the four text helpers at the top of
  \<open>src/Application.cpp\<close> (trimming and shortening player names, normalising and validating
  game codes).
\<close>

section \<open>Character classes of the C locale\<close>

abbreviation code_of :: "char \<Rightarrow> nat" where
  "code_of c \<equiv> of_char c"

definition is_space :: "char \<Rightarrow> bool" where
  "is_space c \<longleftrightarrow> code_of c = 32 \<or> (9 \<le> code_of c \<and> code_of c \<le> 13)"

definition is_digit :: "char \<Rightarrow> bool" where
  "is_digit c \<longleftrightarrow> 48 \<le> code_of c \<and> code_of c \<le> 57"

definition is_lower :: "char \<Rightarrow> bool" where
  "is_lower c \<longleftrightarrow> 97 \<le> code_of c \<and> code_of c \<le> 122"

definition is_upper :: "char \<Rightarrow> bool" where
  "is_upper c \<longleftrightarrow> 65 \<le> code_of c \<and> code_of c \<le> 90"

definition is_alnum :: "char \<Rightarrow> bool" where
  "is_alnum c \<longleftrightarrow> is_digit c \<or> is_lower c \<or> is_upper c"

definition to_upper :: "char \<Rightarrow> char" where
  "to_upper c = (if is_lower c then char_of (code_of c - 32) else c)"

lemmas char_class_defs = is_space_def is_digit_def is_lower_def is_upper_def is_alnum_def

lemma code_of_lt: "code_of c < 256"
proof -
  have "code_of c = of_char c mod 256" by simp
  also have "\<dots> < 256" by simp
  finally show ?thesis .
qed

lemma code_of_char_of [simp]: "n < 256 \<Longrightarrow> code_of (char_of n) = n"
  by simp

lemma code_of_to_upper: "code_of (to_upper c) = (if is_lower c then code_of c - 32 else code_of c)"
proof (cases "is_lower c")
  case True
  have "code_of c - 32 < 256" using code_of_lt [of c] by linarith
  with True show ?thesis by (simp add: to_upper_def)
qed (simp add: to_upper_def)

lemma is_alnum_to_upper [simp]: "is_alnum (to_upper c) = is_alnum c"
  unfolding char_class_defs code_of_to_upper by auto

lemma not_is_lower_to_upper [simp]: "\<not> is_lower (to_upper c)"
  unfolding is_lower_def code_of_to_upper by auto

lemma to_upper_idem [simp]: "to_upper (to_upper c) = to_upper c"
  by (metis not_is_lower_to_upper to_upper_def)

section \<open>\<open>std::to_string\<close> and \<open>std::stoi\<close>\<close>

fun nat_to_string :: "nat \<Rightarrow> string" where
  "nat_to_string n =
     (if n < 10 then [char_of (48 + n)]
      else nat_to_string (n div 10) @ [char_of (48 + n mod 10)])"

declare nat_to_string.simps [simp del]

definition int_to_string :: "int \<Rightarrow> string" where
  "int_to_string i = (if i < 0 then CHR ''-'' # nat_to_string (nat (- i)) else nat_to_string (nat i))"

definition digits_value :: "string \<Rightarrow> int" where
  "digits_value ds = foldl (\<lambda>a c. 10 * a + (int (code_of c) - 48)) 0 ds"

text \<open>
  White space, an optional sign, then the longest run of digits; no digits is an exception, here
  \<open>None\<close>.  What follows the digits is ignored.  \<open>stoi\<close> and \<open>stoll\<close> also throw for a value
  outside their type.
\<close>

definition read_integer :: "string \<Rightarrow> int option" where
  "read_integer s =
     (let s1 = dropWhile is_space s;
          neg = (s1 \<noteq> [] \<and> hd s1 = CHR ''-'');
          s2 = (if s1 \<noteq> [] \<and> (hd s1 = CHR ''-'' \<or> hd s1 = CHR ''+'') then tl s1 else s1);
          ds = takeWhile is_digit s2
      in if ds = [] then None else Some (if neg then - digits_value ds else digits_value ds))"

definition stoi :: "string \<Rightarrow> int option" where
  "stoi s =
     (case read_integer s of
        None \<Rightarrow> None
      | Some n \<Rightarrow> if - (2 ^ 31) \<le> n \<and> n < 2 ^ 31 then Some n else None)"

definition stoll :: "string \<Rightarrow> int option" where
  "stoll s =
     (case read_integer s of
        None \<Rightarrow> None
      | Some n \<Rightarrow> if - (2 ^ 63) \<le> n \<and> n < 2 ^ 63 then Some n else None)"

lemma nat_to_string_ne [simp]: "nat_to_string n \<noteq> []"
  by (subst nat_to_string.simps) simp

lemma is_digit_char_of: "n < (10::nat) \<Longrightarrow> is_digit (char_of (48 + n))"
  by (simp add: is_digit_def)

lemma nat_to_string_digits: "\<forall>c \<in> set (nat_to_string n). is_digit c"
proof (induction n rule: nat_to_string.induct)
  case (1 n)
  show ?case
  proof (cases "n < 10")
    case True
    then show ?thesis by (subst nat_to_string.simps) (simp add: is_digit_char_of)
  next
    case False
    with 1 show ?thesis by (subst nat_to_string.simps) (auto simp: is_digit_char_of)
  qed
qed

lemma digits_value_snoc: "digits_value (ds @ [c]) = 10 * digits_value ds + (int (code_of c) - 48)"
  by (simp add: digits_value_def)

lemma digits_value_nat_to_string: "digits_value (nat_to_string n) = int n"
proof (induction n rule: nat_to_string.induct)
  case (1 n)
  show ?case
  proof (cases "n < 10")
    case True
    then show ?thesis by (subst nat_to_string.simps) (simp add: digits_value_def)
  next
    case False
    have "digits_value (nat_to_string n) = 10 * int (n div 10) + int (n mod 10)"
      using False 1 by (subst nat_to_string.simps) (simp add: digits_value_snoc)
    also have "\<dots> = int n" by presburger
    finally show ?thesis .
  qed
qed

lemma is_digit_not_sign: "is_digit c \<Longrightarrow> c \<noteq> CHR ''-'' \<and> c \<noteq> CHR ''+'' \<and> \<not> is_space c"
  by (auto simp: is_digit_def is_space_def)

lemma takeWhile_digits: "\<forall>c \<in> set ds. is_digit c \<Longrightarrow> takeWhile is_digit ds = ds"
  by (simp add: takeWhile_eq_all_conv)

lemma read_integer_digits:
  assumes "ds \<noteq> []" "\<forall>c \<in> set ds. is_digit c"
  shows "read_integer ds = Some (digits_value ds)"
proof -
  obtain c cs where ds: "ds = c # cs" using assms(1) by (cases ds) auto
  have c: "c \<noteq> CHR ''-''" "c \<noteq> CHR ''+''" "\<not> is_space c"
    using assms(2) ds is_digit_not_sign [of c] by auto
  have dw: "dropWhile is_space ds = ds" using ds c(3) by simp
  have "hd ds = c" using ds by simp
  then show ?thesis
    using assms(1) c unfolding read_integer_def Let_def dw
    by (simp add: takeWhile_digits [OF assms(2)] del: takeWhile_eq_all_conv)
qed

lemma read_integer_int_to_string [simp]: "read_integer (int_to_string i) = Some i"
proof (cases "i < 0")
  case False
  then show ?thesis
    using read_integer_digits [of "nat_to_string (nat i)"] nat_to_string_digits
    by (simp add: int_to_string_def digits_value_nat_to_string)
next
  case True
  let ?d = "nat_to_string (nat (- i))"
  have tw: "takeWhile is_digit ?d = ?d"
    by (rule takeWhile_digits) (rule nat_to_string_digits)
  have sp: "\<not> is_space (CHR ''-'')" by (simp add: is_space_def)
  have "digits_value ?d = - i" using True by (simp add: digits_value_nat_to_string)
  then show ?thesis
    using True sp unfolding read_integer_def Let_def int_to_string_def
    by (simp add: tw del: takeWhile_eq_all_conv)
qed

text \<open>Reading back what \<open>to_string\<close> wrote gives the number, for every \<open>int\<close> of the width.\<close>

lemma stoi_int_to_string: "- (2 ^ 31) \<le> i \<Longrightarrow> i < 2 ^ 31 \<Longrightarrow> stoi (int_to_string i) = Some i"
  by (simp add: stoi_def)

lemma stoll_int_to_string: "- (2 ^ 63) \<le> i \<Longrightarrow> i < 2 ^ 63 \<Longrightarrow> stoll (int_to_string i) = Some i"
  by (simp add: stoll_def)

section \<open>The text helpers of \<open>src/Application.cpp\<close>\<close>

definition kMaxPlayerNameLength :: nat where "kMaxPlayerNameLength = 30"
definition kMinGameCodeLength :: nat where "kMinGameCodeLength = 4"
definition kMaxGameCodeLength :: nat where "kMaxGameCodeLength = 12"

text \<open>\<open>trim\<close>: the loop from the front, then the loop from the back that stops at \<open>start\<close>.\<close>

definition trim :: "string \<Rightarrow> string" where
  "trim input = rev (dropWhile is_space (rev (dropWhile is_space input)))"

definition sanitizePlayerName :: "string \<Rightarrow> string" where
  "sanitizePlayerName raw =
     (let out = trim raw
      in if length out > kMaxPlayerNameLength then take kMaxPlayerNameLength out else out)"

fun normalize_loop :: "string \<Rightarrow> string" where
  "normalize_loop [] = []"
| "normalize_loop (ch # raw) =
     (if is_alnum ch then to_upper ch # normalize_loop raw else normalize_loop raw)"

definition normalizeGameCode :: "string \<Rightarrow> string" where
  "normalizeGameCode raw =
     (let out = normalize_loop raw
      in if length out > kMaxGameCodeLength then take kMaxGameCodeLength out else out)"

definition isValidGameCode :: "string \<Rightarrow> bool" where
  "isValidGameCode c =
     (if length c < kMinGameCodeLength \<or> length c > kMaxGameCodeLength then False
      else list_all is_alnum c)"

lemma trim_set: "set (trim s) \<subseteq> set s"
proof
  fix x
  assume "x \<in> set (trim s)"
  then have "x \<in> set (dropWhile is_space (rev (dropWhile is_space s)))"
    unfolding trim_def set_rev .
  then have "x \<in> set (rev (dropWhile is_space s))" by (blast dest: set_dropWhileD)
  then show "x \<in> set s" unfolding set_rev by (blast dest: set_dropWhileD)
qed

lemma hd_dropWhile_rev_dropWhile:
  "trim s \<noteq> [] \<Longrightarrow> \<not> is_space (hd (trim s)) \<and> \<not> is_space (last (trim s))"
proof
  let ?t = "dropWhile is_space s"
  assume ne: "trim s \<noteq> []"
  then have ne': "dropWhile is_space (rev ?t) \<noteq> []" by (simp add: trim_def)
  show "\<not> is_space (last (trim s))"
    using hd_dropWhile [OF ne'] by (simp add: trim_def last_rev)
  have t: "?t \<noteq> []" using ne' by (cases ?t) simp_all
  have split: "rev ?t = takeWhile is_space (rev ?t) @ dropWhile is_space (rev ?t)" by simp
  have "?t = trim s @ rev (takeWhile is_space (rev ?t))"
    unfolding trim_def by (metis rev_append rev_rev_ident split)
  then have "hd ?t = hd (trim s)" using ne by (metis hd_append2)
  with hd_dropWhile [OF t] show "\<not> is_space (hd (trim s))" by simp
qed

lemma normalize_loop_eq: "normalize_loop s = map to_upper (filter is_alnum s)"
  by (induction s) auto

lemma normalizeGameCode_eq:
  "normalizeGameCode s = take kMaxGameCodeLength (map to_upper (filter is_alnum s))"
  by (auto simp: normalizeGameCode_def normalize_loop_eq Let_def)

end
