(* ===== verification/Whot_Json.thy ===== *)
theory Whot_Json
  imports Whot_Text "HOL-Library.Monad_Syntax" Complex_Main
begin

text \<open>
  JSON trees (RFC 8259) and the members of \<open>nlohmann::json\<close> the code calls on them.  The code
  only ever makes a JSON text with \<open>dump()\<close> and only ever reads one with \<open>json::parse\<close>; the
  development works on the tree, and where a text itself matters \<open>dump\<close> and \<open>parse\<close> are
  parameters of the statement with the documented law that \<open>parse\<close> reads back what \<open>dump\<close>
  wrote.  So \<open>json::parse(card->toJson())\<close> inside another \<open>toJson\<close> is the tree of the card.
  A C++ exception (a missing key, a member of the wrong type) is \<open>None\<close>.  A number is an integer or a
  fraction; a fraction is exact where the code has a \<open>double\<close>.
\<close>

datatype json =
    JNull
  | JBool bool
  | JInt int
  | JReal rat
  | JString string
  | JArray "json list"
  | JObject "(string \<times> json) list"

fun json_is_array :: "json \<Rightarrow> bool" where
  "json_is_array (JArray _) = True"
| "json_is_array _ = False"

fun json_items :: "json \<Rightarrow> json list" where
  "json_items (JArray js) = js"
| "json_items _ = []"

text \<open>\<open>find\<close>: the member, when the value is an object that has the key.\<close>

fun json_find :: "json \<Rightarrow> string \<Rightarrow> json option" where
  "json_find (JObject ms) k = map_of ms k"
| "json_find _ k = None"

definition json_contains :: "json \<Rightarrow> string \<Rightarrow> bool" where
  "json_contains j k \<longleftrightarrow> json_find j k \<noteq> None"

text \<open>\<open>at(key)\<close> throws when the key is missing, \<open>value(key, default)\<close> only on a non-object.\<close>

definition json_at :: "json \<Rightarrow> string \<Rightarrow> json option" where
  "json_at j k = json_find j k"

fun json_value :: "(json \<Rightarrow> 'a option) \<Rightarrow> json \<Rightarrow> string \<Rightarrow> 'a \<Rightarrow> 'a option" where
  "json_value get (JObject ms) k d = (case map_of ms k of None \<Rightarrow> Some d | Some v \<Rightarrow> get v)"
| "json_value get _ k d = None"

text \<open>\<open>get<T>()\<close>: a type mismatch throws; a number is converted to the width of the target, a fraction by
  dropping what follows the point (C++ leaves open what a fraction outside the range becomes).\<close>

fun get_string :: "json \<Rightarrow> string option" where
  "get_string (JString s) = Some s"
| "get_string _ = None"

definition to_zero :: "rat \<Rightarrow> int" where
  "to_zero q = (if q < 0 then - \<lfloor>- q\<rfloor> else \<lfloor>q\<rfloor>)"

fun get_int :: "json \<Rightarrow> int option" where
  "get_int (JInt n) = Some (to_int32 n)"
| "get_int (JReal q) = Some (to_int32 (to_zero q))"
| "get_int (JBool b) = Some (if b then 1 else 0)"
| "get_int _ = None"

fun get_bool :: "json \<Rightarrow> bool option" where
  "get_bool (JBool b) = Some b"
| "get_bool _ = None"

text \<open>Loops that convert every element and let the first exception through.\<close>

fun traverse :: "('a \<Rightarrow> 'b option) \<Rightarrow> 'a list \<Rightarrow> 'b list option" where
  "traverse f [] = Some []"
| "traverse f (x # xs) =
     (case f x of None \<Rightarrow> None
      | Some y \<Rightarrow> (case traverse f xs of None \<Rightarrow> None | Some ys \<Rightarrow> Some (y # ys)))"

lemma traverse_map: "(\<forall>x \<in> set xs. f (g x) = Some (h x)) \<Longrightarrow> traverse f (map g xs) = Some (map h xs)"
  by (induction xs) simp_all

lemma traverse_map_id: "(\<And>x. f (g x) = Some x) \<Longrightarrow> traverse f (map g xs) = Some xs"
  using traverse_map [of xs f g id] by simp

lemma traverse_length: "traverse f xs = Some ys \<Longrightarrow> length ys = length xs"
  by (induction xs arbitrary: ys) (auto split: option.splits)

end
