(* ===== verification/Whot_Card.thy ===== *)
theory Whot_Card
  imports Whot_Json
begin

text \<open>
  \<open>Core/GameConstants\<close> and \<open>Core/Card\<close>: suits, card values and special abilities with their
  string conversions, and the card itself.  The source caches \<open>specialAbility_\<close> in the
  constructor and never writes it again; here it is computed from the value when it is read.
  The order on suits, values and cards is the one the code compares and sorts by: the numeric
  value of the enumerators.
\<close>

section \<open>Constants and enumerations\<close>

datatype Suit = CIRCLE | TRIANGLE | CROSS | BLOCK | STAR | WHOT

datatype CardValue =
    ONE | TWO | THREE | FOUR | FIVE | SEVEN | EIGHT
  | TEN | ELEVEN | TWELVE | THIRTEEN | FOURTEEN | TWENTY

datatype SpecialAbility = NONE | HOLD_ON | PICK_TWO | GENERAL_MARKET | WHOT_CARD

definition STANDARD_DECK_SIZE :: int where "STANDARD_DECK_SIZE = 54"
definition WHOT_CARDS_COUNT :: int where "WHOT_CARDS_COUNT = 5"
definition DEFAULT_STARTING_CARDS :: int where "DEFAULT_STARTING_CARDS = 6"
definition NIGERIAN_MIN_CARDS :: int where "NIGERIAN_MIN_CARDS = 3"
definition NIGERIAN_MAX_CARDS :: int where "NIGERIAN_MAX_CARDS = 6"
definition DEFAULT_TURN_TIME_SECONDS :: int where "DEFAULT_TURN_TIME_SECONDS = 10"
definition ELIMINATION_SCORE :: int where "ELIMINATION_SCORE = 100"

lemmas constant_defs = STANDARD_DECK_SIZE_def WHOT_CARDS_COUNT_def DEFAULT_STARTING_CARDS_def
  NIGERIAN_MIN_CARDS_def NIGERIAN_MAX_CARDS_def DEFAULT_TURN_TIME_SECONDS_def ELIMINATION_SCORE_def

text \<open>\<open>static_cast<int>\<close> of the enumerators.\<close>

fun suit_int :: "Suit \<Rightarrow> int" where
  "suit_int CIRCLE = 0"
| "suit_int TRIANGLE = 1"
| "suit_int CROSS = 2"
| "suit_int BLOCK = 3"
| "suit_int STAR = 4"
| "suit_int WHOT = 5"

fun value_int :: "CardValue \<Rightarrow> int" where
  "value_int ONE = 1"
| "value_int TWO = 2"
| "value_int THREE = 3"
| "value_int FOUR = 4"
| "value_int FIVE = 5"
| "value_int SEVEN = 7"
| "value_int EIGHT = 8"
| "value_int TEN = 10"
| "value_int ELEVEN = 11"
| "value_int TWELVE = 12"
| "value_int THIRTEEN = 13"
| "value_int FOURTEEN = 14"
| "value_int TWENTY = 20"

text \<open>
  \<open>static_cast<CardValue>(n)\<close>.  The code casts the values 1 to 14 without 6 and 9 only; the
  last branch is never taken there.
\<close>

definition cast_CardValue :: "int \<Rightarrow> CardValue" where
  "cast_CardValue n =
     (if n = 1 then ONE else if n = 2 then TWO else if n = 3 then THREE
      else if n = 4 then FOUR else if n = 5 then FIVE else if n = 7 then SEVEN
      else if n = 8 then EIGHT else if n = 10 then TEN else if n = 11 then ELEVEN
      else if n = 12 then TWELVE else if n = 13 then THIRTEEN
      else if n = 14 then FOURTEEN else TWENTY)"

lemma suit_int_inj [simp]: "suit_int s = suit_int t \<longleftrightarrow> s = t"
  by (cases s; cases t) simp_all

lemma value_int_inj [simp]: "value_int v = value_int w \<longleftrightarrow> v = w"
  by (cases v; cases w) simp_all

lemma cast_value_int [simp]: "cast_CardValue (value_int v) = v"
  by (cases v) (simp_all add: cast_CardValue_def)

lemma value_int_bounds: "1 \<le> value_int v \<and> value_int v \<le> 20"
  by (cases v) simp_all

lemma value_int_pos: "0 < value_int v"
  using value_int_bounds [of v] by linarith

text \<open>Every value the code casts is an enumerator: \<open>cast_CardValue\<close> inverts \<open>value_int\<close> there.\<close>

lemma value_int_cast:
  assumes "1 \<le> n \<and> n \<le> 14 \<and> n \<noteq> 6 \<and> n \<noteq> 9 \<or> n = 20"
  shows "value_int (cast_CardValue n) = n"
proof -
  have "n \<in> {1, 2, 3, 4, 5, 7, 8, 10, 11, 12, 13, 14, 20}"
    using assms by (simp only: insert_iff empty_iff) presburger
  then show ?thesis by (auto simp: cast_CardValue_def)
qed

section \<open>The order of the enumerators\<close>

instantiation Suit :: linorder
begin

definition less_eq_Suit :: "Suit \<Rightarrow> Suit \<Rightarrow> bool" where
  "less_eq_Suit s t \<longleftrightarrow> suit_int s \<le> suit_int t"

definition less_Suit :: "Suit \<Rightarrow> Suit \<Rightarrow> bool" where
  "less_Suit s t \<longleftrightarrow> suit_int s < suit_int t"

instance
  by standard (auto simp: less_eq_Suit_def less_Suit_def)

end

instantiation CardValue :: linorder
begin

definition less_eq_CardValue :: "CardValue \<Rightarrow> CardValue \<Rightarrow> bool" where
  "less_eq_CardValue v w \<longleftrightarrow> value_int v \<le> value_int w"

definition less_CardValue :: "CardValue \<Rightarrow> CardValue \<Rightarrow> bool" where
  "less_CardValue v w \<longleftrightarrow> value_int v < value_int w"

instance
  by standard (auto simp: less_eq_CardValue_def less_CardValue_def)

end

section \<open>String conversions\<close>

fun suitToString :: "Suit \<Rightarrow> string" where
  "suitToString CIRCLE = ''CIRCLE''"
| "suitToString TRIANGLE = ''TRIANGLE''"
| "suitToString CROSS = ''CROSS''"
| "suitToString BLOCK = ''BLOCK''"
| "suitToString STAR = ''STAR''"
| "suitToString WHOT = ''WHOT''"

definition cardValueToString :: "CardValue \<Rightarrow> string" where
  "cardValueToString v = int_to_string (value_int v)"

definition stringToSuit :: "string \<Rightarrow> Suit" where
  "stringToSuit str =
     (if str = ''CIRCLE'' then CIRCLE
      else if str = ''TRIANGLE'' then TRIANGLE
      else if str = ''CROSS'' then CROSS
      else if str = ''BLOCK'' then BLOCK
      else if str = ''STAR'' then STAR
      else if str = ''WHOT'' then WHOT
      else CIRCLE)"

text \<open>The named values first, then the numeric form; an exception of \<open>stoi\<close> falls through.\<close>

definition stringToCardValue :: "string \<Rightarrow> CardValue" where
  "stringToCardValue str =
     (if str = ''ONE'' then ONE
      else if str = ''TWO'' then TWO
      else if str = ''THREE'' then THREE
      else if str = ''FOUR'' then FOUR
      else if str = ''FIVE'' then FIVE
      else if str = ''SEVEN'' then SEVEN
      else if str = ''EIGHT'' then EIGHT
      else if str = ''TEN'' then TEN
      else if str = ''ELEVEN'' then ELEVEN
      else if str = ''TWELVE'' then TWELVE
      else if str = ''THIRTEEN'' then THIRTEEN
      else if str = ''FOURTEEN'' then FOURTEEN
      else if str = ''TWENTY'' then TWENTY
      else (case stoi str of
          Some n \<Rightarrow>
            (if n \<ge> 1 \<and> n \<le> 14 \<and> n \<noteq> 6 \<and> n \<noteq> 9 then cast_CardValue n
             else if n = 20 then TWENTY else ONE)
        | None \<Rightarrow> ONE))"

lemma stringToSuit_suitToString [simp]: "stringToSuit (suitToString s) = s"
  by (cases s) (simp_all add: stringToSuit_def)

lemma int_to_string_head:
  assumes "0 \<le> i"
  shows "int_to_string i \<noteq> [] \<and> is_digit (hd (int_to_string i))"
  using assms nat_to_string_digits [of "nat i"] hd_in_set [OF nat_to_string_ne [of "nat i"]]
  by (simp add: int_to_string_def)

lemma stringToCardValue_cardValueToString [simp]: "stringToCardValue (cardValueToString v) = v"
proof -
  let ?s = "cardValueToString v"
  have pos: "0 \<le> value_int v" using value_int_pos [of v] by simp
  have ne: "?s \<noteq> t" if "t \<noteq> []" "\<not> is_digit (hd t)" for t
    using int_to_string_head [OF pos] that unfolding cardValueToString_def by auto
  have st: "stoi ?s = Some (value_int v)"
    unfolding cardValueToString_def
    by (rule stoi_int_to_string) (use value_int_bounds [of v] in auto)
  have names: "?s \<noteq> ''ONE''" "?s \<noteq> ''TWO''" "?s \<noteq> ''THREE''" "?s \<noteq> ''FOUR''" "?s \<noteq> ''FIVE''"
    "?s \<noteq> ''SEVEN''" "?s \<noteq> ''EIGHT''" "?s \<noteq> ''TEN''" "?s \<noteq> ''ELEVEN''" "?s \<noteq> ''TWELVE''"
    "?s \<noteq> ''THIRTEEN''" "?s \<noteq> ''FOURTEEN''" "?s \<noteq> ''TWENTY''"
    by (rule ne; simp add: is_digit_def)+
  show ?thesis
    unfolding stringToCardValue_def st using names
    by (cases v) (simp_all add: cast_CardValue_def)
qed

section \<open>The card\<close>

datatype Card = Card (getSuit: Suit) (getValue: CardValue)

definition getNumericValue :: "Card \<Rightarrow> int" where
  "getNumericValue c = value_int (getValue c)"

fun determineSpecialAbility :: "CardValue \<Rightarrow> SpecialAbility" where
  "determineSpecialAbility ONE = HOLD_ON"
| "determineSpecialAbility TWO = PICK_TWO"
| "determineSpecialAbility FOURTEEN = GENERAL_MARKET"
| "determineSpecialAbility TWENTY = WHOT_CARD"
| "determineSpecialAbility _ = NONE"

definition getSpecialAbility :: "Card \<Rightarrow> SpecialAbility" where
  "getSpecialAbility c = determineSpecialAbility (getValue c)"

definition isWhotCard :: "Card \<Rightarrow> bool" where
  "isWhotCard c \<longleftrightarrow> getSpecialAbility c = WHOT_CARD"

definition isStarCard :: "Card \<Rightarrow> bool" where
  "isStarCard c \<longleftrightarrow> getSuit c = STAR"

definition getOuterStarValue :: "Card \<Rightarrow> int" where
  "getOuterStarValue c = getNumericValue c"

definition getInnerStarValue :: "Card \<Rightarrow> int" where
  "getInnerStarValue c = 2 * getNumericValue c"

definition getScoreValue :: "Card \<Rightarrow> int" where
  "getScoreValue c = (if isStarCard c then getInnerStarValue c else getNumericValue c)"

definition matchesSuit :: "Card \<Rightarrow> Suit \<Rightarrow> bool" where
  "matchesSuit c s \<longleftrightarrow> getSuit c = s"

definition matchesValue :: "Card \<Rightarrow> CardValue \<Rightarrow> bool" where
  "matchesValue c v \<longleftrightarrow> getValue c = v"

definition canPlayOn :: "Card \<Rightarrow> Card \<Rightarrow> bool" where
  "canPlayOn c callCard =
     (if isWhotCard c then True
      else matchesSuit c (getSuit callCard) \<or> matchesValue c (getValue callCard))"

definition card_toString :: "Card \<Rightarrow> string" where
  "card_toString c = suitToString (getSuit c) @ '' '' @ cardValueToString (getValue c)"

text \<open>\<open>operator==\<close> and \<open>operator!=\<close>.\<close>

definition card_eq :: "Card \<Rightarrow> Card \<Rightarrow> bool" where
  "card_eq a b \<longleftrightarrow> getSuit a = getSuit b \<and> getValue a = getValue b"

definition card_neq :: "Card \<Rightarrow> Card \<Rightarrow> bool" where
  "card_neq a b \<longleftrightarrow> \<not> card_eq a b"

definition card_toJson :: "Card \<Rightarrow> json" where
  "card_toJson c =
     JObject [(''suit'', JString (suitToString (getSuit c))),
              (''value'', JString (cardValueToString (getValue c)))]"

definition card_fromJson :: "json \<Rightarrow> Card option" where
  "card_fromJson j =
     do { js \<leftarrow> json_at j ''suit''; s \<leftarrow> get_string js;
          jv \<leftarrow> json_at j ''value''; v \<leftarrow> get_string jv;
          Some (Card (stringToSuit s) (stringToCardValue v)) }"

lemmas card_defs [whot_defs] = getNumericValue_def getSpecialAbility_def isWhotCard_def
  isStarCard_def getOuterStarValue_def getInnerStarValue_def getScoreValue_def
  matchesSuit_def matchesValue_def

lemma card_eq_iff [simp]: "card_eq a b \<longleftrightarrow> a = b"
  by (cases a; cases b) (simp add: card_eq_def)

lemma card_neq_iff [simp]: "card_neq a b \<longleftrightarrow> a \<noteq> b"
  by (simp add: card_neq_def)

lemma isWhotCard_iff: "isWhotCard c \<longleftrightarrow> getValue c = TWENTY"
  by (cases "getValue c") (simp_all add: card_defs)

lemma canPlayOn_iff:
  "canPlayOn c call \<longleftrightarrow> getValue c = TWENTY \<or> getSuit c = getSuit call \<or> getValue c = getValue call"
  by (auto simp: canPlayOn_def isWhotCard_iff matchesSuit_def matchesValue_def)

lemma canPlayOn_refl [simp]: "canPlayOn c c"
  by (simp add: canPlayOn_iff)

lemma canPlayOn_same_value: "getValue c = getValue call \<Longrightarrow> canPlayOn c call"
  by (simp add: canPlayOn_iff)

lemma getScoreValue_bounds: "1 \<le> getScoreValue c \<and> getScoreValue c \<le> 40"
  using value_int_bounds [of "getValue c"] by (auto simp: card_defs)

lemma card_fromJson_toJson [simp]: "card_fromJson (card_toJson c) = Some c"
  by (simp add: card_fromJson_def card_toJson_def json_at_def)

text \<open>The order \<open>Hand::sortCards\<close> sorts by: the suit first, the number second.\<close>

instantiation Card :: linorder
begin

definition less_Card :: "Card \<Rightarrow> Card \<Rightarrow> bool" where
  "less_Card a b \<longleftrightarrow>
     (if suit_int (getSuit a) \<noteq> suit_int (getSuit b)
      then suit_int (getSuit a) < suit_int (getSuit b)
      else getNumericValue a < getNumericValue b)"

definition less_eq_Card :: "Card \<Rightarrow> Card \<Rightarrow> bool" where
  "less_eq_Card a b \<longleftrightarrow> a < b \<or> a = (b :: Card)"

instance
proof
  fix x y z :: Card
  show "x < y \<longleftrightarrow> x \<le> y \<and> \<not> y \<le> x"
    by (auto simp: less_Card_def less_eq_Card_def split: if_splits)
  show "x \<le> x" by (simp add: less_eq_Card_def)
  show "x \<le> y \<Longrightarrow> y \<le> z \<Longrightarrow> x \<le> z"
    by (auto simp: less_Card_def less_eq_Card_def split: if_splits)
  show "x \<le> y \<Longrightarrow> y \<le> x \<Longrightarrow> x = y"
    by (auto simp: less_Card_def less_eq_Card_def split: if_splits)
  have eq: "getSuit x = getSuit y \<Longrightarrow> getNumericValue x = getNumericValue y \<Longrightarrow> x = y"
    by (cases x; cases y) (simp add: getNumericValue_def)
  show "x \<le> y \<or> y \<le> x"
  proof (cases "getSuit x = getSuit y")
    case True
    then show ?thesis
      using eq linorder_less_linear [of "getNumericValue x" "getNumericValue y"]
      by (auto simp: less_Card_def less_eq_Card_def)
  next
    case False
    then have "suit_int (getSuit x) \<noteq> suit_int (getSuit y)" by simp
    then have "suit_int (getSuit x) < suit_int (getSuit y) \<or> suit_int (getSuit y) < suit_int (getSuit x)"
      by linarith
    with False show ?thesis by (auto simp: less_Card_def less_eq_Card_def)
  qed
qed

end

end
