(* ===== verification/Whot_Hand.thy ===== *)
theory Whot_Hand
  imports Whot_Card
begin

text \<open>
  \<open>Core/Hand\<close>: an ordered vector of cards, played by index or by value.  \<open>hand_size\<close> is the
  member \<open>size_\<close>, which the code keeps next to the vector; \<open>hand_wf\<close> says that the two agree.
  A \<open>unique_ptr\<close> argument that may be null is a \<open>Card option\<close>, and a card that is returned
  by pointer has left the hand.
\<close>

record Hand =
  hand_cards :: "Card list"
  hand_size :: nat

definition hand_new :: Hand where
  "hand_new = \<lparr>hand_cards = [], hand_size = 0\<rparr>"

text \<open>\<open>Hand(int)\<close> reserves room only; a negative count converts to a huge one, which throws.\<close>

definition hand_reserve :: "int \<Rightarrow> Hand option" where
  "hand_reserve numberOfCards = (if numberOfCards < 0 then None else Some hand_new)"

fun hand_addCard :: "Card option \<Rightarrow> Hand \<Rightarrow> Hand" where
  "hand_addCard (Some c) h =
     (let cs = hand_cards h @ [c] in h\<lparr>hand_cards := cs, hand_size := length cs\<rparr>)"
| "hand_addCard None h = h"

fun hand_addCards :: "Card option list \<Rightarrow> Hand \<Rightarrow> Hand" where
  "hand_addCards [] h = h"
| "hand_addCards (c # cs) h = hand_addCards cs (hand_addCard c h)"

definition hand_playCard :: "nat \<Rightarrow> Hand \<Rightarrow> Card option \<times> Hand" where
  "hand_playCard index h =
     (if index \<ge> length (hand_cards h) then (None, h)
      else let c = hand_cards h ! index;
               cs = erase_nth index (hand_cards h)
           in (Some c, h\<lparr>hand_cards := cs, hand_size := length cs\<rparr>))"

text \<open>The overload that searches for an equal card and plays the first one found.\<close>

definition hand_playCard_eq :: "Card \<Rightarrow> Hand \<Rightarrow> Card option \<times> Hand" where
  "hand_playCard_eq cd h =
     (case find_index (\<lambda>c. card_eq c cd) (hand_cards h) of
        Some i \<Rightarrow> hand_playCard i h
      | None \<Rightarrow> (None, h))"

text \<open>\<open>std::sort\<close> by suit, then number: the order of the type \<open>Card\<close>.\<close>

definition hand_sortCards :: "Hand \<Rightarrow> Hand" where
  "hand_sortCards h = h\<lparr>hand_cards := sort (hand_cards h)\<rparr>"

definition hand_length :: "Hand \<Rightarrow> nat" where
  "hand_length h = length (hand_cards h)"

definition hand_isEmpty :: "Hand \<Rightarrow> bool" where
  "hand_isEmpty h \<longleftrightarrow> hand_cards h = []"

definition hand_hasCard :: "Hand \<Rightarrow> Card \<Rightarrow> bool" where
  "hand_hasCard h cd = list_ex (\<lambda>c. card_eq c cd) (hand_cards h)"

text \<open>\<open>cards_.at(index)\<close>: \<open>None\<close> is the \<open>out_of_range\<close> exception.\<close>

definition hand_getCard :: "Hand \<Rightarrow> nat \<Rightarrow> Card option" where
  "hand_getCard h index = (if index < length (hand_cards h) then Some (hand_cards h ! index) else None)"

definition getPlayableCardIndices :: "Hand \<Rightarrow> Card \<Rightarrow> nat list" where
  "getPlayableCardIndices h callCard = indices_where (\<lambda>c. canPlayOn c callCard) (hand_cards h)"

definition hand_hasPlayableCard :: "Hand \<Rightarrow> Card \<Rightarrow> bool" where
  "hand_hasPlayableCard h callCard \<longleftrightarrow> getPlayableCardIndices h callCard \<noteq> []"

definition getCardsBySuit :: "Hand \<Rightarrow> Suit \<Rightarrow> Card list" where
  "getCardsBySuit h s = filter (\<lambda>c. matchesSuit c s) (hand_cards h)"

definition getCardsByValue :: "Hand \<Rightarrow> CardValue \<Rightarrow> Card list" where
  "getCardsByValue h v = filter (\<lambda>c. matchesValue c v) (hand_cards h)"

definition getWhotCards :: "Hand \<Rightarrow> Card list" where
  "getWhotCards h = filter isWhotCard (hand_cards h)"

fun score_loop :: "int \<Rightarrow> Card list \<Rightarrow> int" where
  "score_loop score [] = score"
| "score_loop score (c # cs) = score_loop (score + getScoreValue c) cs"

definition calculateTotalScore :: "Hand \<Rightarrow> int" where
  "calculateTotalScore h = score_loop 0 (hand_cards h)"

definition hand_toJson :: "Hand \<Rightarrow> json" where
  "hand_toJson h = JArray (map card_toJson (hand_cards h))"

fun hand_from_items :: "json list \<Rightarrow> Hand \<Rightarrow> Hand option" where
  "hand_from_items [] h = Some h"
| "hand_from_items (item # items) h =
     (case card_fromJson item of
        None \<Rightarrow> None
      | Some c \<Rightarrow> hand_from_items items (hand_addCard (Some c) h))"

definition hand_fromJson :: "json \<Rightarrow> Hand option" where
  "hand_fromJson j =
     (if \<not> json_is_array j then Some hand_new else hand_from_items (json_items j) hand_new)"

section \<open>Invariant and frame\<close>

definition hand_wf :: "Hand \<Rightarrow> bool" where
  "hand_wf h \<longleftrightarrow> hand_size h = length (hand_cards h)"

lemma hand_wf_new [simp]: "hand_wf hand_new"
  by (simp add: hand_wf_def hand_new_def)

lemma hand_wf_addCard: "hand_wf h \<Longrightarrow> hand_wf (hand_addCard c h)"
  by (cases c) (simp_all add: hand_wf_def Let_def)

lemma hand_cards_addCard [simp]: "hand_cards (hand_addCard (Some c) h) = hand_cards h @ [c]"
  by (simp add: Let_def)

declare hand_addCard.simps(1) [simp del]

lemma hand_wf_addCards: "hand_wf h \<Longrightarrow> hand_wf (hand_addCards cs h)"
  by (induction cs arbitrary: h) (simp_all add: hand_wf_addCard)

lemma hand_wf_playCard: "hand_wf h \<Longrightarrow> hand_wf (snd (hand_playCard i h))"
  by (simp add: hand_wf_def hand_playCard_def Let_def)

lemma hand_wf_playCard_eq: "hand_wf h \<Longrightarrow> hand_wf (snd (hand_playCard_eq c h))"
  by (simp add: hand_playCard_eq_def hand_wf_playCard split: option.split)

lemma hand_wf_sortCards: "hand_wf h \<Longrightarrow> hand_wf (hand_sortCards h)"
  by (simp add: hand_wf_def hand_sortCards_def)

lemma hand_wf_from_items: "hand_wf h \<Longrightarrow> hand_from_items js h = Some h' \<Longrightarrow> hand_wf h'"
proof (induction js arbitrary: h)
  case Nil
  then show ?case by simp
next
  case (Cons j js)
  then show ?case
    using hand_wf_addCard by (fastforce split: option.splits)
qed


lemma hand_cards_addCards: "hand_cards (hand_addCards (map Some cs) h) = hand_cards h @ cs"
  by (induction cs arbitrary: h) simp_all

lemma hand_cards_addCards_option:
  "hand_cards (hand_addCards cs h) = hand_cards h @ List.map_filter (\<lambda>x. x) cs"
proof (induction cs arbitrary: h)
  case (Cons c cs)
  then show ?case by (cases c) (simp_all add: map_filter_simps)
qed (simp add: map_filter_simps)

lemma hand_playCard_some:
  "i < length (hand_cards h) \<Longrightarrow> fst (hand_playCard i h) = Some (hand_cards h ! i)"
  by (simp add: hand_playCard_def Let_def)

lemma hand_playCard_cards:
  "i < length (hand_cards h) \<Longrightarrow> hand_cards (snd (hand_playCard i h)) = erase_nth i (hand_cards h)"
  by (simp add: hand_playCard_def Let_def)

lemma hand_playCard_mset [whot_mset]:
  "i < length (hand_cards h) \<Longrightarrow>
   add_mset (hand_cards h ! i) (mset (hand_cards (snd (hand_playCard i h)))) = mset (hand_cards h)"
  by (simp add: hand_playCard_cards mset_erase_nth)

section \<open>Queries\<close>

lemma set_getPlayableCardIndices:
  "set (getPlayableCardIndices h call) = {i. i < length (hand_cards h) \<and> canPlayOn (hand_cards h ! i) call}"
  by (simp add: getPlayableCardIndices_def set_indices_where)

lemma getPlayableCardIndices_Nil:
  "getPlayableCardIndices h call = [] \<longleftrightarrow> (\<forall>c \<in> set (hand_cards h). \<not> canPlayOn c call)"
  by (simp add: getPlayableCardIndices_def indices_where_Nil)

lemma score_loop_sum: "score_loop s cs = s + sum_list (map getScoreValue cs)"
  by (induction cs arbitrary: s) simp_all

lemma calculateTotalScore_sum: "calculateTotalScore h = sum_list (map getScoreValue (hand_cards h))"
  by (simp add: calculateTotalScore_def score_loop_sum)

lemma sum_scores_bounds:
  "int (length cs) \<le> sum_list (map getScoreValue cs) \<and>
   sum_list (map getScoreValue cs) \<le> 40 * int (length cs)"
proof (induction cs)
  case (Cons c cs)
  then show ?case using getScoreValue_bounds [of c] by simp
qed simp

lemma hand_from_items_cards:
  "hand_from_items (map card_toJson cs) h = Some (hand_addCards (map Some cs) h)"
  by (induction cs arbitrary: h) simp_all

lemma hand_eqI: "hand_cards h = hand_cards g \<Longrightarrow> hand_wf h \<Longrightarrow> hand_wf g \<Longrightarrow> h = (g :: Hand)"
  by (cases h; cases g) (simp add: hand_wf_def)

lemma hand_fromJson_toJson:
  assumes "hand_wf h"
  shows "hand_fromJson (hand_toJson h) = Some h"
proof -
  have "hand_addCards (map Some (hand_cards h)) hand_new = h"
    by (rule hand_eqI) (simp_all add: hand_cards_addCards hand_wf_addCards assms hand_new_def [THEN arg_cong, of hand_cards])
  then show ?thesis
    by (simp add: hand_fromJson_def hand_toJson_def hand_from_items_cards)
qed

end
