(* ===== verification/Whot_Player.thy ===== *)
theory Whot_Player
  imports Whot_Hand
begin

text \<open>
  \<open>Core/Player\<close>.  The setters of the class are record updates; the operations that do more have
  a definition each.  Time points are nanoseconds of the steady clock, and an operation that
  reads the clock takes its value as the argument \<open>now\<close>.  Both enumerations have the
  underlying type \<open>uint8_t\<close>: a number read back from JSON that is no enumerator is kept, under
  the constructor ending in \<open>_raw\<close>.
\<close>

datatype PlayerType = HUMAN | AI_EASY | AI_MEDIUM | AI_HARD | PlayerType_raw int

datatype PlayerStatus = ACTIVE | WAITING | ELIMINATED | DISCONNECTED | WINNER | PlayerStatus_raw int

fun player_type_int :: "PlayerType \<Rightarrow> int" where
  "player_type_int HUMAN = 0"
| "player_type_int AI_EASY = 1"
| "player_type_int AI_MEDIUM = 2"
| "player_type_int AI_HARD = 3"
| "player_type_int (PlayerType_raw n) = n"

fun player_status_int :: "PlayerStatus \<Rightarrow> int" where
  "player_status_int ACTIVE = 0"
| "player_status_int WAITING = 1"
| "player_status_int ELIMINATED = 2"
| "player_status_int DISCONNECTED = 3"
| "player_status_int WINNER = 4"
| "player_status_int (PlayerStatus_raw n) = n"

definition cast_PlayerType :: "int \<Rightarrow> PlayerType" where
  "cast_PlayerType n =
     (let m = n mod 256
      in if m = 0 then HUMAN else if m = 1 then AI_EASY else if m = 2 then AI_MEDIUM
         else if m = 3 then AI_HARD else PlayerType_raw m)"

definition cast_PlayerStatus :: "int \<Rightarrow> PlayerStatus" where
  "cast_PlayerStatus n =
     (let m = n mod 256
      in if m = 0 then ACTIVE else if m = 1 then WAITING else if m = 2 then ELIMINATED
         else if m = 3 then DISCONNECTED else if m = 4 then WINNER else PlayerStatus_raw m)"

record Player =
  player_id :: string
  player_name :: string
  player_type :: PlayerType
  player_status :: PlayerStatus
  player_hand :: Hand
  currentScore :: int
  cumulativeScore :: int
  saidLastCard :: bool
  saidCheckUp :: bool
  lastActionTime :: int
  gamesPlayed :: int
  gamesWon :: int

definition player_new :: "int \<Rightarrow> string \<Rightarrow> string \<Rightarrow> PlayerType \<Rightarrow> Player" where
  "player_new now i n t =
     \<lparr>player_id = i, player_name = n, player_type = t, player_status = ACTIVE,
      player_hand = hand_new, currentScore = 0, cumulativeScore = 0,
      saidLastCard = False, saidCheckUp = False, lastActionTime = now,
      gamesPlayed = 0, gamesWon = 0\<rparr>"

definition addToScore :: "int \<Rightarrow> Player \<Rightarrow> Player" where
  "addToScore points p =
     p\<lparr>currentScore := currentScore p + points, cumulativeScore := cumulativeScore p + points\<rparr>"

definition resetCurrentScore :: "Player \<Rightarrow> Player" where
  "resetCurrentScore p = p\<lparr>currentScore := 0\<rparr>"

definition resetAllScores :: "Player \<Rightarrow> Player" where
  "resetAllScores p = p\<lparr>currentScore := 0, cumulativeScore := 0\<rparr>"

definition resetTurnFlags :: "Player \<Rightarrow> Player" where
  "resetTurnFlags p = p\<lparr>saidLastCard := False, saidCheckUp := False\<rparr>"

definition updateLastActionTime :: "int \<Rightarrow> Player \<Rightarrow> Player" where
  "updateLastActionTime now p = p\<lparr>lastActionTime := now\<rparr>"

text \<open>\<open>duration_cast<seconds>\<close> truncates.\<close>

definition elapsed_seconds :: "int \<Rightarrow> int \<Rightarrow> int" where
  "elapsed_seconds now since = (now - since) sdiv 1000000000"

definition hasExceededTurnTime :: "int \<Rightarrow> Player \<Rightarrow> int \<Rightarrow> bool" where
  "hasExceededTurnTime now p maxSeconds =
     (if maxSeconds \<le> 0 then False else elapsed_seconds now (lastActionTime p) \<ge> maxSeconds)"

definition incrementGamesPlayed :: "Player \<Rightarrow> Player" where
  "incrementGamesPlayed p = p\<lparr>gamesPlayed := gamesPlayed p + 1\<rparr>"

definition incrementGamesWon :: "Player \<Rightarrow> Player" where
  "incrementGamesWon p = p\<lparr>gamesWon := gamesWon p + 1\<rparr>"

definition player_toJson :: "Player \<Rightarrow> json" where
  "player_toJson p =
     JObject [(''id'', JString (player_id p)),
              (''name'', JString (player_name p)),
              (''type'', JInt (player_type_int (player_type p))),
              (''status'', JInt (player_status_int (player_status p))),
              (''hand'', hand_toJson (player_hand p)),
              (''currentScore'', JInt (currentScore p)),
              (''cumulativeScore'', JInt (cumulativeScore p)),
              (''saidLastCard'', JBool (saidLastCard p)),
              (''saidCheckUp'', JBool (saidCheckUp p)),
              (''gamesPlayed'', JInt (gamesPlayed p)),
              (''gamesWon'', JInt (gamesWon p))]"

definition player_fromJson :: "int \<Rightarrow> json \<Rightarrow> Player option" where
  "player_fromJson now j =
     do { i \<leftarrow> json_value get_string j ''id'' '''';
          n \<leftarrow> json_value get_string j ''name'' '''';
          t \<leftarrow> json_value get_int j ''type'' 0;
          let p = player_new now i n (cast_PlayerType t);
          st \<leftarrow> json_value get_int j ''status'' 0;
          let p = p\<lparr>player_status := cast_PlayerStatus st\<rparr>;
          p \<leftarrow> (case json_find j ''hand'' of
                 Some hj \<Rightarrow>
                   (if json_is_array hj
                    then (case hand_fromJson hj of None \<Rightarrow> None | Some h \<Rightarrow> Some (p\<lparr>player_hand := h\<rparr>))
                    else Some p)
               | None \<Rightarrow> Some p);
          cs \<leftarrow> json_value get_int j ''currentScore'' 0;
          cum \<leftarrow> json_value get_int j ''cumulativeScore'' 0;
          lc \<leftarrow> json_value get_bool j ''saidLastCard'' False;
          cu \<leftarrow> json_value get_bool j ''saidCheckUp'' False;
          gp \<leftarrow> json_value get_int j ''gamesPlayed'' 0;
          gw \<leftarrow> json_value get_int j ''gamesWon'' 0;
          Some (p\<lparr>currentScore := cs, cumulativeScore := cum, saidLastCard := lc,
                  saidCheckUp := cu, gamesPlayed := gp, gamesWon := gw\<rparr>) }"

lemmas player_defs [whot_defs] = addToScore_def resetCurrentScore_def resetAllScores_def
  resetTurnFlags_def updateLastActionTime_def incrementGamesPlayed_def incrementGamesWon_def

section \<open>What an operation leaves alone\<close>

lemma player_frame [whot_frame, simp]:
  "player_id (addToScore n p) = player_id p"
  "player_hand (addToScore n p) = player_hand p"
  "player_status (addToScore n p) = player_status p"
  "player_id (resetTurnFlags p) = player_id p"
  "player_hand (resetTurnFlags p) = player_hand p"
  "player_status (resetTurnFlags p) = player_status p"
  "player_id (incrementGamesPlayed p) = player_id p"
  "player_hand (incrementGamesPlayed p) = player_hand p"
  "player_status (incrementGamesPlayed p) = player_status p"
  "player_id (incrementGamesWon p) = player_id p"
  "player_hand (incrementGamesWon p) = player_hand p"
  "player_status (incrementGamesWon p) = player_status p"
  by (simp_all add: player_defs)

section \<open>Round trip\<close>

text \<open>
  A player the program can build: enumerators read back as themselves, numbers fit \<open>int\<close>, and
  the hand's size is the number of its cards.
\<close>

definition int32 :: "int \<Rightarrow> bool" where
  "int32 n \<longleftrightarrow> - (2 ^ 31) \<le> n \<and> n < 2 ^ 31"

definition player_wf :: "Player \<Rightarrow> bool" where
  "player_wf p \<longleftrightarrow> hand_wf (player_hand p) \<and>
     cast_PlayerType (player_type_int (player_type p)) = player_type p \<and>
     cast_PlayerStatus (player_status_int (player_status p)) = player_status p \<and>
     int32 (player_type_int (player_type p)) \<and> int32 (player_status_int (player_status p)) \<and>
     int32 (currentScore p) \<and> int32 (cumulativeScore p) \<and> int32 (gamesPlayed p) \<and> int32 (gamesWon p)"

lemma to_int32_int32 [simp]: "int32 n \<Longrightarrow> to_int32 n = n"
  by (simp add: int32_def)

lemma cast_PlayerType_idem [simp]:
  "cast_PlayerType (player_type_int (cast_PlayerType n)) = cast_PlayerType n"
  by (simp add: cast_PlayerType_def Let_def)

lemma cast_PlayerStatus_idem [simp]:
  "cast_PlayerStatus (player_status_int (cast_PlayerStatus n)) = cast_PlayerStatus n"
  by (simp add: cast_PlayerStatus_def Let_def)

lemma player_wf_new: "t \<in> {HUMAN, AI_EASY, AI_MEDIUM, AI_HARD} \<Longrightarrow> player_wf (player_new now i n t)"
  by (auto simp: player_wf_def player_new_def int32_def cast_PlayerType_def cast_PlayerStatus_def)

lemma hand_toJson_is_array [simp]: "json_is_array (hand_toJson h)"
  by (simp add: hand_toJson_def)

lemma player_fromJson_toJson:
  assumes "player_wf p"
  shows "player_fromJson now (player_toJson p) = Some (p\<lparr>lastActionTime := now\<rparr>)"
  using assms
  by (cases p) (simp add: player_wf_def player_fromJson_def player_toJson_def player_new_def
      hand_fromJson_toJson)

end
