(* ===== verification/Whot_Rules.thy ===== *)
theory Whot_Rules
  imports Whot_Player
begin

text \<open>
  \<open>Rules/NigerianRules\<close>: which card may be played, which card defends, double decking, and the
  configuration of the variant.  The locale \<open>play_rules\<close> is the interface the rule engine and
  the bots rely on; the rules of the code are its interpretation.
\<close>

record NigerianRules =
  rules_startingCards :: int
  rules_allowDoubleDecking :: bool
  rules_allowDirectionChange :: bool
  rules_enforceTurnTimer :: bool
  rules_turnTimeSeconds :: int

definition rules_new :: NigerianRules where
  "rules_new = \<lparr>rules_startingCards = DEFAULT_STARTING_CARDS, rules_allowDoubleDecking = False,
     rules_allowDirectionChange = True, rules_enforceTurnTimer = False,
     rules_turnTimeSeconds = DEFAULT_TURN_TIME_SECONDS\<rparr>"

definition cardsMatchSuit :: "Card \<Rightarrow> Card \<Rightarrow> bool" where
  "cardsMatchSuit card1 card2 \<longleftrightarrow> getSuit card1 = getSuit card2"

definition cardsMatchValue :: "Card \<Rightarrow> Card \<Rightarrow> bool" where
  "cardsMatchValue card1 card2 =
     (if isStarCard card1 \<and> isStarCard card2
      then getOuterStarValue card1 = getOuterStarValue card2
      else getValue card1 = getValue card2)"

definition rules_canPlayCard :: "NigerianRules \<Rightarrow> Card \<Rightarrow> Card \<Rightarrow> Player \<Rightarrow> Suit option \<Rightarrow> bool" where
  "rules_canPlayCard ru c callCard p demanded =
     (if isWhotCard c then True
      else (case demanded of
              Some s \<Rightarrow> matchesSuit c s
            | None \<Rightarrow> canPlayOn c callCard))"

definition canDefendAgainstAttack :: "NigerianRules \<Rightarrow> Card \<Rightarrow> Card \<Rightarrow> bool" where
  "canDefendAgainstAttack ru attackCard defenseCard =
     (if getValue attackCard = TWO then getValue defenseCard = TWO
      else if getValue attackCard = FIVE then getValue defenseCard = FIVE
      else False)"

definition decking_number :: "Card \<Rightarrow> int" where
  "decking_number c = (if isStarCard c then getOuterStarValue c else getNumericValue c)"

fun decking_loop :: "int \<Rightarrow> Card list \<Rightarrow> bool" where
  "decking_loop firstNum [] = True"
| "decking_loop firstNum (c # cs) =
     (if decking_number c \<noteq> firstNum then False else decking_loop firstNum cs)"

definition validateDoubleDecking :: "NigerianRules \<Rightarrow> Card list \<Rightarrow> Card \<Rightarrow> bool" where
  "validateDoubleDecking ru cs callCard =
     (case cs of
        [] \<Rightarrow> False
      | c # rest \<Rightarrow>
          (if \<not> rules_allowDoubleDecking ru then False
           else if \<not> canPlayOn c callCard then False
           else decking_loop (decking_number c) rest))"

definition getDefaultStartingCards :: "NigerianRules \<Rightarrow> int" where
  "getDefaultStartingCards ru = rules_startingCards ru"

definition getPickTwoCount :: int where "getPickTwoCount = 2"
definition getPickThreeCount :: int where "getPickThreeCount = 3"
definition canChainPickCards :: bool where "canChainPickCards = True"

definition getWhotCardAbilities :: "string list" where
  "getWhotCardAbilities = [''change_suit'', ''change_direction'']"

definition allowsDirectionChangeOnPickCards :: "NigerianRules \<Rightarrow> bool" where
  "allowsDirectionChangeOnPickCards ru = rules_allowDirectionChange ru"

definition rules_requiresLastCardDeclaration :: bool where "rules_requiresLastCardDeclaration = True"
definition rules_requiresCheckUpDeclaration :: bool where "rules_requiresCheckUpDeclaration = True"
definition rules_getDeclarationPenalty :: int where "rules_getDeclarationPenalty = 2"

definition rules_calculateScore :: "Hand \<Rightarrow> int" where
  "rules_calculateScore h = calculateTotalScore h"

definition rules_getEliminationScore :: int where "rules_getEliminationScore = ELIMINATION_SCORE"
definition getRuleName :: string where "getRuleName = ''Nigerian Whot''"

definition setStartingCards :: "int \<Rightarrow> NigerianRules \<Rightarrow> NigerianRules" where
  "setStartingCards n ru =
     (if n \<ge> NIGERIAN_MIN_CARDS \<and> n \<le> NIGERIAN_MAX_CARDS then ru\<lparr>rules_startingCards := n\<rparr> else ru)"

definition setAllowDoubleDecking :: "bool \<Rightarrow> NigerianRules \<Rightarrow> NigerianRules" where
  "setAllowDoubleDecking b ru = ru\<lparr>rules_allowDoubleDecking := b\<rparr>"

definition setAllowDirectionChange :: "bool \<Rightarrow> NigerianRules \<Rightarrow> NigerianRules" where
  "setAllowDirectionChange b ru = ru\<lparr>rules_allowDirectionChange := b\<rparr>"

definition setEnforceTurnTimer :: "bool \<Rightarrow> NigerianRules \<Rightarrow> NigerianRules" where
  "setEnforceTurnTimer b ru = ru\<lparr>rules_enforceTurnTimer := b\<rparr>"

definition setTurnTimeSeconds :: "int \<Rightarrow> NigerianRules \<Rightarrow> NigerianRules" where
  "setTurnTimeSeconds n ru = ru\<lparr>rules_turnTimeSeconds := n\<rparr>"

section \<open>The interface of the rules\<close>

locale play_rules =
  fixes can_play :: "Card \<Rightarrow> Card \<Rightarrow> Suit option \<Rightarrow> bool"
    and can_defend :: "Card \<Rightarrow> Card \<Rightarrow> bool"
  assumes wild_plays: "isWhotCard c \<Longrightarrow> can_play c call dem"
    and demand_rules: "\<not> isWhotCard c \<Longrightarrow> can_play c call (Some s) \<longleftrightarrow> getSuit c = s"
    and match_rules: "can_play c call None \<longleftrightarrow> canPlayOn c call"
    and defence_matches: "can_defend call c \<Longrightarrow> getValue c = getValue call"
begin

text \<open>A card that defends can be played, as long as no suit is demanded.\<close>

lemma defence_plays: "can_defend call c \<Longrightarrow> can_play c call None"
  by (simp add: match_rules canPlayOn_same_value defence_matches)

text \<open>No hand is left without a move: a defender plays the defence, everybody else draws.\<close>

lemma defend_or_draw:
  assumes "\<not> (\<exists>c \<in> set hnd. can_play c call None)"
  shows "\<not> (\<exists>c \<in> set hnd. can_defend call c)"
  using assms defence_plays by blast

lemma demand_hides:
  assumes "can_play c call (Some s)" "getSuit c \<noteq> s"
  shows "getValue c = TWENTY"
  using assms demand_rules [of c call s] by (auto simp: isWhotCard_iff)

end

lemma rules_canPlayCard_player: "rules_canPlayCard ru c call p dem = rules_canPlayCard ru c call q dem"
  by (simp add: rules_canPlayCard_def)

lemma decking_loop_all: "decking_loop n cs \<longleftrightarrow> (\<forall>c \<in> set cs. decking_number c = n)"
  by (induction cs) auto

lemma decking_number_eq: "decking_number c = getNumericValue c"
  by (simp add: decking_number_def getOuterStarValue_def)

interpretation nigerian: play_rules
  "\<lambda>c call dem. rules_canPlayCard ru c call p dem" "canDefendAgainstAttack ru" for ru p
  by unfold_locales
    (auto simp: rules_canPlayCard_def canDefendAgainstAttack_def matchesSuit_def canPlayOn_def
      split: if_splits)

end
