(* ===== verification/Whot_Random.thy ===== *)
theory Whot_Random
  imports Whot_Text Complex_Main
begin

text \<open>
  \<open>Utils/Random\<close> and \<open>std::shuffle\<close>.  A generator (a \<open>std::mt19937\<close>) is the list of the
  numbers it has still to give out; a list that has run out gives zeros, so every finite run of
  the program is covered by some list, and statements about all lists are statements about every
  seed.  How the standard distributions map raw numbers to their range is not prescribed; only
  that the result lies in the range, and that every value of it can come out, is used.
\<close>

type_synonym rng = "nat list"

fun next_raw :: "rng \<Rightarrow> nat \<times> rng" where
  "next_raw [] = (0, [])"
| "next_raw (k # r) = (k, r)"

section \<open>\<open>Random\<close>\<close>

definition nextInt :: "int \<Rightarrow> int \<Rightarrow> rng \<Rightarrow> int \<times> rng" where
  "nextInt lo hi r =
     (if lo \<ge> hi then (lo, r)
      else let (k, r') = next_raw r in (lo + int k mod (hi - lo + 1), r'))"

definition nextDouble :: "rat \<Rightarrow> rat \<Rightarrow> rng \<Rightarrow> rat \<times> rng" where
  "nextDouble lo hi r =
     (if lo \<ge> hi then (lo, r)
      else let (k, r') = next_raw r in (lo + (hi - lo) * (of_nat (k mod 2 ^ 32) / 2 ^ 32), r'))"

definition nextBool :: "rat \<Rightarrow> rng \<Rightarrow> bool \<times> rng" where
  "nextBool probability r = (let (d, r') = nextDouble 0 1 r in (d < probability, r'))"

fun pick_chars :: "string \<Rightarrow> nat \<Rightarrow> rng \<Rightarrow> string \<times> rng" where
  "pick_chars chars 0 r = ([], r)"
| "pick_chars chars (Suc n) r =
     (let (i, r1) = nextInt 0 (int (length chars) - 1) r;
          (out, r2) = pick_chars chars n r1
      in (chars ! nat i # out, r2))"

definition id_chars :: string where
  "id_chars = ''0123456789ABCDEFGHIJKLMNOPQRSTUVWXYZabcdefghijklmnopqrstuvwxyz''"

definition code_chars :: string where
  "code_chars = ''0123456789ABCDEFGHIJKLMNOPQRSTUVWXYZ''"

definition generateId :: "nat \<Rightarrow> rng \<Rightarrow> string \<times> rng" where
  "generateId len r = pick_chars id_chars len r"

definition generateGameCode :: "nat \<Rightarrow> rng \<Rightarrow> string \<times> rng" where
  "generateGameCode len r = pick_chars code_chars len r"

definition hex_chars :: string where
  "hex_chars = ''0123456789abcdef''"

definition generateUUID :: "rng \<Rightarrow> string \<times> rng" where
  "generateUUID r =
     (let (a, r1) = pick_chars hex_chars 8 r;
          (b, r2) = pick_chars hex_chars 4 r1;
          (c, r3) = pick_chars hex_chars 4 r2;
          (d, r4) = pick_chars hex_chars 4 r3;
          (e, r5) = pick_chars hex_chars 12 r4
      in (a @ ''-'' @ b @ ''-'' @ c @ ''-'' @ d @ ''-'' @ e, r5))"

lemma nextInt_range: "lo \<le> hi \<Longrightarrow> lo \<le> fst (nextInt lo hi r) \<and> fst (nextInt lo hi r) \<le> hi"
proof -
  assume le: "lo \<le> hi"
  have "int (fst (next_raw r)) mod (hi - lo + 1) \<le> hi - lo"
    using le pos_mod_bound [of "hi - lo + 1" "int (fst (next_raw r))"] by linarith
  then show ?thesis using le by (auto simp: nextInt_def split_beta Let_def)
qed

text \<open>Every value of the range can come out: the model of the distribution is complete.\<close>

lemma nextInt_complete: "lo \<le> n \<Longrightarrow> n \<le> hi \<Longrightarrow> fst (nextInt lo hi (nat (n - lo) # r)) = n"
  by (auto simp: nextInt_def)

lemma pick_chars_length [simp]: "length (fst (pick_chars chars n r)) = n"
  by (induction n arbitrary: r) (simp_all add: split_beta Let_def)

lemma pick_chars_set:
  assumes "chars \<noteq> []"
  shows "set (fst (pick_chars chars n r)) \<subseteq> set chars"
proof (induction n arbitrary: r)
  case (Suc n)
  have "0 \<le> fst (nextInt 0 (int (length chars) - 1) r) \<and>
        fst (nextInt 0 (int (length chars) - 1) r) \<le> int (length chars) - 1"
    by (rule nextInt_range) (use assms in \<open>cases chars; simp\<close>)
  then have "nat (fst (nextInt 0 (int (length chars) - 1) r)) < length chars" by linarith
  then show ?case using Suc by (simp add: split_beta Let_def)
qed simp

lemma id_chars_alnum: "list_all is_alnum id_chars"
  by (simp add: id_chars_def char_class_defs)

lemma code_chars_upper: "list_all (\<lambda>c. is_alnum c \<and> to_upper c = c) code_chars"
  by (simp add: code_chars_def char_class_defs to_upper_def)

section \<open>\<open>std::shuffle\<close>\<close>

text \<open>
  A Fisher-Yates pass driven by the generator: position \<open>i\<close> is swapped with a position at or
  below it, for \<open>i\<close> from the last one down.
\<close>

fun shuffle_pass :: "nat \<Rightarrow> 'a list \<Rightarrow> rng \<Rightarrow> 'a list \<times> rng" where
  "shuffle_pass 0 xs r = (xs, r)"
| "shuffle_pass (Suc i) xs r =
     (let (k, r') = next_raw r; j = k mod Suc (Suc i)
      in shuffle_pass i (xs[j := xs ! Suc i, Suc i := xs ! j]) r')"

definition std_shuffle :: "'a list \<Rightarrow> rng \<Rightarrow> 'a list \<times> rng" where
  "std_shuffle xs r = shuffle_pass (length xs - 1) xs r"

lemma shuffle_pass_mset: "i < length xs \<Longrightarrow> mset (fst (shuffle_pass i xs r)) = mset xs"
proof (induction i arbitrary: xs r)
  case (Suc i)
  let ?j = "fst (next_raw r) mod Suc (Suc i)"
  have j: "?j < length xs"
    using Suc.prems by (meson less_le_trans mod_less_divisor not_less_eq_eq not_le zero_less_Suc)
  have "mset (xs[?j := xs ! Suc i, Suc i := xs ! ?j]) = mset xs"
    using Suc.prems j by (simp add: mset_swap)
  then show ?case using Suc.IH [of "xs[?j := xs ! Suc i, Suc i := xs ! ?j]"] Suc.prems
    by (simp add: split_beta Let_def)
qed simp

lemma std_shuffle_mset [whot_mset]: "mset (fst (std_shuffle xs r)) = mset xs"
  by (cases xs) (simp_all add: std_shuffle_def shuffle_pass_mset)

lemma std_shuffle_length [simp]: "length (fst (std_shuffle xs r)) = length xs"
  using std_shuffle_mset by (rule mset_eq_length)

lemma std_shuffle_set [simp]: "set (fst (std_shuffle xs r)) = set xs"
  using std_shuffle_mset by (rule mset_eq_setD)

lemma std_shuffle_Nil [simp]: "fst (std_shuffle [] r) = []"
  by (simp add: std_shuffle_def)

text \<open>Every order of the elements is the result for some generator.\<close>

lemma shuffle_pass_complete:
  assumes "i < length xs" "length ys = length xs"
    and "mset (take (Suc i) ys) = mset (take (Suc i) xs)" "drop (Suc i) ys = drop (Suc i) xs"
  shows "\<exists>r. fst (shuffle_pass i xs r) = ys"
  using assms
proof (induction i arbitrary: xs)
  case 0
  then have "take 1 ys = take 1 xs" by (cases xs; cases ys) simp_all
  then have "ys = xs" using 0(4) by (metis One_nat_def append_take_drop_id)
  then show ?case by simp
next
  case (Suc i)
  let ?n = "Suc (Suc i)"
  have "ys ! Suc i \<in> set (take ?n ys)"
    using Suc.prems(1,2) by (metis in_set_conv_nth length_take lessI min_less_iff_conj nth_take)
  then have "ys ! Suc i \<in> set (take ?n xs)" using Suc.prems(3) by (metis mset_eq_setD)
  then obtain j where j: "j < ?n" "xs ! j = ys ! Suc i"
    using Suc.prems(1) by (auto simp: in_set_conv_nth)
  let ?xs = "xs[j := xs ! Suc i, Suc i := xs ! j]"
  have jl: "j < length xs" using j Suc.prems(1) by linarith
  have drop_xs: "drop ?n ?xs = drop ?n ys" using j(1) Suc.prems(4) by simp
  have "mset (take ?n ?xs) + mset (drop ?n ?xs) = mset (take ?n xs) + mset (drop ?n xs)"
    unfolding mset_append [symmetric] append_take_drop_id using Suc.prems(1) jl by (simp add: mset_swap)
  then have m: "mset (take ?n ?xs) = mset (take ?n ys)"
    using drop_xs Suc.prems(3,4) by simp
  have last_eq: "?xs ! Suc i = ys ! Suc i" using Suc.prems(1) j(2) by simp
  have tk: "take ?n ?xs = take (Suc i) ?xs @ [?xs ! Suc i]" "take ?n ys = take (Suc i) ys @ [ys ! Suc i]"
    using Suc.prems(1,2) by (simp_all add: take_Suc_conv_app_nth del: nth_list_update)
  have m': "mset (take (Suc i) ys) = mset (take (Suc i) ?xs)"
    using m unfolding tk last_eq by simp
  have d': "drop (Suc i) ys = drop (Suc i) ?xs"
    using drop_xs last_eq Suc.prems(1,2)
    by (metis Cons_nth_drop_Suc length_list_update)
  obtain r where "fst (shuffle_pass i ?xs r) = ys"
    using Suc.IH [of ?xs] Suc.prems(1,2) m' d' by auto
  then have "fst (shuffle_pass (Suc i) xs (j # r)) = ys" using j(1) by (simp add: Let_def)
  then show ?case by blast
qed

lemma std_shuffle_complete:
  assumes "mset ys = mset xs"
  shows "\<exists>r. fst (std_shuffle xs r) = ys"
proof (cases "xs = []")
  case False
  have "length ys = length xs" using assms by (rule mset_eq_length)
  then show ?thesis
    using shuffle_pass_complete [of "length xs - 1" xs ys] False assms
    by (simp add: std_shuffle_def)
qed (use assms in simp)

end
