(* ===== verification/Whot_Deck.thy ===== *)
theory Whot_Deck
  imports Whot_Card Whot_Random
begin

text \<open>
  \<open>Core/Deck\<close>: the vector of cards (the top is its end) and the generator that shuffles it.
  The constructors take what \<open>std::random_device\<close> seeds the generator with.
\<close>

record Deck =
  deck_cards :: "Card list"
  deck_rng :: rng

section \<open>Building a deck\<close>

definition createCircleCards :: "Deck \<Rightarrow> Deck" where
  "createCircleCards d = d\<lparr>deck_cards := deck_cards d @
     map (\<lambda>i. Card CIRCLE (cast_CardValue i)) (filter (\<lambda>i. \<not> (i = 6 \<or> i = 9)) [1..14])\<rparr>"

definition createTriangleCards :: "Deck \<Rightarrow> Deck" where
  "createTriangleCards d = d\<lparr>deck_cards := deck_cards d @
     map (\<lambda>i. Card TRIANGLE (cast_CardValue i)) (filter (\<lambda>i. \<not> (i = 6 \<or> i = 9)) [1..14])\<rparr>"

definition createCrossCards :: "Deck \<Rightarrow> Deck" where
  "createCrossCards d = d\<lparr>deck_cards := deck_cards d @
     map (\<lambda>i. Card CROSS (cast_CardValue i))
       (filter (\<lambda>i. \<not> (i = 4 \<or> i = 6 \<or> i = 8 \<or> i = 9 \<or> i = 12)) [1..14])\<rparr>"

definition createBlockCards :: "Deck \<Rightarrow> Deck" where
  "createBlockCards d = d\<lparr>deck_cards := deck_cards d @
     map (\<lambda>i. Card BLOCK (cast_CardValue i))
       (filter (\<lambda>i. \<not> (i = 4 \<or> i = 6 \<or> i = 8 \<or> i = 9 \<or> i = 12)) [1..14])\<rparr>"

definition createStarCards :: "Deck \<Rightarrow> Deck" where
  "createStarCards d = d\<lparr>deck_cards := deck_cards d @
     map (\<lambda>i. Card STAR (cast_CardValue i)) (filter (\<lambda>i. \<not> (i = 6)) [1..8])\<rparr>"

definition createWhotCards :: "Deck \<Rightarrow> Deck" where
  "createWhotCards d = d\<lparr>deck_cards := deck_cards d @
     replicate (nat WHOT_CARDS_COUNT) (Card WHOT TWENTY)\<rparr>"

definition createDeck :: "Deck \<Rightarrow> Deck" where
  "createDeck d =
     createWhotCards (createStarCards (createBlockCards (createCrossCards
       (createTriangleCards (createCircleCards d)))))"

definition deck_shuffle :: "Deck \<Rightarrow> Deck" where
  "deck_shuffle d = (let (cs, r) = std_shuffle (deck_cards d) (deck_rng d)
                     in d\<lparr>deck_cards := cs, deck_rng := r\<rparr>)"

text \<open>\<open>Deck()\<close> and \<open>Deck(int)\<close>; \<open>reserve\<close> of a negative size throws.\<close>

definition deck_new :: "rng \<Rightarrow> Deck" where
  "deck_new seed = deck_shuffle (createDeck \<lparr>deck_cards = [], deck_rng = seed\<rparr>)"

definition deck_new_multi :: "int \<Rightarrow> rng \<Rightarrow> Deck option" where
  "deck_new_multi numberOfDecks seed =
     (if numberOfDecks < 0 then None
      else Some (deck_shuffle ((createDeck ^^ nat numberOfDecks) \<lparr>deck_cards = [], deck_rng = seed\<rparr>)))"

section \<open>Operations\<close>

definition deck_draw :: "Deck \<Rightarrow> Card option \<times> Deck" where
  "deck_draw d =
     (if deck_cards d = [] then (None, d)
      else (Some (last (deck_cards d)), d\<lparr>deck_cards := butlast (deck_cards d)\<rparr>))"

fun deck_addCard :: "Card option \<Rightarrow> Deck \<Rightarrow> Deck" where
  "deck_addCard (Some c) d = d\<lparr>deck_cards := deck_cards d @ [c]\<rparr>"
| "deck_addCard None d = d"

fun deck_addCards :: "Card option list \<Rightarrow> Deck \<Rightarrow> Deck" where
  "deck_addCards [] d = d"
| "deck_addCards (c # cs) d = deck_addCards cs (deck_addCard c d)"

definition deck_size :: "Deck \<Rightarrow> nat" where
  "deck_size d = length (deck_cards d)"

definition deck_isEmpty :: "Deck \<Rightarrow> bool" where
  "deck_isEmpty d \<longleftrightarrow> deck_cards d = []"

definition deck_peek :: "Deck \<Rightarrow> Card option" where
  "deck_peek d = (if deck_cards d = [] then None else Some (last (deck_cards d)))"

definition deck_clear :: "Deck \<Rightarrow> Deck" where
  "deck_clear d = d\<lparr>deck_cards := []\<rparr>"

definition initializeStandardDeck :: "Deck \<Rightarrow> Deck" where
  "initializeStandardDeck d = createDeck (deck_clear d)"

definition deck_reset :: "Deck \<Rightarrow> Deck" where
  "deck_reset d = deck_shuffle (createDeck (deck_clear d))"

fun reshuffle_push :: "Card option list \<Rightarrow> Card \<Rightarrow> Deck \<Rightarrow> Deck" where
  "reshuffle_push [] call d = d"
| "reshuffle_push (None # cs) call d = reshuffle_push cs call d"
| "reshuffle_push (Some c # cs) call d =
     (if \<not> card_eq c call then reshuffle_push cs call (d\<lparr>deck_cards := deck_cards d @ [c]\<rparr>)
      else reshuffle_push cs call d)"

definition reshuffleFromDiscardPile :: "Card option list \<Rightarrow> Card \<Rightarrow> Deck \<Rightarrow> Deck" where
  "reshuffleFromDiscardPile pile call d = deck_shuffle (reshuffle_push pile call d)"

definition deck_toJson :: "Deck \<Rightarrow> json" where
  "deck_toJson d = JArray (map card_toJson (deck_cards d))"

text \<open>\<open>fromJson\<close> starts from a constructed deck (so it needs a seed) and clears it.\<close>

definition deck_fromJson :: "rng \<Rightarrow> json \<Rightarrow> Deck option" where
  "deck_fromJson seed j =
     (let d = (deck_new seed)\<lparr>deck_cards := []\<rparr>
      in if \<not> json_is_array j then Some d
         else (case traverse card_fromJson (json_items j) of
                 None \<Rightarrow> None
               | Some cs \<Rightarrow> Some (d\<lparr>deck_cards := deck_cards d @ cs\<rparr>)))"

section \<open>The standard deck\<close>

definition standard_cards :: "Card list" where
  "standard_cards = deck_cards (createDeck \<lparr>deck_cards = [], deck_rng = []\<rparr>)"

lemmas create_defs = createDeck_def createCircleCards_def createTriangleCards_def
  createCrossCards_def createBlockCards_def createStarCards_def createWhotCards_def

lemma deck_cards_createDeck: "deck_cards (createDeck d) = deck_cards d @ standard_cards"
  by (simp add: standard_cards_def create_defs)

lemma deck_rng_createDeck [simp]: "deck_rng (createDeck d) = deck_rng d"
  by (simp add: create_defs)

lemma length_standard_cards: "length standard_cards = 54"
  by code_simp

lemma standard_cards_valid: "c \<in> set standard_cards \<Longrightarrow> getSuit c = WHOT \<longleftrightarrow> getValue c = TWENTY"
proof -
  have "list_all (\<lambda>c. getSuit c = WHOT \<longleftrightarrow> getValue c = TWENTY) standard_cards" by code_simp
  then show "c \<in> set standard_cards \<Longrightarrow> getSuit c = WHOT \<longleftrightarrow> getValue c = TWENTY"
    by (simp add: list_all_iff)
qed

section \<open>Contents after an operation\<close>

lemma deck_shuffle_mset [whot_mset]: "mset (deck_cards (deck_shuffle d)) = mset (deck_cards d)"
  by (simp add: deck_shuffle_def split_beta Let_def std_shuffle_mset)

lemma deck_shuffle_length [simp]: "length (deck_cards (deck_shuffle d)) = length (deck_cards d)"
  using deck_shuffle_mset by (rule mset_eq_length)

lemma deck_shuffle_Nil [simp]: "deck_cards (deck_shuffle d) = [] \<longleftrightarrow> deck_cards d = []"
  by (metis deck_shuffle_length length_0_conv)

lemma deck_reset_mset [whot_mset]: "mset (deck_cards (deck_reset d)) = mset standard_cards"
  by (simp add: deck_reset_def deck_shuffle_mset deck_cards_createDeck deck_clear_def)

lemma deck_reset_length [simp]: "length (deck_cards (deck_reset d)) = 54"
  by (simp add: deck_reset_def deck_cards_createDeck deck_clear_def length_standard_cards)

lemma reshuffle_push_cards:
  "deck_cards (reshuffle_push (map Some cs) call d) = deck_cards d @ filter (\<lambda>c. c \<noteq> call) cs"
  by (induction cs arbitrary: d) simp_all

lemma reshuffle_mset [whot_mset]:
  "mset (deck_cards (reshuffleFromDiscardPile (map Some cs) call d))
     = mset (deck_cards d) + mset (filter (\<lambda>c. c \<noteq> call) cs)"
  by (simp add: reshuffleFromDiscardPile_def deck_shuffle_mset reshuffle_push_cards)

lemma reshuffle_length:
  "length (deck_cards (reshuffleFromDiscardPile (map Some cs) call d))
     = length (deck_cards d) + length (filter (\<lambda>c. c \<noteq> call) cs)"
  by (simp add: reshuffleFromDiscardPile_def reshuffle_push_cards)

lemma deck_draw_mset [whot_mset]:
  "deck_draw d = (Some c, d') \<Longrightarrow> add_mset c (mset (deck_cards d')) = mset (deck_cards d)"
proof -
  assume "deck_draw d = (Some c, d')"
  then have ne: "deck_cards d \<noteq> []" and c: "c = last (deck_cards d)"
    and d': "deck_cards d' = butlast (deck_cards d)"
    by (auto simp: deck_draw_def split: if_splits)
  have "mset (deck_cards d) = mset (butlast (deck_cards d) @ [last (deck_cards d)])"
    using ne by simp
  then show ?thesis using c d' by simp
qed

lemma deck_draw_None: "fst (deck_draw d) = None \<longleftrightarrow> deck_cards d = []"
  by (simp add: deck_draw_def)

lemma deck_draw_peek: "fst (deck_draw d) = deck_peek d"
  by (simp add: deck_draw_def deck_peek_def)

text \<open>The deck is a source of cards: the laws the dealing and penalty loops rely on.\<close>

interpretation deck_src: card_source deck_draw deck_cards
  by unfold_locales (simp_all add: deck_draw_def)

lemma deck_fromJson_toJson:
  "\<exists>d'. deck_fromJson seed (deck_toJson d) = Some d' \<and> deck_cards d' = deck_cards d"
  by (simp add: deck_fromJson_def deck_toJson_def Let_def traverse_map_id)

end
