(* ===== verification/Whot_State.thy ===== *)
theory Whot_State
  imports Whot_Rules Whot_Deck
begin

text \<open>
  \<open>Game/GameState\<close>: all of one game's mutable state.  A \<open>Player*\<close> is the position of the
  player in \<open>players\<close>; writing through it is \<open>modify_player\<close>.  The vectors hold no null
  pointers, because every insertion checks for them.
\<close>

datatype GamePhase = LOBBY | STARTING | IN_PROGRESS | ROUND_ENDED | GAME_ENDED | GamePhase_raw int

datatype PlayDirection = CLOCKWISE | COUNTER_CLOCKWISE

record GameConfig =
  minPlayers :: int
  maxPlayers :: int
  startingCards :: int
  turnTimeSeconds :: int
  eliminationScore :: int
  allowDoubleDecking :: bool
  allowDirectionChange :: bool
  enforceTurnTimer :: bool

definition default_config :: GameConfig where
  "default_config = \<lparr>minPlayers = 2, maxPlayers = 8, startingCards = 6, turnTimeSeconds = 10,
     eliminationScore = 100, allowDoubleDecking = False, allowDirectionChange = True,
     enforceTurnTimer = False\<rparr>"

record GameState =
  config :: GameConfig
  phase :: GamePhase
  players :: "Player list"
  currentPlayerIndex :: int
  direction :: PlayDirection
  deck :: Deck
  callCard :: "Card option"
  discardPile :: "Card list"
  activePickCount :: int
  demandedSuit :: "Suit option"
  gameId :: string
  gameCode :: string
  creatorPlayerId :: string
  createdAt :: int

text \<open>The constructor; the game id is made from the clock and a counter, here the argument \<open>gid\<close>.\<close>

definition state_new :: "GameConfig \<Rightarrow> string \<Rightarrow> int \<Rightarrow> rng \<Rightarrow> GameState" where
  "state_new cfg gid now seed =
     \<lparr>config = cfg, phase = LOBBY, players = [], currentPlayerIndex = 0, direction = CLOCKWISE,
      deck = deck_new seed, callCard = None, discardPile = [], activePickCount = 0,
      demandedSuit = None, gameId = gid, gameCode = '''', creatorPlayerId = '''', createdAt = now\<rparr>"

section \<open>Life cycle\<close>

definition state_initialize :: "GameState \<Rightarrow> GameState" where
  "state_initialize gs =
     gs\<lparr>phase := LOBBY, currentPlayerIndex := 0, direction := CLOCKWISE, activePickCount := 0,
        demandedSuit := None, deck := deck_clear (deck gs), discardPile := [], callCard := None\<rparr>"

definition state_startRound :: "GameState \<Rightarrow> GameState" where
  "state_startRound gs =
     gs\<lparr>phase := IN_PROGRESS, currentPlayerIndex := 0, direction := CLOCKWISE, activePickCount := 0,
        demandedSuit := None, deck := deck_reset (deck gs), discardPile := [], callCard := None,
        players := map (\<lambda>p. if player_status p = ACTIVE then resetTurnFlags p else p) (players gs)\<rparr>"

definition state_endRound :: "GameState \<Rightarrow> GameState" where
  "state_endRound gs = gs\<lparr>phase := ROUND_ENDED\<rparr>"

definition state_endGame :: "GameState \<Rightarrow> GameState" where
  "state_endGame gs = gs\<lparr>phase := GAME_ENDED\<rparr>"

section \<open>Players\<close>

definition to_size_t :: "int \<Rightarrow> nat" where
  "to_size_t n = nat (n mod 2 ^ 64)"

definition addPlayer :: "Player option \<Rightarrow> GameState \<Rightarrow> GameState" where
  "addPlayer po gs =
     (case po of
        None \<Rightarrow> gs
      | Some p \<Rightarrow>
          (if length (players gs) < to_size_t (maxPlayers (config gs))
           then (let gs' = (if players gs = [] then gs\<lparr>creatorPlayerId := player_id p\<rparr> else gs)
                 in gs'\<lparr>players := players gs' @ [p]\<rparr>)
           else gs))"

definition removePlayer :: "string \<Rightarrow> GameState \<Rightarrow> GameState" where
  "removePlayer pid gs = gs\<lparr>players := filter (\<lambda>p. player_id p \<noteq> pid) (players gs)\<rparr>"

definition getPlayer :: "string \<Rightarrow> GameState \<Rightarrow> nat option" where
  "getPlayer pid gs = find_index (\<lambda>p. player_id p = pid) (players gs)"

definition getCurrentPlayer :: "GameState \<Rightarrow> nat option" where
  "getCurrentPlayer gs =
     (if players gs = [] \<or> currentPlayerIndex gs < 0 \<or>
         nat (currentPlayerIndex gs) \<ge> length (players gs)
      then None else Some (nat (currentPlayerIndex gs)))"

definition getActivePlayers :: "GameState \<Rightarrow> nat list" where
  "getActivePlayers gs = indices_where (\<lambda>p. player_status p = ACTIVE) (players gs)"

definition getAllPlayers :: "GameState \<Rightarrow> nat list" where
  "getAllPlayers gs = [0..<length (players gs)]"

definition getPlayerCount :: "GameState \<Rightarrow> nat" where
  "getPlayerCount gs = length (players gs)"

definition modify_player :: "nat \<Rightarrow> (Player \<Rightarrow> Player) \<Rightarrow> GameState \<Rightarrow> GameState" where
  "modify_player i f gs = gs\<lparr>players := (players gs)[i := f (players gs ! i)]\<rparr>"

abbreviation hand_of :: "GameState \<Rightarrow> nat \<Rightarrow> Hand" where
  "hand_of gs i \<equiv> player_hand (players gs ! i)"

section \<open>Turns\<close>

definition getNextPlayerIndex :: "GameState \<Rightarrow> int" where
  "getNextPlayerIndex gs =
     (if players gs = [] then 0
      else let n = int (length (players gs))
           in if direction gs = CLOCKWISE then c_mod (currentPlayerIndex gs + 1 + n) n
              else c_mod (currentPlayerIndex gs - 1 + n) n)"

definition advanceTurn :: "GameState \<Rightarrow> GameState" where
  "advanceTurn gs =
     (if players gs = [] then gs else gs\<lparr>currentPlayerIndex := getNextPlayerIndex gs\<rparr>)"

definition skipNextPlayer :: "GameState \<Rightarrow> GameState" where
  "skipNextPlayer gs = advanceTurn gs"

definition reverseDirection :: "GameState \<Rightarrow> GameState" where
  "reverseDirection gs =
     gs\<lparr>direction := (if direction gs = CLOCKWISE then COUNTER_CLOCKWISE else CLOCKWISE)\<rparr>"

section \<open>Cards\<close>

definition setCallCard :: "Card option \<Rightarrow> GameState \<Rightarrow> GameState" where
  "setCallCard c gs = gs\<lparr>callCard := c\<rparr>"

definition addToDiscardPile :: "Card option \<Rightarrow> GameState \<Rightarrow> GameState" where
  "addToDiscardPile co gs =
     (case co of Some c \<Rightarrow> gs\<lparr>discardPile := discardPile gs @ [c]\<rparr> | None \<Rightarrow> gs)"

definition setActivePickCount :: "int \<Rightarrow> GameState \<Rightarrow> GameState" where
  "setActivePickCount n gs = gs\<lparr>activePickCount := n\<rparr>"

definition resetActivePickCount :: "GameState \<Rightarrow> GameState" where
  "resetActivePickCount gs = gs\<lparr>activePickCount := 0\<rparr>"

definition setDemandedSuit :: "Suit option \<Rightarrow> GameState \<Rightarrow> GameState" where
  "setDemandedSuit s gs = gs\<lparr>demandedSuit := s\<rparr>"

definition clearDemandedSuit :: "GameState \<Rightarrow> GameState" where
  "clearDemandedSuit gs = gs\<lparr>demandedSuit := None\<rparr>"

definition setPhase :: "GamePhase \<Rightarrow> GameState \<Rightarrow> GameState" where
  "setPhase ph gs = gs\<lparr>phase := ph\<rparr>"

definition needsReshuffle :: "GameState \<Rightarrow> bool" where
  "needsReshuffle gs \<longleftrightarrow> deck_isEmpty (deck gs) \<and> discardPile gs \<noteq> []"

definition reshuffleDiscardPile :: "GameState \<Rightarrow> GameState" where
  "reshuffleDiscardPile gs =
     (case callCard gs of
        Some c \<Rightarrow>
          (if discardPile gs \<noteq> []
           then gs\<lparr>deck := reshuffleFromDiscardPile (map Some (discardPile gs)) c (deck gs),
                   discardPile := []\<rparr>
           else gs)
      | None \<Rightarrow> gs)"

section \<open>End conditions\<close>

definition checkRoundEnd :: "GameState \<Rightarrow> bool" where
  "checkRoundEnd gs = list_ex (\<lambda>p. hand_isEmpty (player_hand p)) (players gs)"

definition checkGameEnd :: "GameState \<Rightarrow> bool" where
  "checkGameEnd gs \<longleftrightarrow> phase gs = GAME_ENDED"

definition getWinnerId :: "GameState \<Rightarrow> string option" where
  "getWinnerId gs =
     map_option (\<lambda>i. player_id (players gs ! i))
       (find_index (\<lambda>p. hand_isEmpty (player_hand p)) (players gs))"

definition eliminatePlayers :: "GameState \<Rightarrow> GameState" where
  "eliminatePlayers gs =
     gs\<lparr>players := map (\<lambda>p. if currentScore p \<ge> eliminationScore (config gs)
                            then p\<lparr>player_status := ELIMINATED\<rparr> else p) (players gs)\<rparr>"

lemmas state_defs [whot_defs] = setCallCard_def setActivePickCount_def resetActivePickCount_def
  setDemandedSuit_def clearDemandedSuit_def setPhase_def state_endRound_def state_endGame_def

section \<open>Basic facts\<close>

lemma getPlayer_Some:
  "getPlayer pid gs = Some i \<Longrightarrow> i < length (players gs) \<and> player_id (players gs ! i) = pid"
  unfolding getPlayer_def by (drule find_index_Some) simp

lemma getCurrentPlayer_Some:
  "getCurrentPlayer gs = Some i \<longleftrightarrow> i < length (players gs) \<and> currentPlayerIndex gs = int i"
  by (auto simp: getCurrentPlayer_def)

lemma getCurrentPlayer_lt: "getCurrentPlayer gs = Some i \<Longrightarrow> i < length (players gs)"
  by (simp add: getCurrentPlayer_Some)

lemma set_getActivePlayers:
  "set (getActivePlayers gs) = {i. i < length (players gs) \<and> player_status (players gs ! i) = ACTIVE}"
  by (simp add: getActivePlayers_def set_indices_where)

lemma checkRoundEnd_iff: "checkRoundEnd gs \<longleftrightarrow> (\<exists>p \<in> set (players gs). hand_cards (player_hand p) = [])"
  by (simp add: checkRoundEnd_def list_ex_iff hand_isEmpty_def)

lemma getWinnerId_None: "getWinnerId gs = None \<longleftrightarrow> \<not> checkRoundEnd gs"
  by (auto simp: getWinnerId_def checkRoundEnd_def list_ex_iff)

lemma next_index_range:
  assumes "players gs \<noteq> []" "0 \<le> currentPlayerIndex gs"
  shows "0 \<le> getNextPlayerIndex gs \<and> getNextPlayerIndex gs < int (length (players gs))"
  using c_mod_bounds [of "currentPlayerIndex gs + 1 + int (length (players gs))" "int (length (players gs))"]
    c_mod_bounds [of "currentPlayerIndex gs - 1 + int (length (players gs))" "int (length (players gs))"]
    assms by (cases "players gs") (simp_all add: getNextPlayerIndex_def Let_def del: c_mod_nonneg)

lemma getNextPlayerIndex_cong:
  assumes "length (players gs') = length (players gs)" "direction gs' = direction gs"
    "currentPlayerIndex gs' = currentPlayerIndex gs"
  shows "getNextPlayerIndex gs' = getNextPlayerIndex gs"
  using assms by (cases "players gs = []") (auto simp: getNextPlayerIndex_def Let_def)

lemma advanceTurn_frame [simp, whot_frame]:
  "players (advanceTurn gs) = players gs"
  "deck (advanceTurn gs) = deck gs"
  "callCard (advanceTurn gs) = callCard gs"
  "discardPile (advanceTurn gs) = discardPile gs"
  "activePickCount (advanceTurn gs) = activePickCount gs"
  "demandedSuit (advanceTurn gs) = demandedSuit gs"
  "phase (advanceTurn gs) = phase gs"
  "config (advanceTurn gs) = config gs"
  "direction (advanceTurn gs) = direction gs"
  by (simp_all add: advanceTurn_def)

lemma advanceTurns_frame [simp, whot_frame]:
  "players ((advanceTurn ^^ k) gs) = players gs"
  "direction ((advanceTurn ^^ k) gs) = direction gs"
  by (induction k) simp_all

lemma currentPlayerIndex_advanceTurn:
  "players gs \<noteq> [] \<Longrightarrow> currentPlayerIndex (advanceTurn gs) = getNextPlayerIndex gs"
  by (simp add: advanceTurn_def)

lemma modify_player_frame [simp, whot_frame]:
  "length (players (modify_player i f gs)) = length (players gs)"
  "deck (modify_player i f gs) = deck gs"
  "callCard (modify_player i f gs) = callCard gs"
  "discardPile (modify_player i f gs) = discardPile gs"
  "activePickCount (modify_player i f gs) = activePickCount gs"
  "demandedSuit (modify_player i f gs) = demandedSuit gs"
  "phase (modify_player i f gs) = phase gs"
  "config (modify_player i f gs) = config gs"
  "direction (modify_player i f gs) = direction gs"
  "currentPlayerIndex (modify_player i f gs) = currentPlayerIndex gs"
  by (simp_all add: modify_player_def)

lemma players_modify_player:
  "i < length (players gs) \<Longrightarrow>
   players (modify_player i f gs) ! k = (if k = i then f (players gs ! i) else players gs ! k)"
  by (simp add: modify_player_def nth_list_update)

lemma reshuffle_frame [simp, whot_frame]:
  "players (reshuffleDiscardPile gs) = players gs"
  "callCard (reshuffleDiscardPile gs) = callCard gs"
  "activePickCount (reshuffleDiscardPile gs) = activePickCount gs"
  "demandedSuit (reshuffleDiscardPile gs) = demandedSuit gs"
  "phase (reshuffleDiscardPile gs) = phase gs"
  "config (reshuffleDiscardPile gs) = config gs"
  "direction (reshuffleDiscardPile gs) = direction gs"
  "currentPlayerIndex (reshuffleDiscardPile gs) = currentPlayerIndex gs"
  by (simp_all add: reshuffleDiscardPile_def split: option.split)

end
