(* ===== verification/Whot_RuleEngine.thy ===== *)
theory Whot_RuleEngine
  imports Whot_State
begin

text \<open>
  \<open>Game/RuleEngine\<close>: the questions the engine asks of a state.  A player is passed by value,
  as the code passes it by constant reference; \<open>ru\<close> is the member \<open>rules_\<close>.  The loops over
  a hand stop at the first card that satisfies the test.
\<close>

definition re_hasPlayableCard :: "NigerianRules \<Rightarrow> GameState \<Rightarrow> Player \<Rightarrow> bool" where
  "re_hasPlayableCard ru gs p =
     (case callCard gs of
        None \<Rightarrow> False
      | Some call \<Rightarrow>
          list_ex (\<lambda>c. rules_canPlayCard ru c call p (demandedSuit gs)) (hand_cards (player_hand p)))"

definition re_hasDefenseCard :: "NigerianRules \<Rightarrow> GameState \<Rightarrow> Player \<Rightarrow> bool" where
  "re_hasDefenseCard ru gs p =
     (if activePickCount gs \<le> 0 then False
      else (case callCard gs of
              None \<Rightarrow> False
            | Some call \<Rightarrow>
                list_ex (\<lambda>c. canDefendAgainstAttack ru call c) (hand_cards (player_hand p))))"

definition re_canPlayCard :: "NigerianRules \<Rightarrow> GameState \<Rightarrow> Player \<Rightarrow> Card \<Rightarrow> bool" where
  "re_canPlayCard ru gs p c =
     (case callCard gs of
        None \<Rightarrow> False
      | Some call \<Rightarrow> rules_canPlayCard ru c call p (demandedSuit gs))"

definition re_mustDrawCard :: "NigerianRules \<Rightarrow> GameState \<Rightarrow> Player \<Rightarrow> bool" where
  "re_mustDrawCard ru gs p =
     (if activePickCount gs > 0 then \<not> re_hasDefenseCard ru gs p else \<not> re_hasPlayableCard ru gs p)"

definition re_calculateDrawCount :: "NigerianRules \<Rightarrow> GameState \<Rightarrow> Player \<Rightarrow> int" where
  "re_calculateDrawCount ru gs p =
     (if activePickCount gs > 0 \<and> \<not> re_hasDefenseCard ru gs p then activePickCount gs else 1)"

definition re_canDefendAgainstPick :: "NigerianRules \<Rightarrow> GameState \<Rightarrow> Player \<Rightarrow> Card \<Rightarrow> bool" where
  "re_canDefendAgainstPick ru gs p attackCard =
     (if activePickCount gs \<le> 0 then False else re_hasDefenseCard ru gs p)"

definition re_canDoubleDesk :: "NigerianRules \<Rightarrow> GameState \<Rightarrow> Player \<Rightarrow> Card list \<Rightarrow> bool" where
  "re_canDoubleDesk ru gs p cs =
     (case callCard gs of None \<Rightarrow> False | Some call \<Rightarrow> validateDoubleDecking ru cs call)"

definition re_requiresLastCardDeclaration :: "Player \<Rightarrow> bool" where
  "re_requiresLastCardDeclaration p \<longleftrightarrow>
     rules_requiresLastCardDeclaration \<and> hand_length (player_hand p) = 2"

definition re_requiresCheckUpDeclaration :: "Player \<Rightarrow> bool" where
  "re_requiresCheckUpDeclaration p \<longleftrightarrow>
     rules_requiresCheckUpDeclaration \<and> hand_length (player_hand p) = 1"

definition re_getDeclarationPenalty :: int where
  "re_getDeclarationPenalty = rules_getDeclarationPenalty"

definition re_calculateRoundScore :: "Player \<Rightarrow> int" where
  "re_calculateRoundScore p = rules_calculateScore (player_hand p)"

definition re_isPlayerEliminated :: "Player \<Rightarrow> bool" where
  "re_isPlayerEliminated p \<longleftrightarrow> cumulativeScore p \<ge> rules_getEliminationScore"

definition re_enforceTurnTimer :: "NigerianRules \<Rightarrow> bool" where
  "re_enforceTurnTimer ru = rules_enforceTurnTimer ru"

definition re_getTurnTimeLimit :: "NigerianRules \<Rightarrow> int" where
  "re_getTurnTimeLimit ru = rules_turnTimeSeconds ru"

section \<open>The tests as statements about the hand\<close>

lemma hasPlayableCard_iff:
  "re_hasPlayableCard ru gs p \<longleftrightarrow>
     (\<exists>i < length (hand_cards (player_hand p)). re_canPlayCard ru gs p (hand_cards (player_hand p) ! i))"
  by (cases "callCard gs") (auto simp: re_hasPlayableCard_def re_canPlayCard_def list_ex_iff set_conv_nth)

lemma hasDefenseCard_plays:
  assumes "re_hasDefenseCard ru gs p" "demandedSuit gs = None"
  shows "re_hasPlayableCard ru gs p"
proof -
  obtain call where call: "callCard gs = Some call"
    "\<exists>c \<in> set (hand_cards (player_hand p)). canDefendAgainstAttack ru call c"
    using assms(1) by (auto simp: re_hasDefenseCard_def list_ex_iff split: if_splits option.splits)
  then show ?thesis
    using assms(2) nigerian.defence_plays by (simp add: re_hasPlayableCard_def list_ex_iff) blast
qed

text \<open>Either the player must draw, or one of the cards can be played (no suit demanded).\<close>

lemma draw_or_play:
  assumes "demandedSuit gs = None"
  shows "re_mustDrawCard ru gs p \<or> re_hasPlayableCard ru gs p"
  using hasDefenseCard_plays [OF _ assms] by (auto simp: re_mustDrawCard_def)

lemma calculateDrawCount_pos: "1 \<le> re_calculateDrawCount ru gs p"
  by (simp add: re_calculateDrawCount_def)

lemma mustDraw_no_picks_stuck:
  "activePickCount gs \<le> 0 \<Longrightarrow> re_mustDrawCard ru gs p \<Longrightarrow> \<not> re_canPlayCard ru gs p c \<or> c \<notin> set (hand_cards (player_hand p))"
  by (auto simp: re_mustDrawCard_def hasPlayableCard_iff in_set_conv_nth split: if_splits)

end
