(* ===== verification/Whot_Turn.thy ===== *)
theory Whot_Turn
  imports Whot_State
begin

text \<open>
  \<open>Game/ActionTypes\<close> and \<open>Game/TurnManager\<close>.  The turn manager holds a pointer to the game
  state; here the operations that follow it take the state as an argument and return it when
  they change it.  Time points are nanoseconds of the clock, read as \<open>now\<close>.
\<close>

datatype ActionType =
    PLAY_CARD | DRAW_CARD | DECLARE_LAST_CARD | DECLARE_CHECK_UP | CHOOSE_SUIT
  | CHOOSE_DIRECTION | FORFEIT_TURN

record GameAction =
  act_type :: ActionType
  act_playerId :: string
  act_cardIndex :: "nat option"
  act_chosenSuit :: "Suit option"
  act_chosenDirection :: "PlayDirection option"
  act_metadata :: string

text \<open>\<open>newStateJson\<close> is empty until a handler writes it: \<open>None\<close>.\<close>

record ActionResult =
  res_success :: bool
  res_message :: string
  res_affectedPlayerIds :: "string list"
  res_newStateJson :: "json option"

record TurnAction =
  ta_playerId :: string
  ta_action :: ActionType
  ta_timestamp :: int
  ta_completed :: bool

record TurnManager =
  actionHistory :: "TurnAction list"
  skippedPlayers :: "string list"
  allowMultipleActions :: bool
  turnStartTime :: int

definition turn_new :: "int \<Rightarrow> TurnManager" where
  "turn_new now = \<lparr>actionHistory = [], skippedPlayers = [], allowMultipleActions = False,
     turnStartTime = now\<rparr>"

definition clearSkips :: "TurnManager \<Rightarrow> TurnManager" where
  "clearSkips tm = tm\<lparr>skippedPlayers := []\<rparr>"

definition startTurn :: "int \<Rightarrow> TurnManager \<Rightarrow> TurnManager" where
  "startTurn now tm = clearSkips (tm\<lparr>turnStartTime := now\<rparr>)"

definition endTurn :: "TurnManager \<Rightarrow> GameState \<Rightarrow> TurnManager \<times> GameState" where
  "endTurn tm gs = (tm\<lparr>allowMultipleActions := False\<rparr>, advanceTurn gs)"

definition skipTurn :: "GameState \<Rightarrow> GameState" where
  "skipTurn gs = skipNextPlayer gs"

definition forceNextPlayer :: "GameState \<Rightarrow> GameState" where
  "forceNextPlayer gs = advanceTurn gs"

definition getCurrentPlayerId :: "GameState \<Rightarrow> string" where
  "getCurrentPlayerId gs =
     (case getCurrentPlayer gs of Some i \<Rightarrow> player_id (players gs ! i) | None \<Rightarrow> '''')"

definition isPlayerTurn :: "GameState \<Rightarrow> string \<Rightarrow> bool" where
  "isPlayerTurn gs pid \<longleftrightarrow> getCurrentPlayerId gs = pid"

text \<open>The queue is bounded: after a push, elements leave at the front while there are over 100.\<close>

fun trim_history :: "TurnAction list \<Rightarrow> TurnAction list" where
  "trim_history [] = []"
| "trim_history (a # as) = (if length (a # as) > 100 then trim_history as else a # as)"

definition recordAction :: "TurnAction \<Rightarrow> TurnManager \<Rightarrow> TurnManager" where
  "recordAction a tm = tm\<lparr>actionHistory := trim_history (actionHistory tm @ [a])\<rparr>"

fun history_loop :: "TurnAction list \<Rightarrow> TurnAction list \<Rightarrow> nat \<Rightarrow> TurnAction list" where
  "history_loop out [] n = out"
| "history_loop out (a # q) n = (if length out < n then history_loop (out @ [a]) q n else out)"

definition getTurnHistory :: "int \<Rightarrow> TurnManager \<Rightarrow> TurnAction list" where
  "getTurnHistory cnt tm = history_loop [] (actionHistory tm) (to_size_t cnt)"

definition getLastAction :: "TurnManager \<Rightarrow> TurnAction option" where
  "getLastAction tm = (if actionHistory tm = [] then None else Some (last (actionHistory tm)))"

definition enableMultipleActions :: "TurnManager \<Rightarrow> TurnManager" where
  "enableMultipleActions tm = tm\<lparr>allowMultipleActions := True\<rparr>"

definition disableMultipleActions :: "TurnManager \<Rightarrow> TurnManager" where
  "disableMultipleActions tm = tm\<lparr>allowMultipleActions := False\<rparr>"

definition canPlayAgain :: "TurnManager \<Rightarrow> bool" where
  "canPlayAgain tm \<longleftrightarrow> allowMultipleActions tm"

definition queueSkip :: "string \<Rightarrow> TurnManager \<Rightarrow> TurnManager" where
  "queueSkip pid tm = tm\<lparr>skippedPlayers := skippedPlayers tm @ [pid]\<rparr>"

definition isPlayerSkipped :: "string \<Rightarrow> TurnManager \<Rightarrow> bool" where
  "isPlayerSkipped pid tm \<longleftrightarrow> pid \<in> set (skippedPlayers tm)"

definition advanceToNextActivePlayer :: "GameState \<Rightarrow> GameState" where
  "advanceToNextActivePlayer gs = advanceTurn gs"

definition getRemainingTime :: "int \<Rightarrow> TurnManager \<Rightarrow> GameState \<Rightarrow> int" where
  "getRemainingTime now tm gs =
     (let limit = turnTimeSeconds (config gs)
      in if limit \<le> 0 then 9999
         else let remaining = limit - to_int32 (elapsed_seconds now (turnStartTime tm))
              in if remaining > 0 then remaining else 0)"

definition hasTurnExpired :: "int \<Rightarrow> TurnManager \<Rightarrow> GameState \<Rightarrow> bool" where
  "hasTurnExpired now tm gs \<longleftrightarrow> getRemainingTime now tm gs \<le> 0"

definition resetTimer :: "int \<Rightarrow> TurnManager \<Rightarrow> TurnManager" where
  "resetTimer now tm = tm\<lparr>turnStartTime := now\<rparr>"

lemmas turn_defs [whot_defs] = clearSkips_def startTurn_def enableMultipleActions_def
  disableMultipleActions_def canPlayAgain_def queueSkip_def resetTimer_def

section \<open>The history\<close>

lemma trim_history_drop: "trim_history as = drop (length as - 100) as"
proof (induction as)
  case (Cons a as)
  show ?case
  proof (cases "length as > 99")
    case True
    then have "length (a # as) - 100 = Suc (length as - 100)" by simp
    then show ?thesis using Cons True by simp
  qed simp
qed simp

lemma history_loop_take: "history_loop out q n = out @ take (n - length out) q"
proof (induction q arbitrary: out)
  case (Cons a q)
  show ?case
  proof (cases "length out < n")
    case True
    then have "n - length out = Suc (n - Suc (length out))" by simp
    then show ?thesis using True Cons.IH [of "out @ [a]"] by simp
  qed simp
qed simp

lemma getTurnHistory_take: "getTurnHistory n tm = take (to_size_t n) (actionHistory tm)"
  by (simp add: getTurnHistory_def history_loop_take)

lemma recordAction_history:
  "actionHistory (recordAction a tm) =
     drop (length (actionHistory tm) - 99) (actionHistory tm) @ [a]"
proof -
  have "trim_history (h @ [a]) = drop (length h - 99) h @ [a]" for h :: "TurnAction list"
    by (simp add: trim_history_drop)
  then show ?thesis by (simp add: recordAction_def)
qed

definition history_ok :: "TurnManager \<Rightarrow> bool" where
  "history_ok tm \<longleftrightarrow> length (actionHistory tm) \<le> 100"

interpretation history: event_invariant "\<lambda>tm a. recordAction a tm" history_ok
  by unfold_locales (simp add: history_ok_def recordAction_history)

end
