(* ===== verification/Whot_Score.thy ===== *)
theory Whot_Score
  imports Whot_Player
begin

text \<open>
  \<open>Game/ScoreCalculator\<close>: pure functions over the players (the pointers the code collects are
  never null).  A \<open>std::map\<close> filled key by key is a HOL map: a later equal key overwrites.
\<close>

record RoundScores =
  playerScores :: "string \<Rightarrow> int option"
  rs_winnerId :: string
  eliminatedPlayerIds :: "string list"

record GameScores =
  gs_cumulativeScores :: "string \<Rightarrow> int option"
  gs_gamesWon :: "string \<Rightarrow> int option"
  overallWinnerId :: string

definition calculateHandScore :: "Hand \<Rightarrow> int" where
  "calculateHandScore h = calculateTotalScore h"

text \<open>\<open>std::numeric_limits<int>::max()\<close>\<close>

definition INT_MAX :: int where "INT_MAX = 2147483647"

fun min_score_loop :: "int \<Rightarrow> string \<Rightarrow> Player list \<Rightarrow> string" where
  "min_score_loop minScore pid [] = pid"
| "min_score_loop minScore pid (p # ps) =
     (if currentScore p < minScore then min_score_loop (currentScore p) (player_id p) ps
      else min_score_loop minScore pid ps)"

definition determineRoundWinner :: "Player list \<Rightarrow> string" where
  "determineRoundWinner ps =
     (case find_index (\<lambda>p. hand_isEmpty (player_hand p)) ps of
        Some i \<Rightarrow> player_id (ps ! i)
      | None \<Rightarrow> min_score_loop INT_MAX '''' ps)"

fun max_won_loop :: "int \<Rightarrow> string \<Rightarrow> Player list \<Rightarrow> string" where
  "max_won_loop maxWon pid [] = pid"
| "max_won_loop maxWon pid (p # ps) =
     (if gamesWon p > maxWon then max_won_loop (gamesWon p) (player_id p) ps
      else max_won_loop maxWon pid ps)"

definition determineGameWinner :: "Player list \<Rightarrow> string" where
  "determineGameWinner ps = max_won_loop (- 1) '''' ps"

definition score_map :: "(Player \<Rightarrow> int) \<Rightarrow> Player list \<Rightarrow> string \<Rightarrow> int option" where
  "score_map f ps = fold (\<lambda>p m. m(player_id p \<mapsto> f p)) ps Map.empty"

definition calculateRoundScores :: "Player list \<Rightarrow> RoundScores" where
  "calculateRoundScores ps =
     \<lparr>playerScores = score_map currentScore ps, rs_winnerId = determineRoundWinner ps,
      eliminatedPlayerIds = []\<rparr>"

definition calculateGameScores :: "Player list \<Rightarrow> GameScores" where
  "calculateGameScores ps =
     \<lparr>gs_cumulativeScores = score_map cumulativeScore ps, gs_gamesWon = score_map gamesWon ps,
      overallWinnerId = determineGameWinner ps\<rparr>"

definition checkEliminatedPlayers :: "Player list \<Rightarrow> int \<Rightarrow> string list" where
  "checkEliminatedPlayers ps threshold =
     map player_id (filter (\<lambda>p. cumulativeScore p \<ge> threshold) ps)"

section \<open>The loops as scans\<close>

lemma min_score_loop_scan:
  "pid = player_id b \<Longrightarrow> min_score_loop m pid ps = player_id (scan_min currentScore m b ps)"
  by (induction ps arbitrary: m pid b) auto

lemma max_won_loop_scan:
  "pid = player_id b \<Longrightarrow> max_won_loop m pid ps = player_id (scan_max gamesWon m b ps)"
  by (induction ps arbitrary: m pid b) auto

lemma scan_start: "xs \<noteq> [] \<Longrightarrow> \<forall>x \<in> set xs. m < f x \<Longrightarrow> scan_max f m b xs = scan_max f m b' xs"
  by (cases xs) simp_all

text \<open>The winner of a nonempty list of players is one of them and nobody has won more games.\<close>

lemma max_won_loop_spec:
  assumes "ps \<noteq> []" "\<forall>p \<in> set ps. 0 \<le> gamesWon p"
  shows "\<exists>p \<in> set ps. determineGameWinner ps = player_id p \<and> (\<forall>q \<in> set ps. gamesWon q \<le> gamesWon p)"
proof -
  let ?b = "(hd ps)\<lparr>player_id := ''''\<rparr>"
  let ?w = "scan_max gamesWon (- 1) ?b ps"
  have gt: "\<forall>p \<in> set ps. - 1 < gamesWon p" using assms(2) by force
  have "determineGameWinner ps = player_id ?w"
    by (simp add: determineGameWinner_def max_won_loop_scan)
  moreover have "?w \<in> set ps" using scan_max_in [OF assms(1) gt] .
  moreover have "\<forall>q \<in> set ps. gamesWon q \<le> gamesWon ?w"
    using scan_max_greatest [OF assms(1) gt] by blast
  ultimately show ?thesis by blast
qed

lemma min_score_loop_spec:
  assumes "ps \<noteq> []" "\<forall>p \<in> set ps. currentScore p < INT_MAX"
  shows "\<exists>p \<in> set ps. min_score_loop INT_MAX '''' ps = player_id p \<and>
           (\<forall>q \<in> set ps. currentScore p \<le> currentScore q)"
proof -
  let ?b = "(hd ps)\<lparr>player_id := ''''\<rparr>"
  let ?f = "\<lambda>p. - currentScore p"
  let ?w = "scan_max ?f (- INT_MAX) ?b ps"
  have gt: "\<forall>p \<in> set ps. - INT_MAX < ?f p" using assms(2) by force
  have "min_score_loop INT_MAX '''' ps = player_id ?w"
    by (simp add: min_score_loop_scan [of _ ?b] scan_min_scan_max)
  moreover have "?w \<in> set ps" using scan_max_in [OF assms(1) gt] .
  moreover have "\<forall>q \<in> set ps. currentScore ?w \<le> currentScore q"
    using scan_max_greatest [OF assms(1) gt] by fastforce
  ultimately show ?thesis by blast
qed

lemma score_map_other: "pid \<notin> player_id ` set ps \<Longrightarrow>
    fold (\<lambda>p m. m(player_id p \<mapsto> f p)) ps m pid = m pid"
  by (induction ps arbitrary: m) auto

lemma score_map_get:
  "distinct (map player_id ps) \<Longrightarrow> p \<in> set ps \<Longrightarrow> score_map f ps (player_id p) = Some (f p)"
proof -
  have "distinct (map player_id ps) \<Longrightarrow> p \<in> set ps \<Longrightarrow>
      fold (\<lambda>p m. m(player_id p \<mapsto> f p)) ps m (player_id p) = Some (f p)" for m
    by (induction ps arbitrary: m) (auto simp: score_map_other)
  then show "distinct (map player_id ps) \<Longrightarrow> p \<in> set ps \<Longrightarrow> score_map f ps (player_id p) = Some (f p)"
    by (simp add: score_map_def)
qed

lemma calculateHandScore_sum: "calculateHandScore h = sum_list (map getScoreValue (hand_cards h))"
  by (simp add: calculateHandScore_def calculateTotalScore_sum)

end
