(* ===== verification/Whot_StateJson.thy ===== *)
theory Whot_StateJson
  imports Whot_State
begin

text \<open>
  The three serialisations of \<open>Game/GameState\<close>: \<open>toJson\<close> (everything), \<open>toJsonForPlayer\<close> (the
  hands of the others replaced by their sizes) and \<open>fromJson\<close>.  Members that are written only
  when they hold a value are lists of at most one member here.
\<close>

fun phase_int :: "GamePhase \<Rightarrow> int" where
  "phase_int LOBBY = 0"
| "phase_int STARTING = 1"
| "phase_int IN_PROGRESS = 2"
| "phase_int ROUND_ENDED = 3"
| "phase_int GAME_ENDED = 4"
| "phase_int (GamePhase_raw n) = n"

definition cast_GamePhase :: "int \<Rightarrow> GamePhase" where
  "cast_GamePhase n =
     (let m = n mod 256
      in if m = 0 then LOBBY else if m = 1 then STARTING else if m = 2 then IN_PROGRESS
         else if m = 3 then ROUND_ENDED else if m = 4 then GAME_ENDED else GamePhase_raw m)"

definition direction_string :: "PlayDirection \<Rightarrow> string" where
  "direction_string d = (if d = CLOCKWISE then ''clockwise'' else ''counter_clockwise'')"

definition opt_member :: "string \<Rightarrow> ('a \<Rightarrow> json) \<Rightarrow> 'a option \<Rightarrow> (string \<times> json) list" where
  "opt_member k f x = (case x of Some v \<Rightarrow> [(k, f v)] | None \<Rightarrow> [])"

text \<open>\<open>j[key] = v\<close> on an object: the member is replaced, or added when it is new.\<close>

fun members_put :: "string \<Rightarrow> json \<Rightarrow> (string \<times> json) list \<Rightarrow> (string \<times> json) list" where
  "members_put k v [] = [(k, v)]"
| "members_put k v ((k', w) # ms) = (if k' = k then (k, v) # ms else (k', w) # members_put k v ms)"

fun json_put :: "string \<Rightarrow> json \<Rightarrow> json \<Rightarrow> json" where
  "json_put k v (JObject ms) = JObject (members_put k v ms)"
| "json_put k v j = JObject [(k, v)]"

text \<open>The object both writers build; they differ in the \<open>players\<close> array.\<close>

definition state_json_with :: "json list \<Rightarrow> GameState \<Rightarrow> json" where
  "state_json_with ps gs =
     JObject
      ([(''gameId'', JString (gameId gs)),
        (''gameCode'', JString (gameCode gs)),
        (''creatorPlayerId'', JString (creatorPlayerId gs)),
        (''phase'', JInt (phase_int (phase gs))),
        (''currentPlayerIndex'', JInt (currentPlayerIndex gs)),
        (''direction'', JString (direction_string (direction gs))),
        (''activePickCount'', JInt (activePickCount gs))]
       @ opt_member ''demandedSuit'' (\<lambda>s. JString (suitToString s)) (demandedSuit gs)
       @ [(''players'', JArray ps)]
       @ opt_member ''callCard'' card_toJson (callCard gs)
       @ [(''deckSize'', JInt (int (deck_size (deck gs)))),
          (''discardPileSize'', JInt (int (length (discardPile gs))))]
       @ opt_member ''winnerId'' JString (getWinnerId gs))"

definition state_toJson :: "GameState \<Rightarrow> json" where
  "state_toJson gs = state_json_with (map player_toJson (players gs)) gs"

definition hidden_player_json :: "Player \<Rightarrow> json" where
  "hidden_player_json p =
     json_put ''hand'' (JObject [(''count'', JInt (int (hand_length (player_hand p))))]) (player_toJson p)"

definition state_toJsonForPlayer :: "string \<Rightarrow> GameState \<Rightarrow> json" where
  "state_toJsonForPlayer viewer gs =
     state_json_with
       (map (\<lambda>p. if player_id p = viewer then player_toJson p else hidden_player_json p) (players gs)) gs"

text \<open>
  \<open>fromJson\<close> constructs a state (a fresh id, a full shuffled deck, an empty discard pile) and
  overwrites what it finds.  \<open>gid\<close>, \<open>now\<close>, \<open>seed\<close> are what the constructor reads from the
  outside; the generated id is overwritten.
\<close>

definition config_fromJson :: "json \<Rightarrow> GameConfig option" where
  "config_fromJson j =
     do { mn \<leftarrow> json_value get_int j ''minPlayers'' 2;
          mx \<leftarrow> json_value get_int j ''maxPlayers'' 8;
          st \<leftarrow> json_value get_int j ''startingCards'' 6;
          el \<leftarrow> json_value get_int j ''eliminationScore'' 100;
          Some (default_config\<lparr>minPlayers := mn, maxPlayers := mx, startingCards := st,
                               eliminationScore := el\<rparr>) }"

definition json_players :: "int \<Rightarrow> json \<Rightarrow> Player list option" where
  "json_players now j =
     (case json_find j ''players'' of
        Some pj \<Rightarrow> if json_is_array pj then traverse (player_fromJson now) (json_items pj) else Some []
      | None \<Rightarrow> Some [])"

definition json_demanded :: "json \<Rightarrow> Suit option option" where
  "json_demanded j =
     (case json_find j ''demandedSuit'' of
        None \<Rightarrow> Some None
      | Some v \<Rightarrow> map_option (\<lambda>s. Some (stringToSuit s)) (get_string v))"

definition json_callCard :: "json \<Rightarrow> Card option option" where
  "json_callCard j =
     (case json_find j ''callCard'' of
        None \<Rightarrow> Some None
      | Some v \<Rightarrow> if v = JNull then Some None else map_option Some (card_fromJson v))"

definition state_fromJson :: "string \<Rightarrow> int \<Rightarrow> rng \<Rightarrow> json \<Rightarrow> GameState option" where
  "state_fromJson gid now seed j =
     do { cfg \<leftarrow> config_fromJson j;
          let gs = state_new cfg gid now seed;
          i \<leftarrow> json_value get_string j ''gameId'' '''';
          code \<leftarrow> json_value get_string j ''gameCode'' '''';
          creator \<leftarrow> json_value get_string j ''creatorPlayerId'' '''';
          ph \<leftarrow> json_value get_int j ''phase'' 0;
          cur \<leftarrow> json_value get_int j ''currentPlayerIndex'' 0;
          dir \<leftarrow> json_value get_string j ''direction'' ''clockwise'';
          picks \<leftarrow> json_value get_int j ''activePickCount'' 0;
          dem \<leftarrow> json_demanded j;
          ps \<leftarrow> json_players now j;
          call \<leftarrow> json_callCard j;
          Some (gs\<lparr>gameId := i, gameCode := code, creatorPlayerId := creator,
                   phase := cast_GamePhase ph, currentPlayerIndex := cur,
                   direction := (if dir = ''clockwise'' then CLOCKWISE else COUNTER_CLOCKWISE),
                   activePickCount := picks, demandedSuit := dem, players := ps,
                   callCard := call\<rparr>) }"

section \<open>Looking up a member of the written object\<close>

lemma map_of_opt_member [simp]:
  "map_of (opt_member k f x) k' = (if k = k' then map_option f x else None)"
  by (simp add: opt_member_def split: option.split)

lemma cast_phase_int [simp]: "cast_GamePhase (phase_int (cast_GamePhase n)) = cast_GamePhase n"
  by (simp add: cast_GamePhase_def Let_def)

lemma direction_string_clockwise [simp]: "direction_string d = ''clockwise'' \<longleftrightarrow> d = CLOCKWISE"
  by (simp add: direction_string_def)

lemma json_find_put [simp]:
  "json_find (json_put k v (JObject ms)) k' = (if k = k' then Some v else json_find (JObject ms) k')"
proof -
  have "map_of (members_put k v ms) k' = (if k = k' then Some v else map_of ms k')"
    by (induction k v ms rule: members_put.induct) auto
  then show ?thesis by simp
qed

text \<open>What a reader of a written state sees, member by member.\<close>

lemma state_json_value:
  "json_value get (state_json_with ps gs) k d =
     (case json_find (state_json_with ps gs) k of None \<Rightarrow> Some d | Some v \<Rightarrow> get v)"
  by (simp add: state_json_with_def)

lemma map_add_opt: "(m ++ map_of (opt_member k f x)) k' =
    (if k = k' \<and> x \<noteq> None then map_option f x else m k')"
  by (cases x) (simp_all add: map_add_def opt_member_def)

lemma state_json_find:
  "json_find (state_json_with ps gs) ''gameId'' = Some (JString (gameId gs))"
  "json_find (state_json_with ps gs) ''gameCode'' = Some (JString (gameCode gs))"
  "json_find (state_json_with ps gs) ''creatorPlayerId'' = Some (JString (creatorPlayerId gs))"
  "json_find (state_json_with ps gs) ''phase'' = Some (JInt (phase_int (phase gs)))"
  "json_find (state_json_with ps gs) ''currentPlayerIndex'' = Some (JInt (currentPlayerIndex gs))"
  "json_find (state_json_with ps gs) ''direction'' = Some (JString (direction_string (direction gs)))"
  "json_find (state_json_with ps gs) ''activePickCount'' = Some (JInt (activePickCount gs))"
  by (simp_all add: state_json_with_def)

lemma state_json_find_opt:
  "json_find (state_json_with ps gs) ''demandedSuit'' =
     map_option (\<lambda>s. JString (suitToString s)) (demandedSuit gs)"
  "json_find (state_json_with ps gs) ''players'' = Some (JArray ps)"
  "json_find (state_json_with ps gs) ''callCard'' = map_option card_toJson (callCard gs)"
  "json_find (state_json_with ps gs) ''winnerId'' = map_option JString (getWinnerId gs)"
  by (simp_all add: state_json_with_def map_add_opt map_add_def split: option.split)

lemma state_json_find_config:
  "json_find (state_json_with ps gs) ''minPlayers'' = None"
  "json_find (state_json_with ps gs) ''maxPlayers'' = None"
  "json_find (state_json_with ps gs) ''startingCards'' = None"
  "json_find (state_json_with ps gs) ''eliminationScore'' = None"
  by (simp_all add: state_json_with_def map_add_opt map_add_def split: option.split)

section \<open>Round trip\<close>

definition state_wf :: "GameState \<Rightarrow> bool" where
  "state_wf gs \<longleftrightarrow> cast_GamePhase (phase_int (phase gs)) = phase gs \<and> int32 (phase_int (phase gs)) \<and>
     int32 (currentPlayerIndex gs) \<and> int32 (activePickCount gs) \<and>
     (\<forall>p \<in> set (players gs). player_wf p)"

lemma json_players_written:
  assumes "\<forall>p \<in> set (players gs). player_wf p"
  shows "json_players now (state_toJson gs) =
     Some (map (\<lambda>p. p\<lparr>lastActionTime := now\<rparr>) (players gs))"
proof -
  have "traverse (player_fromJson now) (map player_toJson (players gs)) =
      Some (map (\<lambda>p. p\<lparr>lastActionTime := now\<rparr>) (players gs))"
    by (rule traverse_map) (use assms player_fromJson_toJson in blast)
  then show ?thesis
    by (simp add: json_players_def state_toJson_def state_json_find_opt)
qed

lemma json_callCard_written: "json_callCard (state_json_with ps gs) = Some (callCard gs)"
  by (cases "callCard gs")
    (simp_all add: json_callCard_def state_json_find_opt, simp add: card_toJson_def)

lemma json_demanded_written: "json_demanded (state_json_with ps gs) = Some (demandedSuit gs)"
  by (cases "demandedSuit gs") (simp_all add: json_demanded_def state_json_find_opt)

lemma config_written: "config_fromJson (state_json_with ps gs) = Some default_config"
  by (simp add: config_fromJson_def state_json_value state_json_find_config default_config_def)


section \<open>Reading a written state\<close>

text \<open>The state that \<open>fromJson\<close> makes of a written one.\<close>

definition restored :: "int \<Rightarrow> rng \<Rightarrow> GameState \<Rightarrow> GameState" where
  "restored now seed gs =
     gs\<lparr>config := default_config, deck := deck_new seed, discardPile := [], createdAt := now,
        players := map (\<lambda>p. p\<lparr>lastActionTime := now\<rparr>) (players gs)\<rparr>"

lemma state_fromJson_toJson:
  assumes "state_wf gs"
  shows "state_fromJson gid now seed (state_toJson gs) = Some (restored now seed gs)"
proof -
  have ps: "json_players now (state_toJson gs) = Some (map (\<lambda>p. p\<lparr>lastActionTime := now\<rparr>) (players gs))"
    using assms by (intro json_players_written) (simp add: state_wf_def)
  have dir: "(if direction_string (direction gs) = ''clockwise'' then CLOCKWISE else COUNTER_CLOCKWISE) = direction gs"
    by (cases "direction gs") simp_all
  show ?thesis
    using ps assms dir unfolding state_fromJson_def state_toJson_def restored_def
    by (simp add: config_written json_callCard_written json_demanded_written state_json_value
        state_json_find state_wf_def state_new_def)
qed

lemma restored_fields [simp]:
  "gameId (restored now seed gs) = gameId gs" "phase (restored now seed gs) = phase gs"
  "length (players (restored now seed gs)) = length (players gs)"
  by (simp_all add: restored_def)

text \<open>The members every written state has, whatever it is.\<close>

lemma written_members:
  "json_find (state_toJson gs) ''gameId'' = Some (JString (gameId gs))"
  "json_value get_string (state_toJson gs) ''phase'' d = None"
  by (simp_all add: state_toJson_def state_json_with_def)

end
