(* ===== verification/Whot_Engine.thy ===== *)
theory Whot_Engine
  imports Whot_RuleEngine Whot_Turn Whot_Score Whot_StateJson
begin

text \<open>
  \<open>Game/GameEngine\<close>: one game's rules of play.  The engine owns the state, the turn manager and
  the rules; the application only builds it with a state, so the branches for a null state are
  not modelled.  A registered callback is a number; calling the callbacks appends to
  \<open>eng_calls\<close> which callback was called with which event, in the order of the calls.  Events
  carry the JSON tree of the state.

  A null pointer that the code dereferences is the value \<open>None\<close> of the operation.
\<close>

record GameEngine =
  eng_state :: GameState
  eng_turn :: TurnManager
  eng_rules :: NigerianRules
  eng_callbacks :: "string \<Rightarrow> nat list option"
  eng_calls :: "(nat \<times> string \<times> json) list"

definition engine_new :: "int \<Rightarrow> GameState \<Rightarrow> GameEngine" where
  "engine_new now gs = \<lparr>eng_state = gs, eng_turn = turn_new now, eng_rules = rules_new,
     eng_callbacks = Map.empty, eng_calls = []\<rparr>"

abbreviation on_state :: "(GameState \<Rightarrow> GameState) \<Rightarrow> GameEngine \<Rightarrow> GameEngine" where
  "on_state f eng \<equiv> eng\<lparr>eng_state := f (eng_state eng)\<rparr>"

abbreviation on_turn :: "(TurnManager \<Rightarrow> TurnManager) \<Rightarrow> GameEngine \<Rightarrow> GameEngine" where
  "on_turn f eng \<equiv> eng\<lparr>eng_turn := f (eng_turn eng)\<rparr>"

section \<open>Events\<close>

definition registerEventCallback :: "string \<Rightarrow> nat \<Rightarrow> GameEngine \<Rightarrow> GameEngine" where
  "registerEventCallback ty cb eng =
     eng\<lparr>eng_callbacks := (eng_callbacks eng)
       (ty \<mapsto> (case eng_callbacks eng ty of None \<Rightarrow> [] | Some cbs \<Rightarrow> cbs) @ [cb])\<rparr>"

definition unregisterEventCallback :: "string \<Rightarrow> GameEngine \<Rightarrow> GameEngine" where
  "unregisterEventCallback ty eng = eng\<lparr>eng_callbacks := (eng_callbacks eng)(ty := None)\<rparr>"

definition calls_for :: "string \<Rightarrow> string \<Rightarrow> json \<Rightarrow> GameEngine \<Rightarrow> (nat \<times> string \<times> json) list" where
  "calls_for key ty data eng =
     (case eng_callbacks eng key of None \<Rightarrow> [] | Some cbs \<Rightarrow> map (\<lambda>cb. (cb, ty, data)) cbs)"

definition emitEvent :: "string \<Rightarrow> json \<Rightarrow> GameEngine \<Rightarrow> GameEngine" where
  "emitEvent ty data eng =
     eng\<lparr>eng_calls := eng_calls eng @ calls_for ty ty data eng @ calls_for ''*'' ty data eng\<rparr>"

definition end_turn :: "GameEngine \<Rightarrow> GameEngine" where
  "end_turn eng = (let (tm, gs) = endTurn (eng_turn eng) (eng_state eng)
                   in eng\<lparr>eng_turn := tm, eng_state := gs\<rparr>)"

section \<open>Starting\<close>

definition engine_startGame :: "GameEngine \<Rightarrow> GameEngine" where
  "engine_startGame eng = on_state (\<lambda>gs. setPhase STARTING (state_initialize gs)) eng"

text \<open>The body of the dealing loop and of the market loop: reshuffle if needed, draw, add.\<close>

definition give_card :: "Card \<Rightarrow> Player \<Rightarrow> Player" where
  "give_card c p = p\<lparr>player_hand := hand_addCard (Some c) (player_hand p)\<rparr>"

definition draw_for :: "nat \<Rightarrow> GameState \<Rightarrow> GameState" where
  "draw_for i gs =
     (let gs1 = (if deck_isEmpty (deck gs) \<and> needsReshuffle gs then reshuffleDiscardPile gs else gs);
          (co, d) = deck_draw (deck gs1);
          gs2 = gs1\<lparr>deck := d\<rparr>
      in case co of Some c \<Rightarrow> modify_player i (give_card c) gs2 | None \<Rightarrow> gs2)"

definition deal_round :: "GameState \<Rightarrow> GameState" where
  "deal_round gs = fold draw_for (getActivePlayers gs) gs"

definition flip_call_card :: "GameState \<Rightarrow> GameState" where
  "flip_call_card gs =
     (if deck_isEmpty (deck gs) then gs
      else let (co, d) = deck_draw (deck gs); gs1 = gs\<lparr>deck := d\<rparr>
           in case co of Some c \<Rightarrow> setCallCard (Some c) gs1 | None \<Rightarrow> gs1)"

definition dealt_state :: "GameState \<Rightarrow> GameState" where
  "dealt_state gs =
     flip_call_card ((deal_round ^^ nat (startingCards (config gs))) (state_startRound gs))"

definition startNewRound :: "int \<Rightarrow> GameEngine \<Rightarrow> GameEngine" where
  "startNewRound now eng =
     (let eng1 = on_turn (startTurn now) (on_state dealt_state eng)
      in emitEvent ''round_started'' (state_toJson (eng_state eng1)) eng1)"

definition engine_endGame :: "GameEngine \<Rightarrow> GameEngine" where
  "engine_endGame eng =
     (let eng1 = on_state state_endGame eng
      in emitEvent ''game_ended'' (state_toJson (eng_state eng1)) eng1)"

section \<open>Validation\<close>

definition validateCardPlay :: "GameEngine \<Rightarrow> Player \<Rightarrow> Card \<Rightarrow> bool" where
  "validateCardPlay eng p c =
     (case callCard (eng_state eng) of
        None \<Rightarrow> False
      | Some call \<Rightarrow> re_canPlayCard (eng_rules eng) (eng_state eng) p c)"

definition validateTurnTiming :: "int \<Rightarrow> GameEngine \<Rightarrow> Player option \<Rightarrow> bool" where
  "validateTurnTiming now eng po =
     (case po of
        None \<Rightarrow> True
      | Some p \<Rightarrow>
          if \<not> re_enforceTurnTimer (eng_rules eng) then True
          else \<not> hasExceededTurnTime now p (re_getTurnTimeLimit (eng_rules eng)))"

definition isValidAction :: "GameEngine \<Rightarrow> GameAction \<Rightarrow> bool option" where
  "isValidAction eng a =
     (let gs = eng_state eng in
      if act_playerId a \<noteq> getCurrentPlayerId gs then Some False
      else case act_type a of
          PLAY_CARD \<Rightarrow>
            (case act_cardIndex a of
               None \<Rightarrow> Some False
             | Some idx \<Rightarrow>
                 (case getPlayer (act_playerId a) gs of
                    None \<Rightarrow> Some False
                  | Some i \<Rightarrow>
                      if idx \<ge> hand_length (hand_of gs i) then Some False
                      else (case hand_getCard (hand_of gs i) idx of
                              None \<Rightarrow> None
                            | Some c \<Rightarrow> Some (validateCardPlay eng (players gs ! i) c))))
        | DRAW_CARD \<Rightarrow>
            (case getCurrentPlayer gs of
               None \<Rightarrow> None
             | Some i \<Rightarrow> Some (re_mustDrawCard (eng_rules eng) gs (players gs ! i)))
        | DECLARE_LAST_CARD \<Rightarrow> Some True
        | DECLARE_CHECK_UP \<Rightarrow> Some True
        | CHOOSE_SUIT \<Rightarrow> Some (act_chosenSuit a \<noteq> None)
        | _ \<Rightarrow> Some False)"

definition getValidActionsForCurrentPlayer :: "GameEngine \<Rightarrow> ActionType list" where
  "getValidActionsForCurrentPlayer eng =
     (let gs = eng_state eng; ru = eng_rules eng in
      case getCurrentPlayer gs of
        None \<Rightarrow> []
      | Some i \<Rightarrow>
          let p = players gs ! i;
              canPlay = list_ex (re_canPlayCard ru gs p) (hand_cards (player_hand p))
          in (if canPlay then [PLAY_CARD] else [])
             @ (if re_mustDrawCard ru gs p then [DRAW_CARD] else [])
             @ (if re_requiresLastCardDeclaration p then [DECLARE_LAST_CARD] else [])
             @ (if re_requiresCheckUpDeclaration p then [DECLARE_CHECK_UP] else []))"

definition isGameActive :: "GameEngine \<Rightarrow> bool" where
  "isGameActive eng \<longleftrightarrow> phase (eng_state eng) = IN_PROGRESS"

definition getWinners :: "GameEngine \<Rightarrow> string list" where
  "getWinners eng = (case getWinnerId (eng_state eng) of Some w \<Rightarrow> [w] | None \<Rightarrow> [])"

section \<open>Special cards\<close>

definition market_players :: "nat \<Rightarrow> GameState \<Rightarrow> nat list" where
  "market_players i gs =
     filter (\<lambda>k. player_id (players gs ! k) \<noteq> player_id (players gs ! i)) (getActivePlayers gs)"

definition executeSpecialCard :: "Card \<Rightarrow> nat \<Rightarrow> GameEngine \<Rightarrow> GameEngine" where
  "executeSpecialCard c i eng =
     (if getSpecialAbility c = HOLD_ON
      then on_state skipNextPlayer (on_turn enableMultipleActions eng)
      else if getSpecialAbility c = PICK_TWO
      then on_state (\<lambda>gs. setActivePickCount (activePickCount gs + 2) gs) eng
      else if getValue c = FIVE
      then on_state (\<lambda>gs. setActivePickCount (activePickCount gs + 3) gs) eng
      else if getValue c = EIGHT
      then on_state skipNextPlayer eng
      else if getSpecialAbility c = GENERAL_MARKET
      then on_state (\<lambda>gs. fold draw_for (market_players i gs) gs) eng
      else if getSpecialAbility c = WHOT_CARD
      then on_state clearDemandedSuit eng
      else eng)"

section \<open>Handlers\<close>

definition res_fail :: "string \<Rightarrow> ActionResult" where
  "res_fail msg = \<lparr>res_success = False, res_message = msg, res_affectedPlayerIds = [],
                   res_newStateJson = None\<rparr>"

definition res_ok :: "string list \<Rightarrow> json \<Rightarrow> ActionResult" where
  "res_ok ids j = \<lparr>res_success = True, res_message = '''', res_affectedPlayerIds = ids,
                   res_newStateJson = Some j\<rparr>"

text \<open>The card leaves the hand, goes on the discard pile, and a copy becomes the call card.\<close>

definition take_from_hand :: "nat \<Rightarrow> Player \<Rightarrow> Player" where
  "take_from_hand idx p = p\<lparr>player_hand := snd (hand_playCard idx (player_hand p))\<rparr>"

definition put_card :: "nat \<Rightarrow> nat \<Rightarrow> Card \<Rightarrow> GameState \<Rightarrow> GameState" where
  "put_card i idx c gs =
     clearDemandedSuit (setCallCard (Some (Card (getSuit c) (getValue c)))
       (addToDiscardPile (Some c) (modify_player i (take_from_hand idx) gs)))"

definition score_player :: "Player \<Rightarrow> Player" where
  "score_player p = incrementGamesPlayed (addToScore (calculateHandScore (player_hand p)) p)"

definition credit_winner :: "GameState \<Rightarrow> GameState" where
  "credit_winner gs =
     (case getWinnerId gs of
        None \<Rightarrow> gs
      | Some wid \<Rightarrow>
          (case getPlayer wid gs of
             None \<Rightarrow> gs
           | Some w \<Rightarrow> modify_player w incrementGamesWon gs))"

definition score_round :: "GameState \<Rightarrow> GameState" where
  "score_round gs =
     (let gs1 = credit_winner gs
      in state_endRound (fold (\<lambda>k. modify_player k score_player) (getActivePlayers gs1) gs1))"

definition after_play :: "GameEngine \<Rightarrow> GameEngine" where
  "after_play eng =
     (if checkRoundEnd (eng_state eng)
      then let eng1 = on_state score_round eng
           in emitEvent ''round_ended'' (state_toJson (eng_state eng1)) eng1
      else if \<not> canPlayAgain (eng_turn eng) then end_turn eng
      else eng)"

definition handlePlayCard :: "GameAction \<Rightarrow> GameEngine \<Rightarrow> (ActionResult \<times> GameEngine) option" where
  "handlePlayCard a eng =
     (let gs = eng_state eng in
      case act_cardIndex a of
        None \<Rightarrow> Some (res_fail ''Invalid play'', eng)
      | Some idx \<Rightarrow>
      case getPlayer (act_playerId a) gs of
        None \<Rightarrow> Some (res_fail ''Player not found'', eng)
      | Some i \<Rightarrow>
      if idx \<ge> hand_length (hand_of gs i) then Some (res_fail ''Invalid card index'', eng)
      else case hand_getCard (hand_of gs i) idx of
        None \<Rightarrow> None
      | Some c \<Rightarrow>
      if \<not> validateCardPlay eng (players gs ! i) c then Some (res_fail ''Card cannot be played'', eng)
      else case fst (hand_playCard idx (hand_of gs i)) of
        None \<Rightarrow> Some (res_fail ''Failed to play card'', on_state (modify_player i (take_from_hand idx)) eng)
      | Some played \<Rightarrow>
          let eng1 = executeSpecialCard c i (on_state (put_card i idx played) eng);
              r = res_ok [act_playerId a] (state_toJson (eng_state eng1));
              eng2 = emitEvent ''card_played'' (state_toJson (eng_state eng1)) eng1
          in Some (r, after_play eng2))"

definition draw_cards :: "nat \<Rightarrow> nat \<Rightarrow> GameState \<Rightarrow> GameState" where
  "draw_cards i n gs =
     (let (cs, d) = draw_many deck_draw n (deck gs)
      in modify_player i (\<lambda>p. p\<lparr>player_hand := hand_addCards (map Some cs) (player_hand p)\<rparr>)
           (gs\<lparr>deck := d\<rparr>))"

definition penalty_draw :: "nat \<Rightarrow> int \<Rightarrow> GameState \<Rightarrow> GameState" where
  "penalty_draw i n gs =
     (let gs1 = (if needsReshuffle gs then reshuffleDiscardPile gs else gs)
      in resetActivePickCount (draw_cards i (nat n) gs1))"

definition handleDrawCard :: "GameAction \<Rightarrow> GameEngine \<Rightarrow> ActionResult \<times> GameEngine" where
  "handleDrawCard a eng =
     (let gs = eng_state eng in
      case getPlayer (act_playerId a) gs of
        None \<Rightarrow> (res_fail '''', eng)
      | Some i \<Rightarrow>
          let n = re_calculateDrawCount (eng_rules eng) gs (players gs ! i);
              eng1 = on_state (penalty_draw i n) eng;
              j = state_toJson (eng_state eng1)
          in (res_ok [act_playerId a] j, emitEvent ''card_drawn'' j (end_turn eng1)))"

definition declare_flags :: "ActionType \<Rightarrow> Player \<Rightarrow> Player" where
  "declare_flags ty p =
     (let p1 = (if ty = DECLARE_LAST_CARD then p\<lparr>saidLastCard := True\<rparr> else p)
      in if ty = DECLARE_CHECK_UP then p1\<lparr>saidCheckUp := True\<rparr> else p1)"

definition handleDeclaration :: "GameAction \<Rightarrow> GameEngine \<Rightarrow> ActionResult \<times> GameEngine" where
  "handleDeclaration a eng =
     (let eng1 = (case getPlayer (act_playerId a) (eng_state eng) of
                    None \<Rightarrow> eng
                  | Some i \<Rightarrow> on_state (modify_player i (declare_flags (act_type a))) eng)
      in (res_ok [] (state_toJson (eng_state eng1)), eng1))"

definition handleSuitChoice :: "GameAction \<Rightarrow> GameEngine \<Rightarrow> ActionResult \<times> GameEngine" where
  "handleSuitChoice a eng =
     (case act_chosenSuit a of
        None \<Rightarrow> (res_fail '''', eng)
      | Some s \<Rightarrow>
          let eng1 = on_state (setDemandedSuit (Some s)) eng;
              eng2 = (if act_chosenDirection a \<noteq> None \<and> allowDirectionChange (config (eng_state eng1))
                      then on_state reverseDirection eng1 else eng1)
          in (res_ok [] (state_toJson (eng_state eng2)), eng2))"

definition processAction :: "GameAction \<Rightarrow> GameEngine \<Rightarrow> (ActionResult \<times> GameEngine) option" where
  "processAction a eng =
     (case isValidAction eng a of
        None \<Rightarrow> None
      | Some False \<Rightarrow> Some (res_fail ''Invalid action'', eng)
      | Some True \<Rightarrow>
          (case act_type a of
             PLAY_CARD \<Rightarrow> handlePlayCard a eng
           | DRAW_CARD \<Rightarrow> Some (handleDrawCard a eng)
           | DECLARE_LAST_CARD \<Rightarrow> Some (handleDeclaration a eng)
           | DECLARE_CHECK_UP \<Rightarrow> Some (handleDeclaration a eng)
           | CHOOSE_SUIT \<Rightarrow> Some (handleSuitChoice a eng)
           | _ \<Rightarrow> Some (res_fail ''Unhandled action'', eng)))"

end
