(* ===== verification/Whot_EngineFacts.thy ===== *)
theory Whot_EngineFacts
  imports Whot_Engine
begin

text \<open>
  Facts about the engine's building blocks: who is at the table (\<open>roster\<close>) and which cards are
  in the game (\<open>all_cards\<close>), how drawing, dealing and playing change them, and what they leave
  alone.
\<close>

section \<open>The roster and the cards in the game\<close>

definition roster :: "GameState \<Rightarrow> (string \<times> PlayerStatus) list" where
  "roster gs = map (\<lambda>p. (player_id p, player_status p)) (players gs)"

definition hands_mset :: "GameState \<Rightarrow> Card multiset" where
  "hands_mset gs = sum_list (map (\<lambda>p. mset (hand_cards (player_hand p))) (players gs))"

definition all_cards :: "GameState \<Rightarrow> Card multiset" where
  "all_cards gs = mset (deck_cards (deck gs)) + mset (discardPile gs) + hands_mset gs"

lemma all_cards_update [simp]:
  "all_cards (gs\<lparr>activePickCount := x0\<rparr>) = all_cards gs"
  "all_cards (gs\<lparr>demandedSuit := x1\<rparr>) = all_cards gs"
  "all_cards (gs\<lparr>callCard := x2\<rparr>) = all_cards gs"
  "all_cards (gs\<lparr>currentPlayerIndex := x3\<rparr>) = all_cards gs"
  "all_cards (gs\<lparr>direction := x4\<rparr>) = all_cards gs"
  "all_cards (gs\<lparr>phase := x5\<rparr>) = all_cards gs"
  by (simp_all add: all_cards_def hands_mset_def)

lemma roster_update [simp]:
  "roster (gs\<lparr>activePickCount := x0\<rparr>) = roster gs"
  "roster (gs\<lparr>demandedSuit := x1\<rparr>) = roster gs"
  "roster (gs\<lparr>callCard := x2\<rparr>) = roster gs"
  "roster (gs\<lparr>currentPlayerIndex := x3\<rparr>) = roster gs"
  "roster (gs\<lparr>direction := x4\<rparr>) = roster gs"
  "roster (gs\<lparr>phase := x5\<rparr>) = roster gs"
  "roster (gs\<lparr>deck := x6\<rparr>) = roster gs"
  "roster (gs\<lparr>discardPile := x7\<rparr>) = roster gs"
  by (simp_all add: roster_def)

lemma advanceTurn_cards [simp]: "all_cards (advanceTurn gs) = all_cards gs" "roster (advanceTurn gs) = roster gs"
  by (simp_all add: advanceTurn_def)

lemma roster_length: "roster gs = roster gs' \<Longrightarrow> length (players gs) = length (players gs')"
  unfolding roster_def by (metis length_map)

lemma roster_nth:
  assumes "roster gs = roster gs'" "i < length (players gs)"
  shows "player_id (players gs ! i) = player_id (players gs' ! i) \<and>
         player_status (players gs ! i) = player_status (players gs' ! i)"
proof -
  have "roster gs ! i = roster gs' ! i" using assms(1) by simp
  then show ?thesis using assms roster_length [OF assms(1)] by (simp add: roster_def)
qed

lemma getActivePlayers_roster: "getActivePlayers gs = indices_where (\<lambda>r. snd r = ACTIVE) (roster gs)"
  by (auto simp: getActivePlayers_def indices_where_def roster_def intro!: filter_cong)

lemma getPlayer_roster: "getPlayer pid gs = find_index (\<lambda>r. fst r = pid) (roster gs)"
  by (simp add: getPlayer_def roster_def find_index_map)

lemma getWinnerId_roster:
  "getWinnerId gs = map_option (\<lambda>j. fst (roster gs ! j)) (find_index hand_isEmpty (map player_hand (players gs)))"
  by (cases "find_index (\<lambda>p. hand_isEmpty (player_hand p)) (players gs)")
    (auto simp: getWinnerId_def roster_def find_index_map simp del: find_index_None dest: find_index_lt)

lemma roster_active: "roster gs = roster gs' \<Longrightarrow> getActivePlayers gs = getActivePlayers gs'"
  by (simp add: getActivePlayers_roster)

lemma roster_getPlayer: "roster gs = roster gs' \<Longrightarrow> getPlayer pid gs = getPlayer pid gs'"
  by (simp add: getPlayer_roster)

lemma roster_modify [simp]:
  "(\<And>p. player_id (f p) = player_id p \<and> player_status (f p) = player_status p) \<Longrightarrow>
   roster (modify_player i f gs) = roster gs"
  by (simp add: roster_def modify_player_def map_update_same)

lemma hands_modify:
  "i < length (players gs) \<Longrightarrow>
   hands_mset (modify_player i f gs) + mset (hand_cards (hand_of gs i)) =
   hands_mset gs + mset (hand_cards (player_hand (f (players gs ! i))))"
  unfolding hands_mset_def modify_player_def
  using sum_list_update_nth [of i "players gs" "\<lambda>p. mset (hand_cards (player_hand p))"] by simp

lemma hands_modify_same:
  "(\<And>p. player_hand (f p) = player_hand p) \<Longrightarrow> hands_mset (modify_player i f gs) = hands_mset gs"
  by (simp add: hands_mset_def modify_player_def map_update_same)

lemma hands_cong: "players gs = players gs' \<Longrightarrow> hands_mset gs = hands_mset gs'"
  by (simp add: hands_mset_def)

lemma hand_in_hands: "i < length (players gs) \<Longrightarrow> mset (hand_cards (hand_of gs i)) \<subseteq># hands_mset gs"
proof -
  have "x \<in> set xs \<Longrightarrow> x \<subseteq># sum_list xs" for x :: "Card multiset" and xs
    by (induction xs) (auto intro: subset_mset.order_trans)
  then show "i < length (players gs) \<Longrightarrow> mset (hand_cards (hand_of gs i)) \<subseteq># hands_mset gs"
    by (simp add: hands_mset_def)
qed

section \<open>Reshuffling and drawing\<close>

definition reshuffle_loss :: "GameState \<Rightarrow> Card multiset" where
  "reshuffle_loss gs =
     (case callCard gs of None \<Rightarrow> {#} | Some c \<Rightarrow> filter_mset (\<lambda>x. x = c) (mset (discardPile gs)))"

lemma reshuffle_all_cards [whot_mset]:
  "all_cards (reshuffleDiscardPile gs) + reshuffle_loss gs = all_cards gs"
proof (cases "callCard gs")
  case None
  then show ?thesis by (simp add: reshuffleDiscardPile_def reshuffle_loss_def)
next
  case (Some c)
  have "filter_mset (\<lambda>x. x \<noteq> c) M + filter_mset (\<lambda>x. x = c) M = M" for M :: "Card multiset"
    using multiset_partition [of M "\<lambda>x. x \<noteq> c"] by simp
  then show ?thesis
    using Some
    by (simp add: reshuffleDiscardPile_def reshuffle_loss_def all_cards_def reshuffle_mset
        hands_mset_def ac_simps)
qed

lemma reshuffle_all_cards_le: "all_cards (reshuffleDiscardPile gs) \<subseteq># all_cards gs"
  by (metis reshuffle_all_cards mset_subset_eq_add_left)

lemma reshuffle_roster [simp]: "roster (reshuffleDiscardPile gs) = roster gs"
  by (simp add: roster_def)

lemma give_card_frame [simp]:
  "player_id (give_card c p) = player_id p" "player_status (give_card c p) = player_status p"
  "hand_cards (player_hand (give_card c p)) = hand_cards (player_hand p) @ [c]"
  by (simp_all add: give_card_def)

lemma draw_for_frame [simp, whot_frame]:
  "length (players (draw_for i gs)) = length (players gs)"
  "roster (draw_for i gs) = roster gs"
  "callCard (draw_for i gs) = callCard gs"
  "activePickCount (draw_for i gs) = activePickCount gs"
  "demandedSuit (draw_for i gs) = demandedSuit gs"
  "phase (draw_for i gs) = phase gs"
  "config (draw_for i gs) = config gs"
  "direction (draw_for i gs) = direction gs"
  "currentPlayerIndex (draw_for i gs) = currentPlayerIndex gs"
  by (simp_all add: draw_for_def Let_def split_beta split: option.split)

text \<open>The players after a draw: unchanged, or one of them has a card more.\<close>

lemma draw_for_shape:
  "players (draw_for i gs) = players gs \<or>
   (\<exists>c. players (draw_for i gs) = players (modify_player i (give_card c) gs))"
  by (simp add: draw_for_def Let_def split_beta modify_player_def split: option.split) blast

lemma draw_for_all_cards_le:
  assumes "i < length (players gs)"
  shows "all_cards (draw_for i gs) \<subseteq># all_cards gs"
proof -
  define gs1 where "gs1 = (if deck_isEmpty (deck gs) \<and> needsReshuffle gs then reshuffleDiscardPile gs else gs)"
  have le: "all_cards gs1 \<subseteq># all_cards gs" and len: "i < length (players gs1)"
    using assms by (simp_all add: gs1_def reshuffle_all_cards_le)
  obtain co d where cd: "deck_draw (deck gs1) = (co, d)" by (cases "deck_draw (deck gs1)")
  have unfold: "draw_for i gs = (case co of Some c \<Rightarrow> modify_player i (give_card c) (gs1\<lparr>deck := d\<rparr>)
      | None \<Rightarrow> gs1\<lparr>deck := d\<rparr>)"
    unfolding draw_for_def gs1_def [symmetric] by (simp add: cd Let_def)
  have "all_cards (draw_for i gs) = all_cards gs1"
  proof (cases co)
    case None
    then have "d = deck gs1" using cd by (simp add: deck_draw_def split: if_splits)
    then show ?thesis using unfold None by simp
  next
    case (Some c)
    have "hands_mset (modify_player i (give_card c) (gs1\<lparr>deck := d\<rparr>)) = add_mset c (hands_mset gs1)"
      using hands_modify [of i "gs1\<lparr>deck := d\<rparr>" "give_card c"] len
        hands_cong [of "gs1\<lparr>deck := d\<rparr>" gs1] by simp
    moreover have "add_mset c (mset (deck_cards d)) = mset (deck_cards (deck gs1))"
      using deck_draw_mset cd Some by blast
    ultimately show ?thesis using unfold Some by (simp add: all_cards_def)
  qed
  then show ?thesis using le by simp
qed

lemma fold_draw_for_frame [simp, whot_frame]:
  "length (players (fold draw_for ks gs)) = length (players gs)"
  "roster (fold draw_for ks gs) = roster gs"
  "callCard (fold draw_for ks gs) = callCard gs"
  "activePickCount (fold draw_for ks gs) = activePickCount gs"
  "demandedSuit (fold draw_for ks gs) = demandedSuit gs"
  "phase (fold draw_for ks gs) = phase gs"
  "config (fold draw_for ks gs) = config gs"
  "direction (fold draw_for ks gs) = direction gs"
  "currentPlayerIndex (fold draw_for ks gs) = currentPlayerIndex gs"
  by (induction ks arbitrary: gs) simp_all

lemma fold_draw_for_all_cards_le:
  assumes "\<forall>k \<in> set ks. k < length (players gs)"
  shows "all_cards (fold draw_for ks gs) \<subseteq># all_cards gs"
  using assms
proof (induction ks arbitrary: gs)
  case (Cons k ks)
  have "all_cards (fold draw_for ks (draw_for k gs)) \<subseteq># all_cards (draw_for k gs)"
    by (rule Cons.IH) (use Cons.prems in simp)
  moreover have "all_cards (draw_for k gs) \<subseteq># all_cards gs"
    by (rule draw_for_all_cards_le) (use Cons.prems in simp)
  ultimately show ?case by (simp add: subset_mset.order_trans)
qed simp

text \<open>Without a reshuffle (the deck is not empty) a draw gives exactly one card.\<close>

lemma draw_for_nonempty:
  assumes "deck_cards (deck gs) \<noteq> []"
  shows "draw_for i gs = modify_player i (give_card (last (deck_cards (deck gs))))
           (gs\<lparr>deck := (deck gs)\<lparr>deck_cards := butlast (deck_cards (deck gs))\<rparr>\<rparr>)"
  using assms by (simp add: draw_for_def deck_isEmpty_def deck_draw_def)

section \<open>Penalty draws\<close>

lemma draw_cards_frame [simp, whot_frame]:
  "length (players (draw_cards i n gs)) = length (players gs)"
  "roster (draw_cards i n gs) = roster gs"
  "callCard (draw_cards i n gs) = callCard gs"
  "demandedSuit (draw_cards i n gs) = demandedSuit gs"
  "discardPile (draw_cards i n gs) = discardPile gs"
  "phase (draw_cards i n gs) = phase gs"
  "config (draw_cards i n gs) = config gs"
  "direction (draw_cards i n gs) = direction gs"
  "currentPlayerIndex (draw_cards i n gs) = currentPlayerIndex gs"
  by (simp_all add: draw_cards_def split_beta)

lemma draw_cards_deck: "deck (draw_cards i n gs) = snd (draw_many deck_draw n (deck gs))"
  by (simp add: draw_cards_def split_beta)

lemma draw_cards_hand:
  "i < length (players gs) \<Longrightarrow>
   hand_cards (hand_of (draw_cards i n gs) i) =
     hand_cards (hand_of gs i) @ fst (draw_many deck_draw n (deck gs))"
  by (simp add: draw_cards_def split_beta players_modify_player hand_cards_addCards)

lemma draw_cards_others:
  "i < length (players gs) \<Longrightarrow> k \<noteq> i \<Longrightarrow> players (draw_cards i n gs) ! k = players gs ! k"
  by (simp add: draw_cards_def split_beta players_modify_player)

lemma draw_cards_all_cards:
  assumes "i < length (players gs)"
  shows "all_cards (draw_cards i n gs) = all_cards gs"
proof -
  obtain cs d where cd: "draw_many deck_draw n (deck gs) = (cs, d)"
    by (cases "draw_many deck_draw n (deck gs)")
  have m: "mset cs + mset (deck_cards d) = mset (deck_cards (deck gs))"
    using deck_src.draw_many_mset [of n "deck gs"] cd by simp
  have "hands_mset (draw_cards i n gs) = hands_mset gs + mset cs"
    using hands_modify [of i "gs\<lparr>deck := d\<rparr>"
        "\<lambda>p. p\<lparr>player_hand := hand_addCards (map Some cs) (player_hand p)\<rparr>"]
      assms hands_cong [of "gs\<lparr>deck := d\<rparr>" gs]
    by (simp add: draw_cards_def cd hand_cards_addCards)
  then show ?thesis
    using m by (simp add: all_cards_def draw_cards_deck cd) (metis add.assoc add.commute)
qed

lemma penalty_draw_frame [simp, whot_frame]:
  "length (players (penalty_draw i n gs)) = length (players gs)"
  "roster (penalty_draw i n gs) = roster gs"
  "callCard (penalty_draw i n gs) = callCard gs"
  "demandedSuit (penalty_draw i n gs) = demandedSuit gs"
  "phase (penalty_draw i n gs) = phase gs"
  "config (penalty_draw i n gs) = config gs"
  "direction (penalty_draw i n gs) = direction gs"
  "currentPlayerIndex (penalty_draw i n gs) = currentPlayerIndex gs"
  "activePickCount (penalty_draw i n gs) = 0"
  by (simp_all add: penalty_draw_def resetActivePickCount_def)

lemma penalty_draw_all_cards_le:
  "i < length (players gs) \<Longrightarrow> all_cards (penalty_draw i n gs) \<subseteq># all_cards gs"
  by (simp add: penalty_draw_def resetActivePickCount_def draw_cards_all_cards reshuffle_all_cards_le)

section \<open>Playing a card\<close>

lemma take_from_hand_frame [simp]:
  "player_id (take_from_hand idx p) = player_id p"
  "player_status (take_from_hand idx p) = player_status p"
  by (simp_all add: take_from_hand_def)

lemma put_card_frame [simp, whot_frame]:
  "length (players (put_card i idx c gs)) = length (players gs)"
  "roster (put_card i idx c gs) = roster gs"
  "deck (put_card i idx c gs) = deck gs"
  "callCard (put_card i idx c gs) = Some c"
  "demandedSuit (put_card i idx c gs) = None"
  "discardPile (put_card i idx c gs) = discardPile gs @ [c]"
  "activePickCount (put_card i idx c gs) = activePickCount gs"
  "phase (put_card i idx c gs) = phase gs"
  "config (put_card i idx c gs) = config gs"
  "direction (put_card i idx c gs) = direction gs"
  "currentPlayerIndex (put_card i idx c gs) = currentPlayerIndex gs"
  by (simp_all add: put_card_def addToDiscardPile_def state_defs roster_def modify_player_def map_update_same)

lemma put_card_players: "players (put_card i idx c gs) = players (modify_player i (take_from_hand idx) gs)"
  by (simp add: put_card_def addToDiscardPile_def state_defs)

lemma put_card_all_cards:
  assumes "i < length (players gs)" "idx < length (hand_cards (hand_of gs i))"
  shows "all_cards (put_card i idx (hand_cards (hand_of gs i) ! idx) gs) = all_cards gs"
proof -
  let ?c = "hand_cards (hand_of gs i) ! idx"
  have "hands_mset (modify_player i (take_from_hand idx) gs) + mset (hand_cards (hand_of gs i)) =
      hands_mset gs + mset (hand_cards (snd (hand_playCard idx (hand_of gs i))))"
    using hands_modify [OF assms(1), of "take_from_hand idx"] by (simp add: take_from_hand_def)
  moreover have "mset (hand_cards (hand_of gs i)) =
      add_mset ?c (mset (hand_cards (snd (hand_playCard idx (hand_of gs i)))))"
    using hand_playCard_mset [OF assms(2)] by simp
  ultimately have "add_mset ?c (hands_mset (modify_player i (take_from_hand idx) gs)) = hands_mset gs"
    by (simp del: hand_playCard_mset)
  then show ?thesis
    using hands_cong [OF put_card_players [of i idx ?c gs]] by (simp add: all_cards_def ac_simps)
qed

end
