(* ===== verification/Whot_EngineInv.thy ===== *)
theory Whot_EngineInv
  imports Whot_EngineFacts
begin

text \<open>
  What one action does, case by case (\<open>processAction_cases\<close>), and the invariants of a game:
  the players at the table, a current player, well-formed hands, and no card that was not there
  before.  Each invariant is an interpretation of \<open>event_invariant\<close>, so it holds after every
  sequence of actions.
\<close>

section \<open>Frames of the engine's operations\<close>

lemma emitEvent_frame [simp, whot_frame]:
  "eng_state (emitEvent ty data eng) = eng_state eng"
  "eng_turn (emitEvent ty data eng) = eng_turn eng"
  "eng_rules (emitEvent ty data eng) = eng_rules eng"
  "eng_callbacks (emitEvent ty data eng) = eng_callbacks eng"
  by (simp_all add: emitEvent_def)

lemma end_turn_frame [simp, whot_frame]:
  "eng_state (end_turn eng) = advanceTurn (eng_state eng)"
  "eng_turn (end_turn eng) = (eng_turn eng)\<lparr>allowMultipleActions := False\<rparr>"
  "eng_rules (end_turn eng) = eng_rules eng"
  "eng_callbacks (end_turn eng) = eng_callbacks eng"
  by (simp_all add: end_turn_def endTurn_def)

definition special_state :: "Card \<Rightarrow> nat \<Rightarrow> GameState \<Rightarrow> GameState" where
  "special_state c i gs =
     (case getValue c of
        ONE \<Rightarrow> advanceTurn gs
      | TWO \<Rightarrow> gs\<lparr>activePickCount := activePickCount gs + 2\<rparr>
      | FIVE \<Rightarrow> gs\<lparr>activePickCount := activePickCount gs + 3\<rparr>
      | EIGHT \<Rightarrow> advanceTurn gs
      | FOURTEEN \<Rightarrow> fold draw_for (market_players i gs) gs
      | TWENTY \<Rightarrow> gs\<lparr>demandedSuit := None\<rparr>
      | _ \<Rightarrow> gs)"

lemma executeSpecialCard_state [simp]:
  "eng_state (executeSpecialCard c i eng) = special_state c i (eng_state eng)"
  by (cases "getValue c")
    (simp_all add: executeSpecialCard_def special_state_def getSpecialAbility_def skipNextPlayer_def
      setActivePickCount_def clearDemandedSuit_def)

lemma executeSpecialCard_turn [simp]:
  "eng_turn (executeSpecialCard c i eng) =
     (if getValue c = ONE then (eng_turn eng)\<lparr>allowMultipleActions := True\<rparr> else eng_turn eng)"
  by (cases "getValue c")
    (simp_all add: executeSpecialCard_def getSpecialAbility_def enableMultipleActions_def)

lemma executeSpecialCard_frame [simp, whot_frame]:
  "eng_rules (executeSpecialCard c i eng) = eng_rules eng"
  "eng_callbacks (executeSpecialCard c i eng) = eng_callbacks eng"
  by (simp_all add: executeSpecialCard_def)

lemma market_players_lt: "k \<in> set (market_players i gs) \<Longrightarrow> k < length (players gs)"
  by (auto simp: market_players_def set_getActivePlayers)

lemma special_state_frame [simp, whot_frame]:
  "length (players (special_state c i gs)) = length (players gs)"
  "roster (special_state c i gs) = roster gs"
  "callCard (special_state c i gs) = callCard gs"
  "phase (special_state c i gs) = phase gs"
  "config (special_state c i gs) = config gs"
  "direction (special_state c i gs) = direction gs"
  by (cases "getValue c"; simp add: special_state_def)+

lemma special_state_all_cards_le: "all_cards (special_state c i gs) \<subseteq># all_cards gs"
  by (cases "getValue c") (simp_all add: special_state_def fold_draw_for_all_cards_le market_players_lt)

definition play_core :: "nat \<Rightarrow> nat \<Rightarrow> GameEngine \<Rightarrow> GameEngine" where
  "play_core i idx eng =
     (let c = hand_cards (hand_of (eng_state eng) i) ! idx
      in executeSpecialCard c i (on_state (put_card i idx c) eng))"

lemma play_core_state [simp]:
  "eng_state (play_core i idx eng) =
     (let c = hand_cards (hand_of (eng_state eng) i) ! idx
      in special_state c i (put_card i idx c (eng_state eng)))"
  by (simp add: play_core_def Let_def)

section \<open>Scoring\<close>

lemma score_player_frame [simp]:
  "player_id (score_player p) = player_id p" "player_status (score_player p) = player_status p"
  "player_hand (score_player p) = player_hand p"
  by (simp_all add: score_player_def)

lemma modify_player_cards:
  assumes "\<And>p. player_hand (f p) = player_hand p"
  shows "all_cards (modify_player i f gs) = all_cards gs"
  by (simp add: all_cards_def hands_modify_same assms)

lemma credit_winner_frame [simp, whot_frame]:
  "length (players (credit_winner gs)) = length (players gs)"
  "roster (credit_winner gs) = roster gs"
  "all_cards (credit_winner gs) = all_cards gs"
  "currentPlayerIndex (credit_winner gs) = currentPlayerIndex gs"
  "callCard (credit_winner gs) = callCard gs"
  "config (credit_winner gs) = config gs"
  by (simp_all add: credit_winner_def modify_player_cards split: option.split)

lemma fold_score_frame [simp, whot_frame]:
  "length (players (fold (\<lambda>k. modify_player k score_player) ks gs)) = length (players gs)"
  "roster (fold (\<lambda>k. modify_player k score_player) ks gs) = roster gs"
  "all_cards (fold (\<lambda>k. modify_player k score_player) ks gs) = all_cards gs"
  "currentPlayerIndex (fold (\<lambda>k. modify_player k score_player) ks gs) = currentPlayerIndex gs"
  "callCard (fold (\<lambda>k. modify_player k score_player) ks gs) = callCard gs"
  "config (fold (\<lambda>k. modify_player k score_player) ks gs) = config gs"
  by (induction ks arbitrary: gs) (simp_all add: modify_player_cards)

lemma score_round_frame [simp, whot_frame]:
  "length (players (score_round gs)) = length (players gs)"
  "roster (score_round gs) = roster gs"
  "all_cards (score_round gs) = all_cards gs"
  "currentPlayerIndex (score_round gs) = currentPlayerIndex gs"
  "callCard (score_round gs) = callCard gs"
  "config (score_round gs) = config gs"
  "phase (score_round gs) = ROUND_ENDED"
  by (simp_all add: score_round_def Let_def state_endRound_def)

lemma after_play_state:
  "eng_state (after_play eng) =
     (if checkRoundEnd (eng_state eng) then score_round (eng_state eng)
      else if \<not> allowMultipleActions (eng_turn eng) then advanceTurn (eng_state eng)
      else eng_state eng)"
  by (simp add: after_play_def Let_def canPlayAgain_def)

lemma after_play_frame [simp, whot_frame]:
  "length (players (eng_state (after_play eng))) = length (players (eng_state eng))"
  "roster (eng_state (after_play eng)) = roster (eng_state eng)"
  "all_cards (eng_state (after_play eng)) = all_cards (eng_state eng)"
  "callCard (eng_state (after_play eng)) = callCard (eng_state eng)"
  "config (eng_state (after_play eng)) = config (eng_state eng)"
  by (simp_all add: after_play_state)

section \<open>The cases of an action\<close>

definition playable_at :: "GameEngine \<Rightarrow> nat \<Rightarrow> nat \<Rightarrow> bool" where
  "playable_at eng i idx \<longleftrightarrow>
     i < length (players (eng_state eng)) \<and> idx < length (hand_cards (hand_of (eng_state eng) i)) \<and>
     re_canPlayCard (eng_rules eng) (eng_state eng) (players (eng_state eng) ! i)
       (hand_cards (hand_of (eng_state eng) i) ! idx)"

lemma validateCardPlay_iff: "validateCardPlay eng p c = re_canPlayCard (eng_rules eng) (eng_state eng) p c"
  by (simp add: validateCardPlay_def re_canPlayCard_def split: option.split)

lemma handlePlayCard_valid:
  assumes "act_cardIndex a = Some idx" "getPlayer (act_playerId a) (eng_state eng) = Some i"
    "playable_at eng i idx"
  shows "handlePlayCard a eng =
     (let core = play_core i idx eng; j = state_toJson (eng_state core)
      in Some (res_ok [act_playerId a] j, after_play (emitEvent ''card_played'' j core)))"
  using assms
  by (simp add: handlePlayCard_def playable_at_def validateCardPlay_iff hand_getCard_def
      hand_length_def hand_playCard_some play_core_def Let_def not_le)

lemma isValidAction_play:
  assumes "act_type a = PLAY_CARD"
  shows "isValidAction eng a = Some True \<longleftrightarrow>
     act_playerId a = getCurrentPlayerId (eng_state eng) \<and>
     (\<exists>idx i. act_cardIndex a = Some idx \<and> getPlayer (act_playerId a) (eng_state eng) = Some i \<and>
        playable_at eng i idx)"
  using assms getPlayer_Some [of "act_playerId a" "eng_state eng"]
  by (auto simp: isValidAction_def playable_at_def validateCardPlay_iff hand_getCard_def
      hand_length_def not_le Let_def split: option.split)

lemma isValidAction_draw:
  assumes "act_type a = DRAW_CARD"
  shows "isValidAction eng a = Some True \<longleftrightarrow>
     act_playerId a = getCurrentPlayerId (eng_state eng) \<and>
     (\<exists>i. getCurrentPlayer (eng_state eng) = Some i \<and>
        re_mustDrawCard (eng_rules eng) (eng_state eng) (players (eng_state eng) ! i))"
  using assms by (auto simp: isValidAction_def Let_def split: option.split)

lemma processAction_cases:
  assumes "processAction a eng = Some (r, eng')"
  obtains (rejected) "eng' = eng" "r = res_fail ''Invalid action''" "isValidAction eng a = Some False"
  | (play) idx i where "act_type a = PLAY_CARD" "act_cardIndex a = Some idx"
      "act_playerId a = getCurrentPlayerId (eng_state eng)"
      "getPlayer (act_playerId a) (eng_state eng) = Some i" "playable_at eng i idx"
      "r = res_ok [act_playerId a] (state_toJson (eng_state (play_core i idx eng)))"
      "eng' = after_play (emitEvent ''card_played'' (state_toJson (eng_state (play_core i idx eng)))
                (play_core i idx eng))"
  | (draw) i where "act_type a = DRAW_CARD" "getCurrentPlayer (eng_state eng) = Some i"
      "act_playerId a = player_id (players (eng_state eng) ! i)"
      "re_mustDrawCard (eng_rules eng) (eng_state eng) (players (eng_state eng) ! i)"
      "(r, eng') = handleDrawCard a eng"
  | (declares) "act_type a \<in> {DECLARE_LAST_CARD, DECLARE_CHECK_UP}"
      "act_playerId a = getCurrentPlayerId (eng_state eng)" "(r, eng') = handleDeclaration a eng"
  | (suit) s where "act_type a = CHOOSE_SUIT" "act_chosenSuit a = Some s"
      "act_playerId a = getCurrentPlayerId (eng_state eng)" "(r, eng') = handleSuitChoice a eng"
proof (cases "isValidAction eng a")
  case None
  then show ?thesis using assms by (simp add: processAction_def)
next
  case (Some b)
  show ?thesis
  proof (cases b)
    case False
    then show ?thesis using assms Some rejected by (simp add: processAction_def)
  next
    case True
    have ok: "isValidAction eng a = Some True" using Some True by simp
    have cur: "act_playerId a = getCurrentPlayerId (eng_state eng)"
      using ok by (simp add: isValidAction_def Let_def split: if_splits)
    show ?thesis
    proof (cases "act_type a")
      case PLAY_CARD
      then obtain idx i where *: "act_cardIndex a = Some idx"
          "getPlayer (act_playerId a) (eng_state eng) = Some i" "playable_at eng i idx"
        using ok isValidAction_play by blast
      show ?thesis
        by (rule play [OF PLAY_CARD *(1) cur *(2) *(3)])
          (use assms ok PLAY_CARD handlePlayCard_valid [OF *] in
            \<open>simp_all add: processAction_def Let_def\<close>)
    next
      case DRAW_CARD
      then obtain i where *: "getCurrentPlayer (eng_state eng) = Some i"
          "re_mustDrawCard (eng_rules eng) (eng_state eng) (players (eng_state eng) ! i)"
        using ok isValidAction_draw by blast
      show ?thesis
        by (rule draw [OF DRAW_CARD *(1) _ *(2)])
          (use assms ok DRAW_CARD cur * in \<open>simp_all add: processAction_def getCurrentPlayerId_def\<close>)
    next
      case CHOOSE_SUIT
      then obtain s where "act_chosenSuit a = Some s"
        using ok by (auto simp: isValidAction_def Let_def split: if_splits)
      then show ?thesis using CHOOSE_SUIT suit cur assms ok by (simp add: processAction_def)
    qed (use assms ok declares cur in \<open>simp_all add: processAction_def isValidAction_def Let_def\<close>)
  qed
qed

text \<open>A refused action changes nothing, and its answer has no state.\<close>

lemma refused_unchanged:
  assumes "processAction a eng = Some (res, eng')" "\<not> res_success res"
  shows "eng' = eng \<and> res_newStateJson res = None"
  using assms(1)
proof (cases rule: processAction_cases)
  case (draw i)
  then show ?thesis
    using assms(2) by (auto simp: handleDrawCard_def res_ok_def res_fail_def Let_def split: option.splits)
qed (use assms(2) in \<open>auto simp: res_ok_def res_fail_def handleDeclaration_def handleSuitChoice_def Let_def split: option.splits\<close>)

section \<open>The invariants of a table\<close>

definition engine_step :: "GameEngine \<Rightarrow> GameAction \<Rightarrow> GameEngine" where
  "engine_step eng a = (case processAction a eng of None \<Rightarrow> eng | Some (r, eng') \<Rightarrow> eng')"

lemma getPlayer_lt: "getPlayer pid gs = Some i \<Longrightarrow> i < length (players gs)"
  using getPlayer_Some by blast

lemma handleDrawCard_state:
  assumes "(r, eng') = handleDrawCard a eng"
  shows "eng_state eng' =
     (case getPlayer (act_playerId a) (eng_state eng) of
        None \<Rightarrow> eng_state eng
      | Some i \<Rightarrow> advanceTurn (penalty_draw i
          (re_calculateDrawCount (eng_rules eng) (eng_state eng) (players (eng_state eng) ! i))
          (eng_state eng)))"
  using assms by (auto simp: handleDrawCard_def Let_def split: option.splits)

lemma handleDeclaration_state:
  assumes "(r, eng') = handleDeclaration a eng"
  shows "eng_state eng' =
     (case getPlayer (act_playerId a) (eng_state eng) of
        None \<Rightarrow> eng_state eng
      | Some i \<Rightarrow> modify_player i (declare_flags (act_type a)) (eng_state eng))"
  using assms by (auto simp: handleDeclaration_def Let_def split: option.splits)

lemma handleSuitChoice_state:
  assumes "(r, eng') = handleSuitChoice a eng" "act_chosenSuit a = Some s"
  shows "eng_state eng' =
     (let gs = (eng_state eng)\<lparr>demandedSuit := Some s\<rparr>
      in if act_chosenDirection a \<noteq> None \<and> allowDirectionChange (config (eng_state eng))
         then reverseDirection gs else gs)"
  using assms by (auto simp: handleSuitChoice_def Let_def setDemandedSuit_def split: if_splits)

lemma declare_flags_frame [simp]:
  "player_id (declare_flags t p) = player_id p" "player_status (declare_flags t p) = player_status p"
  "player_hand (declare_flags t p) = player_hand p"
  by (simp_all add: declare_flags_def)

lemma step_play_all_cards_le:
  assumes "playable_at eng i idx"
  shows "all_cards (eng_state (play_core i idx eng)) \<subseteq># all_cards (eng_state eng)"
  using assms special_state_all_cards_le put_card_all_cards
  unfolding play_core_state Let_def playable_at_def by metis

text \<open>To show something of the state after a step, show it for every action that is carried out.\<close>

lemma engine_step_cases:
  assumes "P (eng_state eng)"
    and "\<And>r eng'. processAction a eng = Some (r, eng') \<Longrightarrow> P (eng_state eng')"
  shows "P (eng_state (engine_step eng a))"
  using assms by (auto simp: engine_step_def split: option.split)

lemma process_all_cards_le:
  assumes "processAction a eng = Some (r, eng')"
  shows "all_cards (eng_state eng') \<subseteq># all_cards (eng_state eng)"
  using assms
proof (cases rule: processAction_cases)
  case (play idx i)
  then show ?thesis using step_play_all_cards_le [OF play(5)] by simp
next
  case (draw i)
  then show ?thesis
    by (auto simp: handleDrawCard_state penalty_draw_all_cards_le dest: getPlayer_lt split: option.split)
next
  case declares
  then show ?thesis by (simp add: handleDeclaration_state modify_player_cards split: option.split)
next
  case (suit s)
  then show ?thesis by (simp add: handleSuitChoice_state [OF suit(4,2)] reverseDirection_def Let_def)
qed simp

lemma process_roster:
  assumes "processAction a eng = Some (r, eng')"
  shows "roster (eng_state eng') = roster (eng_state eng)"
  using assms
proof (cases rule: processAction_cases)
  case (play idx i)
  then show ?thesis by (simp add: Let_def)
next
  case (draw i)
  then show ?thesis by (simp add: handleDrawCard_state split: option.split)
next
  case declares
  then show ?thesis by (simp add: handleDeclaration_state split: option.split)
next
  case (suit s)
  then show ?thesis by (simp add: handleSuitChoice_state [OF suit(4,2)] reverseDirection_def Let_def)
qed simp

section \<open>A current player\<close>

definition index_ok :: "GameState \<Rightarrow> bool" where
  "index_ok gs \<longleftrightarrow> 0 \<le> currentPlayerIndex gs \<and> currentPlayerIndex gs < int (length (players gs))"

lemma index_ok_current: "index_ok gs \<longleftrightarrow> getCurrentPlayer gs \<noteq> None"
  by (auto simp: index_ok_def getCurrentPlayer_def)

lemma index_ok_cong:
  "length (players gs') = length (players gs) \<Longrightarrow> currentPlayerIndex gs' = currentPlayerIndex gs \<Longrightarrow>
   index_ok gs' = index_ok gs"
  by (simp add: index_ok_def)

lemma index_ok_advance: "index_ok gs \<Longrightarrow> index_ok (advanceTurn gs)"
  using next_index_range [of gs]
  by (cases "players gs = []") (simp_all add: index_ok_def advanceTurn_def)

lemma index_ok_frame [simp]:
  "index_ok (put_card i idx c gs) = index_ok gs"
  "index_ok (fold draw_for ks gs) = index_ok gs"
  "index_ok (penalty_draw i n gs) = index_ok gs"
  "index_ok (score_round gs) = index_ok gs"
  "index_ok (modify_player i f gs) = index_ok gs"
  "index_ok (gs\<lparr>activePickCount := m\<rparr>) = index_ok gs"
  "index_ok (gs\<lparr>demandedSuit := d\<rparr>) = index_ok gs"
  "index_ok (gs\<lparr>direction := x\<rparr>) = index_ok gs"
  by (simp_all add: index_ok_def)

lemma index_ok_special: "index_ok gs \<Longrightarrow> index_ok (special_state c i gs)"
  by (cases "getValue c") (simp_all add: special_state_def index_ok_advance)

lemma process_index_ok:
  assumes "processAction a eng = Some (r, eng')" "index_ok (eng_state eng)"
  shows "index_ok (eng_state eng')"
  using assms(1)
proof (cases rule: processAction_cases)
  case (play idx i)
  have "index_ok (eng_state (play_core i idx eng))"
    using assms(2) by (simp add: Let_def index_ok_special)
  then show ?thesis using play by (simp add: after_play_state index_ok_advance del: play_core_state)
next
  case (draw i)
  then show ?thesis
    using assms(2) by (simp add: handleDrawCard_state index_ok_advance split: option.split)
next
  case declares
  then show ?thesis using assms(2) by (simp add: handleDeclaration_state split: option.split)
next
  case (suit s)
  then show ?thesis
    using assms(2) by (simp add: handleSuitChoice_state [OF suit(4,2)] reverseDirection_def Let_def)
qed (use assms(2) in simp)

section \<open>Well-formed hands\<close>

definition hands_ok :: "GameState \<Rightarrow> bool" where
  "hands_ok gs \<longleftrightarrow> (\<forall>p \<in> set (players gs). hand_wf (player_hand p))"

lemma hands_ok_cong: "players gs' = players gs \<Longrightarrow> hands_ok gs' = hands_ok gs"
  by (simp add: hands_ok_def)

lemma hands_ok_modify:
  assumes "hands_ok gs" "\<And>p. hand_wf (player_hand p) \<Longrightarrow> hand_wf (player_hand (f p))"
  shows "hands_ok (modify_player i f gs)"
proof (cases "i < length (players gs)")
  case True
  then have "hand_wf (player_hand (f (players gs ! i)))" using assms by (simp add: hands_ok_def)
  then show ?thesis
    using assms(1) unfolding hands_ok_def modify_player_def
    by (auto dest!: subsetD [OF set_update_subset_insert])
next
  case False
  then show ?thesis using assms(1) by (simp add: modify_player_def hands_ok_def list_update_beyond)
qed

lemma hands_ok_draw_for: "hands_ok gs \<Longrightarrow> hands_ok (draw_for i gs)"
  using draw_for_shape [of i gs] hands_ok_cong [of "draw_for i gs"]
    hands_ok_modify [of gs "give_card _" i]
  by (fastforce simp: give_card_def hand_wf_addCard)

lemma hands_ok_fold_draw: "hands_ok gs \<Longrightarrow> hands_ok (fold draw_for ks gs)"
  by (induction ks arbitrary: gs) (simp_all add: hands_ok_draw_for)

lemma hands_ok_advance [simp]: "hands_ok (advanceTurn gs) = hands_ok gs"
  by (simp add: hands_ok_def)

lemma hands_ok_special: "hands_ok gs \<Longrightarrow> hands_ok (special_state c i gs)"
  by (cases "getValue c") (simp_all add: special_state_def hands_ok_fold_draw, simp_all add: hands_ok_def)

lemma hands_ok_put: "hands_ok gs \<Longrightarrow> hands_ok (put_card i idx c gs)"
  using hands_ok_modify [of gs "take_from_hand idx" i] hands_ok_cong [OF put_card_players [of i idx c gs]]
  by (simp add: take_from_hand_def hand_wf_playCard)

lemma hands_ok_draw_cards: "hands_ok gs \<Longrightarrow> hands_ok (draw_cards i n gs)"
  unfolding draw_cards_def split_beta Let_def
  by (intro hands_ok_modify) (simp_all add: hand_wf_addCards hands_ok_def)

lemma hands_ok_penalty: "hands_ok gs \<Longrightarrow> hands_ok (penalty_draw i n gs)"
  using hands_ok_draw_cards [of gs i "nat n"] hands_ok_draw_cards [of "reshuffleDiscardPile gs" i "nat n"]
  by (simp add: penalty_draw_def resetActivePickCount_def hands_ok_def)

lemma hands_ok_score: "hands_ok gs \<Longrightarrow> hands_ok (score_round gs)"
proof -
  assume ok: "hands_ok gs"
  have credit: "hands_ok (credit_winner gs)"
    using ok by (auto simp: credit_winner_def intro: hands_ok_modify split: option.split)
  have "hands_ok s \<Longrightarrow> hands_ok (fold (\<lambda>k. modify_player k score_player) ks s)" for ks s
    by (induction ks arbitrary: s) (simp_all add: hands_ok_modify)
  then show ?thesis
    using credit by (simp add: score_round_def Let_def state_endRound_def hands_ok_def)
qed

lemma process_hands_ok:
  assumes "processAction a eng = Some (r, eng')" "hands_ok (eng_state eng)"
  shows "hands_ok (eng_state eng')"
  using assms(1)
proof (cases rule: processAction_cases)
  case (play idx i)
  have "hands_ok (eng_state (play_core i idx eng))"
    using assms(2) by (simp add: Let_def hands_ok_special hands_ok_put)
  then show ?thesis using play by (simp add: after_play_state hands_ok_score del: play_core_state)
next
  case (draw i)
  then show ?thesis
    using assms(2) by (simp add: handleDrawCard_state hands_ok_penalty split: option.split)
next
  case declares
  then show ?thesis
    using assms(2) by (simp add: handleDeclaration_state hands_ok_modify split: option.split)
next
  case (suit s)
  then show ?thesis
    using assms(2) by (simp add: handleSuitChoice_state [OF suit(4,2)] reverseDirection_def Let_def hands_ok_def)
qed (use assms(2) in simp)

section \<open>The invariants over sequences of actions\<close>

interpretation table_cards: event_invariant engine_step "\<lambda>eng. all_cards (eng_state eng) \<subseteq># C" for C
  by unfold_locales
    (rule engine_step_cases, assumption, blast intro: process_all_cards_le subset_mset.order_trans)

interpretation table_seats: event_invariant engine_step "\<lambda>eng. roster (eng_state eng) = R" for R
  by unfold_locales (rule engine_step_cases, simp_all add: process_roster)

interpretation table_index: event_invariant engine_step "\<lambda>eng. index_ok (eng_state eng)"
  by unfold_locales (rule engine_step_cases, simp_all add: process_index_ok)

interpretation table_hands: event_invariant engine_step "\<lambda>eng. hands_ok (eng_state eng)"
  by unfold_locales (rule engine_step_cases, simp_all add: process_hands_ok)

section \<open>Dealing\<close>

lemma hand_of_draw_for:
  assumes "deck_cards (deck gs) \<noteq> []" "i < length (players gs)" "k < length (players gs)"
  shows "hand_cards (hand_of (draw_for i gs) k) =
     (if k = i then hand_cards (hand_of gs i) @ [last (deck_cards (deck gs))] else hand_cards (hand_of gs k))"
  using assms by (simp add: draw_for_nonempty players_modify_player)

lemma draw_for_nonempty_rest:
  assumes "deck_cards (deck gs) \<noteq> []"
  shows "deck_cards (deck (draw_for i gs)) = butlast (deck_cards (deck gs))"
    and "discardPile (draw_for i gs) = discardPile gs"
  using assms by (simp_all add: draw_for_nonempty)

lemma draw_for_nonempty_all_cards:
  assumes "deck_cards (deck gs) \<noteq> []" "i < length (players gs)"
  shows "all_cards (draw_for i gs) = all_cards gs"
proof -
  let ?d = "(deck gs)\<lparr>deck_cards := butlast (deck_cards (deck gs))\<rparr>"
  let ?c = "last (deck_cards (deck gs))"
  have "hands_mset (draw_for i gs) = add_mset ?c (hands_mset gs)"
    using hands_modify [of i "gs\<lparr>deck := ?d\<rparr>" "give_card ?c"] assms
      hands_cong [of "gs\<lparr>deck := ?d\<rparr>" gs] by (simp add: draw_for_nonempty)
  moreover have "add_mset ?c (mset (butlast (deck_cards (deck gs)))) = mset (deck_cards (deck gs))"
    using deck_draw_mset [of "deck gs" ?c ?d] assms(1) by (simp add: deck_draw_def)
  ultimately show ?thesis
    using assms(1) by (simp add: all_cards_def draw_for_nonempty_rest)
qed

text \<open>As long as the deck has enough cards, a round of dealing gives each listed player one.\<close>

lemma fold_draw_for_deal:
  assumes "distinct ks" "\<forall>k \<in> set ks. k < length (players gs)" "length ks \<le> length (deck_cards (deck gs))"
  shows "length (deck_cards (deck (fold draw_for ks gs))) = length (deck_cards (deck gs)) - length ks \<and>
         discardPile (fold draw_for ks gs) = discardPile gs \<and>
         all_cards (fold draw_for ks gs) = all_cards gs \<and>
         (\<forall>k < length (players gs). length (hand_cards (hand_of (fold draw_for ks gs) k)) =
            length (hand_cards (hand_of gs k)) + (if k \<in> set ks then 1 else 0))"
  using assms
proof (induction ks arbitrary: gs)
  case (Cons j ks)
  have ne: "deck_cards (deck gs) \<noteq> []" and j: "j < length (players gs)" using Cons.prems by auto
  let ?g = "draw_for j gs"
  have "length (deck_cards (deck ?g)) = length (deck_cards (deck gs)) - 1"
    using ne by (simp add: draw_for_nonempty_rest)
  moreover have "length ks \<le> length (deck_cards (deck ?g))"
    using Cons.prems(3) by (simp add: draw_for_nonempty_rest [OF ne])
  ultimately show ?case
    using Cons.IH [of ?g] Cons.prems hand_of_draw_for [OF ne j] ne j
    by (auto simp: draw_for_nonempty_rest draw_for_nonempty_all_cards)
qed simp

lemma deal_round_frame [simp, whot_frame]:
  "length (players (deal_round gs)) = length (players gs)"
  "roster (deal_round gs) = roster gs"
  "callCard (deal_round gs) = callCard gs"
  "activePickCount (deal_round gs) = activePickCount gs"
  "demandedSuit (deal_round gs) = demandedSuit gs"
  "phase (deal_round gs) = phase gs"
  "config (deal_round gs) = config gs"
  "direction (deal_round gs) = direction gs"
  "currentPlayerIndex (deal_round gs) = currentPlayerIndex gs"
  by (simp_all add: deal_round_def)

lemma deal_rounds_frame [simp, whot_frame]:
  "length (players ((deal_round ^^ n) gs)) = length (players gs)"
  "roster ((deal_round ^^ n) gs) = roster gs"
  "callCard ((deal_round ^^ n) gs) = callCard gs"
  "activePickCount ((deal_round ^^ n) gs) = activePickCount gs"
  "demandedSuit ((deal_round ^^ n) gs) = demandedSuit gs"
  "phase ((deal_round ^^ n) gs) = phase gs"
  "config ((deal_round ^^ n) gs) = config gs"
  "direction ((deal_round ^^ n) gs) = direction gs"
  "currentPlayerIndex ((deal_round ^^ n) gs) = currentPlayerIndex gs"
  by (induction n) simp_all

lemma active_lt: "\<forall>k \<in> set (getActivePlayers gs). k < length (players gs)"
  by (simp add: set_getActivePlayers)

lemma deal_rounds:
  assumes "n * length (getActivePlayers gs) \<le> length (deck_cards (deck gs))"
  shows "length (deck_cards (deck ((deal_round ^^ n) gs))) =
           length (deck_cards (deck gs)) - n * length (getActivePlayers gs) \<and>
         discardPile ((deal_round ^^ n) gs) = discardPile gs \<and>
         all_cards ((deal_round ^^ n) gs) = all_cards gs \<and>
         (\<forall>k < length (players gs). length (hand_cards (hand_of ((deal_round ^^ n) gs) k)) =
            length (hand_cards (hand_of gs k)) + (if k \<in> set (getActivePlayers gs) then n else 0))"
  using assms
proof (induction n)
  case (Suc n)
  let ?g = "(deal_round ^^ n) gs"
  let ?A = "getActivePlayers gs"
  have "getActivePlayers ?g = ?A" by (rule roster_active) simp
  then have eq: "(deal_round ^^ Suc n) gs = fold draw_for ?A ?g" by (simp add: deal_round_def)
  have IH: "length (deck_cards (deck ?g)) = length (deck_cards (deck gs)) - n * length ?A"
      "discardPile ?g = discardPile gs" "all_cards ?g = all_cards gs"
      "k < length (players gs) \<Longrightarrow> length (hand_cards (hand_of ?g k)) =
         length (hand_cards (hand_of gs k)) + (if k \<in> set ?A then n else 0)" for k
    using Suc by auto
  have "distinct ?A" by (simp add: getActivePlayers_def distinct_indices_where)
  moreover have "\<forall>k \<in> set ?A. k < length (players ?g)" using active_lt [of gs] by simp
  moreover have "length ?A \<le> length (deck_cards (deck ?g))" using Suc.prems IH(1) by simp
  ultimately show ?case
    using fold_draw_for_deal [of ?A ?g] IH unfolding eq by (simp add: ac_simps)
qed simp

lemma deal_rounds_all_cards_le: "all_cards ((deal_round ^^ n) gs) \<subseteq># all_cards gs"
proof (induction n)
  case (Suc n)
  have "all_cards (deal_round ((deal_round ^^ n) gs)) \<subseteq># all_cards ((deal_round ^^ n) gs)"
    unfolding deal_round_def by (rule fold_draw_for_all_cards_le) (rule active_lt)
  then show ?case using Suc by (simp add: subset_mset.order_trans)
qed simp

section \<open>Accepted actions\<close>

lemma processAction_play_ok:
  assumes "act_type a = PLAY_CARD" "act_cardIndex a = Some idx"
    "act_playerId a = getCurrentPlayerId (eng_state eng)"
    "getPlayer (act_playerId a) (eng_state eng) = Some i" "playable_at eng i idx"
  shows "\<exists>r eng'. processAction a eng = Some (r, eng') \<and> res_success r"
proof -
  have "isValidAction eng a = Some True" using assms by (simp add: isValidAction_play)
  then show ?thesis
    using handlePlayCard_valid [OF assms(2,4,5)] assms(1)
    by (simp add: processAction_def res_ok_def Let_def)
qed

lemma processAction_draw_ok:
  assumes "act_type a = DRAW_CARD" "getCurrentPlayer (eng_state eng) = Some i"
    "act_playerId a = player_id (players (eng_state eng) ! i)"
    "re_mustDrawCard (eng_rules eng) (eng_state eng) (players (eng_state eng) ! i)"
  shows "\<exists>r eng'. processAction a eng = Some (r, eng') \<and> res_success r"
proof -
  have "isValidAction eng a = Some True"
    using assms by (simp add: isValidAction_draw getCurrentPlayerId_def)
  moreover have "i < length (players (eng_state eng))" using assms(2) by (rule getCurrentPlayer_lt)
  then have "getPlayer (act_playerId a) (eng_state eng) \<noteq> None"
    unfolding assms(3) getPlayer_def find_index_None by auto
  ultimately show ?thesis
    using assms(1) by (auto simp: processAction_def handleDrawCard_def res_ok_def Let_def)
qed

end
