(* ===== verification/Whot_Samples.thy ===== *)
theory Whot_Samples
  imports Whot_EngineInv
begin

text \<open>
  Small concrete tables, used to show that the hypotheses of the theorems can hold: two players
  in the middle of a round.
\<close>

definition sample_player :: "string \<Rightarrow> Card list \<Rightarrow> Player" where
  "sample_player pid cs =
     (player_new 0 pid pid HUMAN)\<lparr>player_hand := \<lparr>hand_cards = cs, hand_size = length cs\<rparr>\<rparr>"

definition sample_state :: "Card list \<Rightarrow> Card list \<Rightarrow> Card \<Rightarrow> GameState" where
  "sample_state as bs call =
     \<lparr>config = default_config, phase = IN_PROGRESS,
      players = [sample_player ''a'' as, sample_player ''b'' bs], currentPlayerIndex = 0,
      direction = CLOCKWISE, deck = \<lparr>deck_cards = [Card BLOCK ONE, Card CROSS SEVEN], deck_rng = []\<rparr>,
      callCard = Some call, discardPile = [Card BLOCK TEN], activePickCount = 0, demandedSuit = None,
      gameId = ''g'', gameCode = ''ABCDEF'', creatorPlayerId = ''a'', createdAt = 0\<rparr>"

definition sample_engine :: "Card list \<Rightarrow> Card list \<Rightarrow> Card \<Rightarrow> GameEngine" where
  "sample_engine as bs call = engine_new 0 (sample_state as bs call)"

definition sample_action :: "ActionType \<Rightarrow> GameAction" where
  "sample_action ty = \<lparr>act_type = ty, act_playerId = ''a'',
     act_cardIndex = (if ty = PLAY_CARD then Some 0 else None),
     act_chosenSuit = (if ty = CHOOSE_SUIT then Some STAR else None),
     act_chosenDirection = None, act_metadata = ''''\<rparr>"

lemmas sample_defs = sample_player_def sample_state_def sample_engine_def sample_action_def
  engine_new_def turn_new_def player_new_def default_config_def

lemma sample_engine_parts [simp]:
  "eng_state (sample_engine as bs call) = sample_state as bs call"
  "eng_turn (sample_engine as bs call) = turn_new 0"
  "eng_rules (sample_engine as bs call) = rules_new"
  by (simp_all add: sample_engine_def engine_new_def)

lemma sample_state_parts [simp]:
  "players (sample_state as bs call) = [sample_player ''a'' as, sample_player ''b'' bs]"
  "currentPlayerIndex (sample_state as bs call) = 0"
  "callCard (sample_state as bs call) = Some call"
  "demandedSuit (sample_state as bs call) = None"
  "activePickCount (sample_state as bs call) = 0"
  "config (sample_state as bs call) = default_config"
  "discardPile (sample_state as bs call) = [Card BLOCK TEN]"
  "direction (sample_state as bs call) = CLOCKWISE"
  "deck_cards (deck (sample_state as bs call)) = [Card BLOCK ONE, Card CROSS SEVEN]"
  by (simp_all add: sample_state_def)

lemma sample_player_parts [simp]:
  "player_id (sample_player pid cs) = pid"
  "hand_cards (player_hand (sample_player pid cs)) = cs"
  "player_status (sample_player pid cs) = ACTIVE"
  "hand_wf (player_hand (sample_player pid cs))"
  "currentScore (sample_player pid cs) = 0" "gamesWon (sample_player pid cs) = 0"
  "hand_isEmpty (player_hand (sample_player pid cs)) \<longleftrightarrow> cs = []"
  by (simp_all add: sample_player_def player_new_def hand_wf_def hand_isEmpty_def)

lemma sample_action_parts [simp]:
  "act_type (sample_action ty) = ty" "act_playerId (sample_action ty) = ''a''"
  "act_cardIndex (sample_action PLAY_CARD) = Some 0"
  "act_chosenSuit (sample_action CHOOSE_SUIT) = Some STAR"
  by (simp_all add: sample_action_def)

lemma sample_lookup [simp]:
  "getPlayer ''a'' (sample_state as bs call) = Some 0"
  "getCurrentPlayer (sample_state as bs call) = Some 0"
  "getCurrentPlayerId (sample_state as bs call) = ''a''"
  by (simp_all add: getPlayer_def getCurrentPlayer_def getCurrentPlayerId_def)

lemma sample_active [simp]: "getActivePlayers (sample_state as bs call) = [0, 1]"
  by (simp add: getActivePlayers_def indices_where_def upt_rec)

lemma sample_play_success:
  assumes "canPlayOn c call"
  shows "\<exists>eng'. processAction (sample_action PLAY_CARD) (sample_engine (c # cs) bs call) =
    Some (res_ok [''a''] (state_toJson (eng_state (play_core 0 0 (sample_engine (c # cs) bs call)))), eng')"
proof -
  let ?e = "sample_engine (c # cs) bs call"
  have play: "playable_at ?e 0 0"
    using assms by (simp add: playable_at_def re_canPlayCard_def rules_canPlayCard_def)
  have "isValidAction ?e (sample_action PLAY_CARD) = Some True"
    using play by (simp add: isValidAction_play)
  moreover have "handlePlayCard (sample_action PLAY_CARD) ?e =
      (let core = play_core 0 0 ?e; j = state_toJson (eng_state core)
       in Some (res_ok [''a''] j, after_play (emitEvent ''card_played'' j core)))"
    using handlePlayCard_valid [of "sample_action PLAY_CARD" 0 ?e 0] play by simp
  ultimately show ?thesis by (simp add: processAction_def Let_def)
qed

lemma sample_draw_success:
  assumes "\<forall>c \<in> set cs. \<not> canPlayOn c call"
  shows "\<exists>r eng'. processAction (sample_action DRAW_CARD) (sample_engine cs bs call) = Some (r, eng') \<and>
    res_success r"
proof -
  let ?e = "sample_engine cs bs call"
  have "re_mustDrawCard rules_new (sample_state cs bs call) (sample_player ''a'' cs)"
    using assms by (auto simp: re_mustDrawCard_def re_hasPlayableCard_def list_ex_iff nigerian.match_rules)
  then have "isValidAction ?e (sample_action DRAW_CARD) = Some True"
    by (simp add: isValidAction_draw)
  then show ?thesis
    by (simp add: processAction_def handleDrawCard_def Let_def res_ok_def)
qed

end
