(* ===== verification/Whot_EngineProps.thy ===== *)
theory Whot_EngineProps
  imports Whot_EngineInv Whot_Samples
begin

text \<open>
  The properties of \<open>Game/GameEngine\<close>: what a new round deals, what a play and a draw do, that
  no card is ever duplicated, that somebody can always move, and how a round ends.
\<close>

section \<open>Hands after the end of a play\<close>

lemma modify_hands:
  "(\<And>p. player_hand (f p) = player_hand p) \<Longrightarrow>
   map player_hand (players (modify_player i f gs)) = map player_hand (players gs)"
  by (simp add: modify_player_def map_update_same)

lemma score_round_hands: "map player_hand (players (score_round gs)) = map player_hand (players gs)"
proof -
  have credit: "map player_hand (players (credit_winner gs)) = map player_hand (players gs)"
    by (simp add: credit_winner_def modify_hands incrementGamesWon_def split: option.split)
  have "map player_hand (players (fold (\<lambda>k. modify_player k score_player) ks s)) = map player_hand (players s)"
    for ks s by (induction ks arbitrary: s) (simp_all add: modify_hands)
  then show ?thesis by (simp add: score_round_def Let_def state_endRound_def credit)
qed

lemma after_play_hands:
  "map player_hand (players (eng_state (after_play eng))) = map player_hand (players (eng_state eng))"
  by (simp add: after_play_state score_round_hands)

lemma after_play_hand_of:
  assumes "k < length (players (eng_state eng))"
  shows "hand_of (eng_state (after_play eng)) k = hand_of (eng_state eng) k"
proof -
  have "map player_hand (players (eng_state (after_play eng))) ! k = map player_hand (players (eng_state eng)) ! k"
    by (simp add: after_play_hands)
  then show ?thesis using assms by simp
qed

lemma score_round_rest [simp]:
  "deck (score_round gs) = deck gs" "discardPile (score_round gs) = discardPile gs"
  "demandedSuit (score_round gs) = demandedSuit gs" "activePickCount (score_round gs) = activePickCount gs"
  "direction (score_round gs) = direction gs"
proof -
  have fold: "deck (fold (\<lambda>k. modify_player k score_player) ks s) = deck s"
    "discardPile (fold (\<lambda>k. modify_player k score_player) ks s) = discardPile s"
    "demandedSuit (fold (\<lambda>k. modify_player k score_player) ks s) = demandedSuit s"
    "activePickCount (fold (\<lambda>k. modify_player k score_player) ks s) = activePickCount s"
    "direction (fold (\<lambda>k. modify_player k score_player) ks s) = direction s" for ks s
    by (induction ks arbitrary: s) simp_all
  show "deck (score_round gs) = deck gs" "discardPile (score_round gs) = discardPile gs"
    "demandedSuit (score_round gs) = demandedSuit gs" "activePickCount (score_round gs) = activePickCount gs"
    "direction (score_round gs) = direction gs"
    by (simp_all add: score_round_def Let_def state_endRound_def fold credit_winner_def split: option.split)
qed

lemma after_play_rest [simp]:
  "deck (eng_state (after_play eng)) = deck (eng_state eng)"
  "discardPile (eng_state (after_play eng)) = discardPile (eng_state eng)"
  "demandedSuit (eng_state (after_play eng)) = demandedSuit (eng_state eng)"
  "activePickCount (eng_state (after_play eng)) = activePickCount (eng_state eng)"
  by (simp_all add: after_play_state)

section \<open>Hands after the effect of a card\<close>

lemma draw_for_other:
  assumes "i < length (players gs)" "k \<noteq> i"
  shows "players (draw_for i gs) ! k = players gs ! k"
  using draw_for_shape [of i gs] assms by (auto simp: players_modify_player)

lemma fold_draw_for_other:
  "\<forall>j \<in> set ks. j < length (players gs) \<Longrightarrow> k \<notin> set ks \<Longrightarrow> players (fold draw_for ks gs) ! k = players gs ! k"
  by (induction ks arbitrary: gs) (auto simp: draw_for_other)

lemma special_state_own_hand: "players (special_state c i gs) ! i = players gs ! i"
proof -
  have "players (fold draw_for (market_players i gs) gs) ! i = players gs ! i"
    by (rule fold_draw_for_other) (auto simp: market_players_def set_getActivePlayers)
  then show ?thesis by (cases "getValue c") (simp_all add: special_state_def)
qed

lemma special_state_quiet:
  assumes "getValue c \<noteq> FOURTEEN"
  shows "players (special_state c i gs) = players gs" "deck (special_state c i gs) = deck gs"
    "discardPile (special_state c i gs) = discardPile gs"
  using assms by (cases "getValue c"; simp add: special_state_def)+

lemma special_state_demanded:
  "demandedSuit gs = None \<Longrightarrow> demandedSuit (special_state c i gs) = None"
  by (cases "getValue c") (simp_all add: special_state_def)

lemma put_card_hand_of:
  "i < length (players gs) \<Longrightarrow>
   hand_of (put_card i idx c gs) k = (if k = i then snd (hand_playCard idx (hand_of gs i)) else hand_of gs k)"
  by (simp add: put_card_players players_modify_player take_from_hand_def)

section \<open>A new round\<close>

lemma startRound_cards: "all_cards (state_startRound gs) = mset standard_cards + hands_mset gs"
proof -
  have [simp]: "player_hand (if b then resetTurnFlags p else p) = player_hand p" for b p by simp
  show ?thesis
    by (simp add: state_startRound_def all_cards_def deck_reset_mset hands_mset_def comp_def)
qed

lemma startRound_frame [simp]:
  "length (players (state_startRound gs)) = length (players gs)"
  "roster (state_startRound gs) = roster gs"
  "config (state_startRound gs) = config gs"
  "currentPlayerIndex (state_startRound gs) = 0"
  "phase (state_startRound gs) = IN_PROGRESS"
  "discardPile (state_startRound gs) = []"
  "callCard (state_startRound gs) = None"
  "length (deck_cards (deck (state_startRound gs))) = 54"
  by (simp_all add: state_startRound_def roster_def comp_def)

lemma startRound_hand: "i < length (players gs) \<Longrightarrow> hand_of (state_startRound gs) i = hand_of gs i"
  by (simp add: state_startRound_def)

lemma flip_frame [simp]:
  "players (flip_call_card gs) = players gs" "roster (flip_call_card gs) = roster gs"
  "phase (flip_call_card gs) = phase gs" "currentPlayerIndex (flip_call_card gs) = currentPlayerIndex gs"
  "discardPile (flip_call_card gs) = discardPile gs"
  by (simp_all add: flip_call_card_def Let_def split_beta setCallCard_def split: option.split)

lemma flip_cards:
  assumes "deck_cards (deck gs) \<noteq> []"
  shows "\<exists>c. callCard (flip_call_card gs) = Some c \<and> add_mset c (all_cards (flip_call_card gs)) = all_cards gs \<and>
    length (deck_cards (deck (flip_call_card gs))) = length (deck_cards (deck gs)) - 1"
proof -
  let ?c = "last (deck_cards (deck gs))"
  let ?d = "(deck gs)\<lparr>deck_cards := butlast (deck_cards (deck gs))\<rparr>"
  have "flip_call_card gs = gs\<lparr>deck := ?d, callCard := Some ?c\<rparr>"
    using assms by (simp add: flip_call_card_def deck_isEmpty_def deck_draw_def setCallCard_def)
  moreover have "add_mset ?c (mset (deck_cards ?d)) = mset (deck_cards (deck gs))"
    using deck_draw_mset [of "deck gs" ?c ?d] assms by (simp add: deck_draw_def)
  ultimately show ?thesis by (simp add: all_cards_def hands_mset_def)
qed

lemma flip_cards_le: "all_cards (flip_call_card gs) \<subseteq># all_cards gs"
proof (cases "deck_cards (deck gs) = []")
  case True
  then show ?thesis by (simp add: flip_call_card_def deck_isEmpty_def)
next
  case False
  then obtain c where "add_mset c (all_cards (flip_call_card gs)) = all_cards gs"
    using flip_cards by blast
  then show ?thesis by (metis mset_subset_eq_add_right add_mset_add_single mset_subset_eq_add_left)
qed

lemma startNewRound_state: "eng_state (startNewRound now eng) = dealt_state (eng_state eng)"
  by (simp add: startNewRound_def Let_def)

lemma startNewRound_turn: "eng_turn (startNewRound now eng) = startTurn now (eng_turn eng)"
  by (simp add: startNewRound_def Let_def)

lemma active_startRound [simp]: "getActivePlayers (state_startRound gs) = getActivePlayers gs"
  by (rule roster_active) simp

lemma dealt_frame [simp]:
  "length (players (dealt_state gs)) = length (players gs)" "roster (dealt_state gs) = roster gs"
  "phase (dealt_state gs) = IN_PROGRESS" "currentPlayerIndex (dealt_state gs) = 0"
  by (simp_all add: dealt_state_def)

text \<open>C2: A new round is dealt exactly.  When the shuffled 54 cards are enough for the \<open>n\<close> cards
  of every active player and the call card, each active player gets \<open>n\<close> cards more, nobody else
  gets any, a call card is turned up, the deck keeps the rest, and hands, deck and call card
  together are the standard deck and the cards held before.\<close>

theorem deal_exact:
  fixes eng :: GameEngine
  defines "gs \<equiv> eng_state eng"
  defines "n \<equiv> nat (startingCards (config gs))"
  assumes enough: "n * length (getActivePlayers gs) < 54"
  shows "\<exists>c. callCard (eng_state (startNewRound now eng)) = Some c \<and>
      add_mset c (all_cards (eng_state (startNewRound now eng))) = mset standard_cards + hands_mset gs \<and>
      length (deck_cards (deck (eng_state (startNewRound now eng)))) = 53 - n * length (getActivePlayers gs) \<and>
      (\<forall>i < length (players gs). hand_length (hand_of (eng_state (startNewRound now eng)) i) =
         hand_length (hand_of gs i) + (if i \<in> set (getActivePlayers gs) then n else 0))"
proof -
  let ?r = "(deal_round ^^ n) (state_startRound gs)"
  have deal: "length (deck_cards (deck ?r)) = 54 - n * length (getActivePlayers gs)"
    "all_cards ?r = mset standard_cards + hands_mset gs"
    "i < length (players gs) \<Longrightarrow> hand_length (hand_of ?r i) =
       hand_length (hand_of gs i) + (if i \<in> set (getActivePlayers gs) then n else 0)" for i
    using deal_rounds [of n "state_startRound gs"] enough
    by (simp_all add: startRound_cards startRound_hand hand_length_def)
  have "deck_cards (deck ?r) \<noteq> []" using deal(1) enough by auto
  then obtain c where "callCard (flip_call_card ?r) = Some c"
    "add_mset c (all_cards (flip_call_card ?r)) = all_cards ?r"
    "length (deck_cards (deck (flip_call_card ?r))) = length (deck_cards (deck ?r)) - 1"
    using flip_cards by blast
  then show ?thesis
    using deal by (simp add: startNewRound_state dealt_state_def gs_def [symmetric] n_def [symmetric])
qed

theorem deal_exact_witness:
  "\<exists>c. callCard (eng_state (startNewRound 0 (sample_engine [] [] (Card STAR TWO)))) = Some c"
  using deal_exact [of "sample_engine [] [] (Card STAR TWO)" 0] by (simp add: default_config_def) blast

text \<open>C1: No card is ever duplicated.  From empty hands, after a new round and any sequence of
  actions whatever (valid or not, by anybody), the cards of deck, discard pile and hands together
  are part of the standard deck.\<close>

theorem no_card_duplicated:
  assumes "\<forall>p \<in> set (players (eng_state eng)). hand_cards (player_hand p) = []"
  shows "all_cards (eng_state (run_events engine_step (startNewRound now eng) acts)) \<subseteq># mset standard_cards"
proof (rule table_cards.run_events_inv)
  have "sum_list (map (\<lambda>p. mset (hand_cards (player_hand p))) ps) = {#}"
    if "\<forall>p \<in> set ps. hand_cards (player_hand p) = []" for ps
    using that by (induction ps) simp_all
  then have "hands_mset (eng_state eng) = {#}" using assms unfolding hands_mset_def by blast
  then have "all_cards (state_startRound (eng_state eng)) = mset standard_cards"
    by (simp add: startRound_cards)
  then show "all_cards (eng_state (startNewRound now eng)) \<subseteq># mset standard_cards"
    using flip_cards_le deal_rounds_all_cards_le
    by (metis startNewRound_state dealt_state_def subset_mset.order_trans)
qed

theorem no_card_duplicated_witness:
  "all_cards (eng_state (run_events engine_step (startNewRound 0 (sample_engine [] [] (Card STAR TWO)))
     [sample_action PLAY_CARD, sample_action DRAW_CARD])) \<subseteq># mset standard_cards"
  by (rule no_card_duplicated) simp

section \<open>Playing and drawing\<close>

lemma play_elim:
  assumes "processAction a eng = Some (r, eng')" "act_type a = PLAY_CARD" "res_success r"
  obtains idx i where "act_cardIndex a = Some idx" "getPlayer (act_playerId a) (eng_state eng) = Some i"
    "act_playerId a = getCurrentPlayerId (eng_state eng)" "playable_at eng i idx"
    "eng' = after_play (emitEvent ''card_played'' (state_toJson (eng_state (play_core i idx eng)))
       (play_core i idx eng))"
  using assms(1)
proof (cases rule: processAction_cases)
  case rejected
  then show ?thesis using assms(3) by (simp add: res_fail_def)
qed (use assms(2) that in auto)

lemma play_hands:
  assumes "playable_at eng i idx" "k < length (players (eng_state eng))"
    "getValue (hand_cards (hand_of (eng_state eng) i) ! idx) \<noteq> FOURTEEN \<or> k = i"
  shows "hand_of (eng_state (after_play (emitEvent ty j (play_core i idx eng)))) k =
    (if k = i then snd (hand_playCard idx (hand_of (eng_state eng) i)) else hand_of (eng_state eng) k)"
proof -
  let ?c = "hand_cards (hand_of (eng_state eng) i) ! idx"
  let ?put = "put_card i idx ?c (eng_state eng)"
  have "hand_of (special_state ?c i ?put) k = hand_of ?put k"
    using assms(3) special_state_quiet special_state_own_hand by metis
  moreover have "hand_of ?put k =
      (if k = i then snd (hand_playCard idx (hand_of (eng_state eng) i)) else hand_of (eng_state eng) k)"
    using assms(1) by (intro put_card_hand_of) (simp add: playable_at_def)
  ultimately show ?thesis
    using after_play_hand_of [of k "emitEvent ty j (play_core i idx eng)"] assms(2) by (simp add: Let_def)
qed

text \<open>C3: A successful play moves exactly one card.  The card at the chosen index, which the rules
  allowed, leaves the player's hand and becomes the call card, and no suit is demanded any more;
  unless it is a market card, it is the new top of the discard pile and deck and all other hands
  are as before.\<close>

theorem play_moves_card:
  assumes "processAction a eng = Some (r, eng')" "act_type a = PLAY_CARD" "res_success r"
  shows "\<exists>idx i c. act_cardIndex a = Some idx \<and> getPlayer (act_playerId a) (eng_state eng) = Some i \<and>
     hand_getCard (hand_of (eng_state eng) i) idx = Some c \<and>
     re_canPlayCard (eng_rules eng) (eng_state eng) (players (eng_state eng) ! i) c \<and>
     hand_cards (hand_of (eng_state eng') i) = erase_nth idx (hand_cards (hand_of (eng_state eng) i)) \<and>
     callCard (eng_state eng') = Some c \<and> demandedSuit (eng_state eng') = None \<and>
     (getValue c \<noteq> FOURTEEN \<longrightarrow>
        discardPile (eng_state eng') = discardPile (eng_state eng) @ [c] \<and>
        deck (eng_state eng') = deck (eng_state eng) \<and>
        (\<forall>k < length (players (eng_state eng)). k \<noteq> i \<longrightarrow>
           hand_of (eng_state eng') k = hand_of (eng_state eng) k))"
proof -
  from assms obtain idx i where p: "act_cardIndex a = Some idx"
    "getPlayer (act_playerId a) (eng_state eng) = Some i" "playable_at eng i idx"
    "eng' = after_play (emitEvent ''card_played'' (state_toJson (eng_state (play_core i idx eng)))
       (play_core i idx eng))" by (rule play_elim)
  let ?c = "hand_cards (hand_of (eng_state eng) i) ! idx"
  have own: "hand_of (eng_state eng') i = snd (hand_playCard idx (hand_of (eng_state eng) i))"
    unfolding p(4) using play_hands [OF p(3)] p(3) by (simp add: playable_at_def)
  have rest: "getValue ?c \<noteq> FOURTEEN \<longrightarrow>
        discardPile (eng_state eng') = discardPile (eng_state eng) @ [?c] \<and>
        deck (eng_state eng') = deck (eng_state eng)"
    unfolding p(4) by (simp add: Let_def special_state_quiet)
  have others: "getValue ?c \<noteq> FOURTEEN \<longrightarrow> (\<forall>k < length (players (eng_state eng)). k \<noteq> i \<longrightarrow>
           hand_of (eng_state eng') k = hand_of (eng_state eng) k)"
    unfolding p(4) using play_hands [OF p(3)] by auto
  have "demandedSuit (eng_state eng') = None"
    unfolding p(4) by (simp add: Let_def special_state_demanded)
  moreover have "callCard (eng_state eng') = Some ?c" unfolding p(4) by (simp add: Let_def)
  ultimately show ?thesis
    using p(1-3) own rest others
    by (intro exI [of _ idx] exI [of _ i] exI [of _ ?c])
      (simp add: hand_getCard_def playable_at_def hand_playCard_cards)
qed

theorem play_moves_card_witness:
  "\<exists>eng'. callCard (eng_state eng') = Some (Card STAR FIVE) \<and>
     processAction (sample_action PLAY_CARD) (sample_engine [Card STAR FIVE, Card CROSS ONE] [Card STAR ONE]
       (Card STAR TWO)) = Some (res_ok [''a''] (state_toJson (eng_state (play_core 0 0
         (sample_engine [Card STAR FIVE, Card CROSS ONE] [Card STAR ONE] (Card STAR TWO))))), eng')"
proof -
  have "canPlayOn (Card STAR FIVE) (Card STAR TWO)" by (simp add: canPlayOn_iff)
  from sample_play_success [OF this, of "[Card CROSS ONE]" "[Card STAR ONE]"] obtain eng' where e:
    "processAction (sample_action PLAY_CARD) (sample_engine [Card STAR FIVE, Card CROSS ONE] [Card STAR ONE]
       (Card STAR TWO)) = Some (res_ok [''a''] (state_toJson (eng_state (play_core 0 0
         (sample_engine [Card STAR FIVE, Card CROSS ONE] [Card STAR ONE] (Card STAR TWO))))), eng')" by blast
  show ?thesis
    using play_moves_card [OF e] e by (auto simp: res_ok_def hand_getCard_def)
qed

text \<open>C4: A successful draw.  With \<open>D\<close> the deck after the reshuffle that an empty deck triggers, the
  player takes the \<open>n\<close> top cards of \<open>D\<close> in the order drawn (all of them when there are fewer),
  where \<open>n\<close> is the pending pick count, or one without a pending pick; nobody else's hand
  changes, the pick is paid, and the turn passes on.\<close>

theorem draw_takes_top:
  assumes "processAction a eng = Some (r, eng')" "act_type a = DRAW_CARD" "res_success r"
  shows "\<exists>i. getPlayer (act_playerId a) (eng_state eng) = Some i \<and>
    (let gs = eng_state eng; gs' = eng_state eng';
         D = deck_cards (deck (if needsReshuffle gs then reshuffleDiscardPile gs else gs));
         rest = length D - nat (if 0 < activePickCount gs \<and> \<not> re_hasDefenseCard (eng_rules eng) gs (players gs ! i)
                                then activePickCount gs else 1)
     in hand_cards (hand_of gs' i) = hand_cards (hand_of gs i) @ rev (drop rest D) \<and>
        deck_cards (deck gs') = take rest D \<and>
        (\<forall>k < length (players gs). k \<noteq> i \<longrightarrow> players gs' ! k = players gs ! k) \<and>
        activePickCount gs' = 0 \<and> currentPlayerIndex gs' = getNextPlayerIndex gs)"
  using assms(1)
proof (cases rule: processAction_cases)
  case (draw j)
  show ?thesis
  proof (cases "getPlayer (act_playerId a) (eng_state eng)")
    case None
    then show ?thesis using draw(5) assms(3) by (simp add: handleDrawCard_def res_fail_def)
  next
    case (Some i)
    let ?gs = "eng_state eng"
    let ?g1 = "if needsReshuffle ?gs then reshuffleDiscardPile ?gs else ?gs"
    let ?n = "re_calculateDrawCount (eng_rules eng) ?gs (players ?gs ! i)"
    have i: "i < length (players ?g1)" using getPlayer_lt [OF Some] by simp
    have st: "eng_state eng' = advanceTurn (penalty_draw i ?n ?gs)"
      using handleDrawCard_state [OF draw(5)] Some by simp
    have pl: "players (penalty_draw i ?n ?gs) = players (draw_cards i (nat ?n) ?g1)"
      "deck (penalty_draw i ?n ?gs) = deck (draw_cards i (nat ?n) ?g1)"
      by (simp_all add: penalty_draw_def resetActivePickCount_def)
    have next_idx: "getNextPlayerIndex (penalty_draw i ?n ?gs) = getNextPlayerIndex ?gs"
      by (rule getNextPlayerIndex_cong) simp_all
    have "i < length (players (penalty_draw i ?n ?gs))" using getPlayer_lt [OF Some] by simp
    then have ne: "players (penalty_draw i ?n ?gs) \<noteq> []" by (metis list.size(3) not_less0)
    have "hand_cards (hand_of (eng_state eng') i) = hand_cards (hand_of ?gs i)
        @ rev (drop (length (deck_cards (deck ?g1)) - nat ?n) (deck_cards (deck ?g1)))"
      using draw_cards_hand [OF i, of "nat ?n"] unfolding st
      by (simp add: pl deck_src.draw_many_spec)
    moreover have "deck_cards (deck (eng_state eng')) =
        take (length (deck_cards (deck ?g1)) - nat ?n) (deck_cards (deck ?g1))"
      unfolding st by (simp add: pl draw_cards_deck deck_src.draw_many_spec)
    moreover have "\<forall>k < length (players ?gs). k \<noteq> i \<longrightarrow> players (eng_state eng') ! k = players ?gs ! k"
      using draw_cards_others [OF i] unfolding st by (simp add: pl)
    moreover have "currentPlayerIndex (eng_state eng') = getNextPlayerIndex ?gs"
      unfolding st by (simp add: currentPlayerIndex_advanceTurn [OF ne] next_idx)
    moreover have "activePickCount (eng_state eng') = 0" unfolding st by simp
    ultimately show ?thesis using Some unfolding Let_def re_calculateDrawCount_def [symmetric] by blast
  qed
qed (use assms(2,3) in \<open>auto simp: res_fail_def\<close>)

theorem draw_takes_top_witness:
  "\<exists>r eng'. processAction (sample_action DRAW_CARD) (sample_engine [Card CROSS ONE] [Card STAR ONE]
       (Card STAR TWO)) = Some (r, eng') \<and> activePickCount (eng_state eng') = 0"
proof -
  have "\<forall>c \<in> set [Card CROSS ONE]. \<not> canPlayOn c (Card STAR TWO)" by (simp add: canPlayOn_iff)
  from sample_draw_success [OF this, of "[Card STAR ONE]"] obtain r eng' where
    e: "processAction (sample_action DRAW_CARD) (sample_engine [Card CROSS ONE] [Card STAR ONE]
       (Card STAR TWO)) = Some (r, eng')" "res_success r" by blast
  show ?thesis using draw_takes_top [OF e(1) _ e(2)] e(1) by (auto simp: Let_def)
qed

section \<open>Who may act, and that somebody can\<close>

lemma current_id_empty_or:
  "getCurrentPlayerId gs = '''' \<or> getCurrentPlayer gs \<noteq> None"
  by (simp add: getCurrentPlayerId_def split: option.split)

lemma handlePlayCard_total: "handlePlayCard a eng \<noteq> None"
  by (simp add: handlePlayCard_def hand_getCard_def hand_length_def Let_def split: option.split)

text \<open>C40: An action is always answered, except for one dereference of a null pointer: a
  \<open>DRAW_CARD\<close> with the empty player id when there is no current player (the turn index is out of
  range).\<close>

theorem processAction_crash_iff:
  "processAction a eng = None \<longleftrightarrow>
     act_type a = DRAW_CARD \<and> act_playerId a = '''' \<and> getCurrentPlayer (eng_state eng) = None"
proof -
  have valid: "isValidAction eng a = None \<longleftrightarrow>
     act_type a = DRAW_CARD \<and> act_playerId a = '''' \<and> getCurrentPlayer (eng_state eng) = None"
    using current_id_empty_or [of "eng_state eng"]
    by (cases "act_type a")
      (auto simp: isValidAction_def hand_getCard_def hand_length_def getCurrentPlayerId_def Let_def
        split: option.splits)
  have "processAction a eng = None \<longleftrightarrow> isValidAction eng a = None"
    using handlePlayCard_total [of a eng]
    by (cases "act_type a") (auto simp: processAction_def split: option.split bool.split)
  with valid show ?thesis by simp
qed

text \<open>Only the player whose turn it is can act: everybody else's action, of whatever kind, is
  refused with the same message and leaves the whole engine as it was.\<close>

theorem only_current_player_acts:
  assumes "act_playerId a \<noteq> getCurrentPlayerId (eng_state eng)"
  shows "processAction a eng = Some (res_fail ''Invalid action'', eng)"
  using assms by (simp add: processAction_def isValidAction_def Let_def)

theorem only_current_player_acts_witness:
  "processAction ((sample_action DRAW_CARD)\<lparr>act_playerId := ''b''\<rparr>) (sample_engine [] [] (Card STAR TWO))
     = Some (res_fail ''Invalid action'', sample_engine [] [] (Card STAR TWO))"
  by (rule only_current_player_acts) simp

lemma getPlayer_distinct:
  assumes "distinct (map player_id (players gs))" "i < length (players gs)"
  shows "getPlayer (player_id (players gs ! i)) gs = Some i"
  unfolding getPlayer_def
  by (rule find_index_eqI) (use assms in \<open>auto simp: distinct_conv_nth\<close>)

text \<open>C7: A table is never stuck as long as no suit is demanded: the current player has a valid play
  or a valid draw, and the engine accepts it.\<close>

theorem current_player_can_move:
  assumes "index_ok (eng_state eng)" "distinct (map player_id (players (eng_state eng)))"
    "demandedSuit (eng_state eng) = None"
  shows "\<exists>a r eng'. act_type a \<in> {PLAY_CARD, DRAW_CARD} \<and>
     act_playerId a = getCurrentPlayerId (eng_state eng) \<and>
     processAction a eng = Some (r, eng') \<and> res_success r"
proof -
  let ?gs = "eng_state eng"
  obtain i where i: "getCurrentPlayer ?gs = Some i" using assms(1) by (auto simp: index_ok_current)
  then have lt: "i < length (players ?gs)" by (rule getCurrentPlayer_lt)
  let ?p = "players ?gs ! i"
  have pid: "getCurrentPlayerId ?gs = player_id ?p" by (simp add: getCurrentPlayerId_def i)
  have get: "getPlayer (player_id ?p) ?gs = Some i" by (rule getPlayer_distinct [OF assms(2) lt])
  let ?act = "\<lambda>ty idx. \<lparr>act_type = ty, act_playerId = player_id ?p, act_cardIndex = Some idx,
      act_chosenSuit = None, act_chosenDirection = None, act_metadata = ''''\<rparr>"
  show ?thesis
  proof (cases "re_mustDrawCard (eng_rules eng) ?gs ?p")
    case True
    then have "isValidAction eng (?act DRAW_CARD 0) = Some True"
      by (simp add: isValidAction_draw pid i)
    then show ?thesis
      by (intro exI [of _ "?act DRAW_CARD 0"])
        (simp add: processAction_def handleDrawCard_def get pid res_ok_def Let_def)
  next
    case False
    then have "re_hasPlayableCard (eng_rules eng) ?gs ?p" using draw_or_play [OF assms(3)] by blast
    then obtain idx where idx: "playable_at eng i idx"
      using lt by (auto simp: hasPlayableCard_iff playable_at_def)
    then have "isValidAction eng (?act PLAY_CARD idx) = Some True"
      by (simp add: isValidAction_play pid get)
    moreover have "handlePlayCard (?act PLAY_CARD idx) eng =
       (let core = play_core i idx eng; j = state_toJson (eng_state core)
        in Some (res_ok [player_id ?p] j, after_play (emitEvent ''card_played'' j core)))"
      using handlePlayCard_valid [of "?act PLAY_CARD idx" idx eng i] get idx by simp
    ultimately show ?thesis
      by (intro exI [of _ "?act PLAY_CARD idx"]) (simp add: processAction_def pid res_ok_def Let_def)
  qed
qed

theorem current_player_can_move_witness:
  "\<exists>a r eng'. act_type a \<in> {PLAY_CARD, DRAW_CARD} \<and>
     processAction a (sample_engine [Card STAR FIVE] [Card STAR ONE] (Card STAR TWO)) = Some (r, eng') \<and>
     res_success r"
  using current_player_can_move [of "sample_engine [Card STAR FIVE] [Card STAR ONE] (Card STAR TWO)"]
  by (auto simp: index_ok_def)

section \<open>Whose turn it is after a play\<close>

lemma checkRoundEnd_hands:
  "map player_hand (players gs) = map player_hand (players gs') \<Longrightarrow> checkRoundEnd gs = checkRoundEnd gs'"
proof -
  have "checkRoundEnd g = list_ex hand_isEmpty (map player_hand (players g))" for g
    by (simp add: checkRoundEnd_def list_ex_iff)
  then show "map player_hand (players gs) = map player_hand (players gs') \<Longrightarrow>
      checkRoundEnd gs = checkRoundEnd gs'" by simp
qed

lemma after_play_roundEnd:
  "checkRoundEnd (eng_state (after_play eng)) = checkRoundEnd (eng_state eng)"
  by (rule checkRoundEnd_hands) (rule after_play_hands)

lemma advanceTurn_index_cong:
  assumes "length (players gs') = length (players gs)" "direction gs' = direction gs"
    "currentPlayerIndex gs' = currentPlayerIndex gs"
  shows "currentPlayerIndex (advanceTurn gs') = currentPlayerIndex (advanceTurn gs)"
proof (cases "players gs = []")
  case True
  then show ?thesis using assms by (simp add: advanceTurn_def)
next
  case False
  then have "players gs' \<noteq> []" using assms(1) by auto
  then show ?thesis
    using False getNextPlayerIndex_cong [OF assms] by (simp add: currentPlayerIndex_advanceTurn)
qed

lemma special_state_index:
  "currentPlayerIndex (special_state c i gs) =
     currentPlayerIndex ((advanceTurn ^^ (if getValue c \<in> {ONE, EIGHT} then 1 else 0)) gs)"
  by (cases "getValue c") (simp_all add: special_state_def)

lemma after_play_turn:
  assumes "\<not> checkRoundEnd (eng_state eng)"
  shows "allowMultipleActions (eng_turn (after_play eng)) = allowMultipleActions (eng_turn eng)"
  using assms by (simp add: after_play_def canPlayAgain_def)

text \<open>C9: How far a play moves the turn while the round goes on.  An eight and a hold-on card move
  it one player further than usual; with a hold-on card, and then for every play until somebody
  draws, the usual step to the next player is left out.\<close>

theorem play_passes_turn:
  assumes "processAction a eng = Some (r, eng')" "act_type a = PLAY_CARD" "res_success r"
    "\<not> checkRoundEnd (eng_state eng')"
  shows "\<exists>c. callCard (eng_state eng') = Some c \<and>
    (let again = (allowMultipleActions (eng_turn eng) \<or> getValue c = ONE);
         steps = (if getValue c \<in> {ONE, EIGHT} then 1 else 0) + (if again then 0 else 1)
     in currentPlayerIndex (eng_state eng') = currentPlayerIndex ((advanceTurn ^^ steps) (eng_state eng)) \<and>
        allowMultipleActions (eng_turn eng') = again)"
proof -
  from assms(1-3) obtain idx i where p: "playable_at eng i idx"
    "eng' = after_play (emitEvent ''card_played'' (state_toJson (eng_state (play_core i idx eng)))
       (play_core i idx eng))" by (rule play_elim)
  let ?c = "hand_cards (hand_of (eng_state eng) i) ! idx"
  let ?put = "put_card i idx ?c (eng_state eng)"
  let ?core = "special_state ?c i ?put"
  have st: "eng_state (play_core i idx eng) = ?core" by (simp add: Let_def)
  have tn: "allowMultipleActions (eng_turn (play_core i idx eng)) =
      (allowMultipleActions (eng_turn eng) \<or> getValue ?c = ONE)"
    by (simp add: play_core_def Let_def)
  have core: "currentPlayerIndex ?core = currentPlayerIndex
      ((advanceTurn ^^ (if getValue ?c \<in> {ONE, EIGHT} then 1 else 0)) (eng_state eng))"
    unfolding special_state_index by (auto intro: advanceTurn_index_cong)
  have next_core: "currentPlayerIndex (advanceTurn ?core) = currentPlayerIndex
      (advanceTurn ((advanceTurn ^^ (if getValue ?c \<in> {ONE, EIGHT} then 1 else 0)) (eng_state eng)))"
    by (rule advanceTurn_index_cong) (simp_all add: core del: One_nat_def)
  have no_end: "\<not> checkRoundEnd ?core"
    using assms(4) unfolding p(2) after_play_roundEnd by (simp add: Let_def)
  have "callCard (eng_state eng') = Some ?c" unfolding p(2) by (simp add: Let_def)
  moreover have "allowMultipleActions (eng_turn eng') = (allowMultipleActions (eng_turn eng) \<or> getValue ?c = ONE)"
    unfolding p(2) using after_play_turn [of "emitEvent _ _ (play_core i idx eng)"] no_end tn by (simp add: Let_def)
  ultimately show ?thesis
    unfolding Let_def
    using core next_core no_end tn st unfolding p(2) by (simp add: after_play_state)
qed

lemma sample_play:
  assumes "canPlayOn c call" "getValue c \<noteq> FOURTEEN" "cs \<noteq> []" "bs \<noteq> []"
  shows "\<exists>r eng'. processAction (sample_action PLAY_CARD) (sample_engine (c # cs) bs call) = Some (r, eng') \<and>
    res_success r \<and> callCard (eng_state eng') = Some c \<and> \<not> checkRoundEnd (eng_state eng')"
proof -
  let ?e = "sample_engine (c # cs) bs call"
  obtain eng' where e: "processAction (sample_action PLAY_CARD) ?e =
        Some (res_ok [''a''] (state_toJson (eng_state (play_core 0 0 ?e))), eng')"
    using sample_play_success [OF assms(1)] by blast
  have eng': "eng' = after_play (emitEvent ''card_played'' (state_toJson (eng_state (play_core 0 0 ?e)))
       (play_core 0 0 ?e))"
    using e by (rule play_elim) (simp_all add: res_ok_def)
  have "\<not> checkRoundEnd (special_state c 0 (put_card 0 0 c (sample_state (c # cs) bs call)))"
    using assms(2-4)
    by (simp add: checkRoundEnd_iff special_state_quiet put_card_players modify_player_def
        take_from_hand_def hand_playCard_def erase_nth_def)
  then have "\<not> checkRoundEnd (eng_state eng')" "callCard (eng_state eng') = Some c"
    unfolding eng' after_play_roundEnd by (simp_all add: Let_def)
  then show ?thesis using e by (auto simp: res_ok_def)
qed

theorem play_passes_turn_witness:
  "\<exists>r eng'. processAction (sample_action PLAY_CARD)
       (sample_engine [Card STAR ONE, Card CROSS ONE] [Card STAR ONE] (Card STAR TWO)) = Some (r, eng') \<and>
     currentPlayerIndex (eng_state eng') = 1 \<and> allowMultipleActions (eng_turn eng')"
proof -
  obtain r eng' where e: "processAction (sample_action PLAY_CARD)
       (sample_engine [Card STAR ONE, Card CROSS ONE] [Card STAR ONE] (Card STAR TWO)) = Some (r, eng')"
    "res_success r" "callCard (eng_state eng') = Some (Card STAR ONE)" "\<not> checkRoundEnd (eng_state eng')"
    using sample_play [of "Card STAR ONE" "Card STAR TWO" "[Card CROSS ONE]" "[Card STAR ONE]"]
    by (auto simp: canPlayOn_iff)
  have "currentPlayerIndex (advanceTurn (sample_state [Card STAR ONE, Card CROSS ONE] [Card STAR ONE] (Card STAR TWO))) = 1"
    by (simp add: advanceTurn_def getNextPlayerIndex_def)
  then show ?thesis
    using play_passes_turn [OF e(1) _ e(2,4)] e(1,3) by (auto simp: Let_def)
qed

section \<open>The end of a round\<close>

lemma nth_modify_player:
  "k < length (players gs) \<Longrightarrow>
   players (modify_player i f gs) ! k = (if k = i then f (players gs ! k) else players gs ! k)"
  by (simp add: modify_player_def nth_list_update)

lemma fold_modify_nth:
  "distinct ks \<Longrightarrow> k < length (players gs) \<Longrightarrow>
   players (fold (\<lambda>j. modify_player j f) ks gs) ! k =
     (if k \<in> set ks then f (players gs ! k) else players gs ! k)"
proof (induction ks arbitrary: gs)
  case (Cons j ks)
  then show ?case by (auto simp: nth_modify_player)
qed simp

text \<open>The player of whom an action changes nothing but the hand.\<close>

definition sans_hand :: "Player \<Rightarrow> Player" where
  "sans_hand p = p\<lparr>player_hand := hand_new\<rparr>"

lemma modify_sans_hand:
  "(\<And>p. sans_hand (f p) = sans_hand p) \<Longrightarrow>
   map sans_hand (players (modify_player i f gs)) = map sans_hand (players gs)"
  by (simp add: modify_player_def map_update_same)

lemma fold_draw_sans_hand:
  "map sans_hand (players (fold draw_for ks gs)) = map sans_hand (players gs)"
proof (induction ks arbitrary: gs)
  case (Cons k ks)
  have "map sans_hand (players (draw_for k gs)) = map sans_hand (players gs)"
    using draw_for_shape [of k gs] modify_sans_hand [of "give_card _" k gs]
    by (auto simp: give_card_def sans_hand_def)
  then show ?case using Cons.IH by simp
qed simp

lemma play_core_sans_hand:
  "map sans_hand (players (eng_state (play_core i idx eng))) = map sans_hand (players (eng_state eng))"
proof -
  let ?c = "hand_cards (hand_of (eng_state eng) i) ! idx"
  let ?put = "put_card i idx ?c (eng_state eng)"
  have "map sans_hand (players (special_state ?c i ?put)) = map sans_hand (players ?put)"
    by (cases "getValue ?c") (simp_all add: special_state_def fold_draw_sans_hand)
  moreover have "map sans_hand (players ?put) = map sans_hand (players (eng_state eng))"
    by (simp add: put_card_players modify_sans_hand take_from_hand_def sans_hand_def)
  ultimately show ?thesis by (simp add: Let_def)
qed

lemma sans_hand_fields:
  assumes "sans_hand p = sans_hand q"
  shows "currentScore p = currentScore q" "cumulativeScore p = cumulativeScore q"
    "gamesPlayed p = gamesPlayed q" "gamesWon p = gamesWon q"
  using assms by (cases p; cases q; simp add: sans_hand_def)+

lemma score_round_nth:
  assumes "k < length (players gs)" "distinct (map player_id (players gs))"
  shows "players (score_round gs) ! k =
    (let p = (if getWinnerId gs = Some (player_id (players gs ! k))
              then incrementGamesWon (players gs ! k) else players gs ! k)
     in if player_status (players gs ! k) = ACTIVE then score_player p else p)"
proof -
  have win: "players (credit_winner gs) ! k =
      (if getWinnerId gs = Some (player_id (players gs ! k))
       then incrementGamesWon (players gs ! k) else players gs ! k)"
  proof (cases "getWinnerId gs")
    case None
    then show ?thesis by (simp add: credit_winner_def)
  next
    case (Some w)
    then obtain j where j: "j < length (players gs)" "w = player_id (players gs ! j)"
      by (auto simp: getWinnerId_def dest: find_index_lt)
    then have "getPlayer w gs = Some j" using getPlayer_distinct [OF assms(2)] by simp
    then show ?thesis
      using Some j assms by (auto simp: credit_winner_def nth_modify_player distinct_conv_nth)
  qed
  have act: "getActivePlayers (credit_winner gs) = getActivePlayers gs" by (rule roster_active) simp
  have "distinct (getActivePlayers gs)" by (simp add: getActivePlayers_def distinct_indices_where)
  then have "players (score_round gs) ! k =
      (if k \<in> set (getActivePlayers gs) then score_player (players (credit_winner gs) ! k)
       else players (credit_winner gs) ! k)"
    using fold_modify_nth [of "getActivePlayers gs" k "credit_winner gs" score_player] assms(1)
    by (simp add: score_round_def Let_def state_endRound_def act)
  then show ?thesis using win assms(1) by (simp add: Let_def set_getActivePlayers)
qed

text \<open>C10: A play that empties a hand ends the round.  Every active player is charged the score values of
  the cards still held (a star counts double), in the round score and in the total, and has one more game played; the
  winner is the first player with an empty hand and has one more game won; the turn stays where
  the effect of the card left it.\<close>

theorem round_end_scores:
  assumes "processAction a eng = Some (r, eng')" "act_type a = PLAY_CARD" "res_success r"
    and "checkRoundEnd (eng_state eng')" "distinct (map player_id (players (eng_state eng)))"
    and "k < length (players (eng_state eng))"
  shows "phase (eng_state eng') = ROUND_ENDED \<and>
    (let p = players (eng_state eng) ! k; p' = players (eng_state eng') ! k;
         active = (player_status p = ACTIVE);
         points = (if active then sum_list (map getScoreValue (hand_cards (player_hand p'))) else 0)
     in currentScore p' = currentScore p + points \<and> cumulativeScore p' = cumulativeScore p + points \<and>
        gamesPlayed p' = gamesPlayed p + (if active then 1 else 0) \<and>
        gamesWon p' = gamesWon p + (if getWinnerId (eng_state eng') = Some (player_id p) then 1 else 0))"
proof -
  from assms(1-3) obtain idx i where p: "playable_at eng i idx"
    "eng' = after_play (emitEvent ''card_played'' (state_toJson (eng_state (play_core i idx eng)))
       (play_core i idx eng))" by (rule play_elim)
  let ?core = "eng_state (play_core i idx eng)"
  have over: "checkRoundEnd ?core" using assms(4) unfolding p(2) after_play_roundEnd by simp
  have st: "eng_state eng' = score_round ?core"
    using over unfolding p(2) by (simp add: after_play_state del: play_core_state)
  have "map fst (roster ?core) = map fst (roster (eng_state eng))" by (simp add: Let_def)
  then have ids: "map player_id (players ?core) = map player_id (players (eng_state eng))"
    by (simp add: roster_def comp_def)
  have len: "k < length (players ?core)" using assms(6) by (simp add: Let_def)
  have ros: "player_status (players ?core ! k) = player_status (players (eng_state eng) ! k)"
      "player_id (players ?core ! k) = player_id (players (eng_state eng) ! k)"
    using roster_nth [of ?core "eng_state eng" k] len by (simp_all add: Let_def)
  have "map sans_hand (players ?core) ! k = map sans_hand (players (eng_state eng)) ! k"
    by (simp only: play_core_sans_hand)
  then have same: "sans_hand (players ?core ! k) = sans_hand (players (eng_state eng) ! k)"
    using len assms(6) by simp
  have win: "getWinnerId (score_round ?core) = getWinnerId ?core"
    by (simp only: getWinnerId_roster score_round_hands score_round_frame(2))
  show ?thesis
    unfolding st using score_round_nth [OF len] assms(5) ids ros sans_hand_fields [OF same] win
    by (simp add: Let_def score_player_def incrementGamesPlayed_def incrementGamesWon_def addToScore_def
        calculateHandScore_sum del: play_core_state)
qed

theorem round_end_scores_witness:
  "\<exists>r eng'. processAction (sample_action PLAY_CARD)
       (sample_engine [Card STAR FIVE] [Card STAR ONE, Card CROSS TEN] (Card STAR TWO)) = Some (r, eng') \<and>
     phase (eng_state eng') = ROUND_ENDED"
proof -
  let ?e = "sample_engine [Card STAR FIVE] [Card STAR ONE, Card CROSS TEN] (Card STAR TWO)"
  have "canPlayOn (Card STAR FIVE) (Card STAR TWO)" by (simp add: canPlayOn_iff)
  from sample_play_success [OF this, of Nil "[Card STAR ONE, Card CROSS TEN]"] obtain eng' where
    e: "processAction (sample_action PLAY_CARD) ?e =
        Some (res_ok [''a''] (state_toJson (eng_state (play_core 0 0 ?e))), eng')" by blast
  have eng': "eng' = after_play (emitEvent ''card_played'' (state_toJson (eng_state (play_core 0 0 ?e)))
       (play_core 0 0 ?e))"
    using e by (rule play_elim) (simp_all add: res_ok_def)
  have "checkRoundEnd (eng_state eng')"
    unfolding eng' after_play_roundEnd
    by (simp add: checkRoundEnd_iff special_state_quiet put_card_players modify_player_def
        take_from_hand_def hand_playCard_def erase_nth_def Let_def)
  then show ?thesis using round_end_scores [OF e, of 0] e by (auto simp: res_ok_def)
qed

section \<open>Phases, penalties and events\<close>

lemma process_phase:
  assumes "processAction a eng = Some (r, eng')"
  shows "phase (eng_state eng') \<in> {phase (eng_state eng), ROUND_ENDED}"
  using assms
proof (cases rule: processAction_cases)
  case (play idx i)
  then show ?thesis by (simp add: after_play_state Let_def)
next
  case (draw i)
  then show ?thesis by (simp add: handleDrawCard_state split: option.split)
next
  case declares
  then show ?thesis by (simp add: handleDeclaration_state split: option.split)
next
  case (suit s)
  then show ?thesis by (simp add: handleSuitChoice_state [OF suit(4,2)] reverseDirection_def Let_def)
qed simp

lemma step_phase: "phase (eng_state (engine_step eng a)) \<in> {phase (eng_state eng), ROUND_ENDED}"
  using process_phase [of a eng] by (auto simp: engine_step_def split: option.split)

interpretation table_phase: event_invariant engine_step "\<lambda>eng. phase (eng_state eng) \<in> {ph, ROUND_ENDED}" for ph
proof
  fix s e
  show "phase (eng_state s) \<in> {ph, ROUND_ENDED} \<Longrightarrow> phase (eng_state (engine_step s e)) \<in> {ph, ROUND_ENDED}"
    using step_phase [of s e] by auto
qed

text \<open>C8: Play never ends the game.  Whatever actions are sent, in whatever order, from a new round
  on, the phase is \<open>IN_PROGRESS\<close> or \<open>ROUND_ENDED\<close>, there is a current player, the same players sit
  at the table with the same status (nobody is ever eliminated by play), and every hand's size
  agrees with its cards.\<close>

theorem play_invariants:
  assumes "players (eng_state eng) \<noteq> []" "hands_ok (eng_state eng)"
  shows "let gs' = eng_state (run_events engine_step (startNewRound now eng) acts)
     in phase gs' \<in> {IN_PROGRESS, ROUND_ENDED} \<and> getCurrentPlayer gs' \<noteq> None \<and>
        roster gs' = roster (eng_state eng) \<and> hands_ok gs'"
proof -
  let ?e = "startNewRound now eng"
  have start: "phase (eng_state ?e) = IN_PROGRESS" "index_ok (eng_state ?e)" "roster (eng_state ?e) = roster (eng_state eng)"
    using assms(1) by (simp_all add: startNewRound_state index_ok_def)
  have ok: "hands_ok (state_startRound (eng_state eng))"
    using assms(2) by (auto simp: hands_ok_def state_startRound_def)
  have deal: "hands_ok gs \<Longrightarrow> hands_ok ((deal_round ^^ n) gs)" for gs n
    by (induction n) (simp_all add: deal_round_def hands_ok_fold_draw)
  have "hands_ok (eng_state ?e)"
    using deal [OF ok] hands_ok_cong [of "flip_call_card _"]
    by (simp add: startNewRound_state dealt_state_def)
  then show ?thesis
    using table_phase.run_events_inv [of ?e IN_PROGRESS acts] table_index.run_events_inv [of ?e acts]
      table_seats.run_events_inv [of ?e "roster (eng_state eng)" acts] table_hands.run_events_inv [of ?e acts]
      start by (simp add: Let_def index_ok_current)
qed

theorem play_invariants_witness:
  "getCurrentPlayer (eng_state (run_events engine_step
     (startNewRound 0 (sample_engine [] [] (Card STAR TWO))) [sample_action DRAW_CARD])) \<noteq> None"
  using play_invariants [of "sample_engine [] [] (Card STAR TWO)" 0 "[sample_action DRAW_CARD]"]
  by (simp add: hands_ok_def Let_def)

section \<open>Effects and events\<close>

lemma market_put_card: "market_players i (put_card i idx c gs) = market_players i gs"
proof -
  have m: "market_players i g =
      filter (\<lambda>k. fst (roster g ! k) \<noteq> fst (roster g ! i)) (getActivePlayers g)" if "i < length (players g)" for g
    using that unfolding market_players_def
    by (intro filter_cong) (auto simp: roster_def set_getActivePlayers)
  show ?thesis
  proof (cases "i < length (players gs)")
    case True
    then show ?thesis using m [of gs] m [of "put_card i idx c gs"] roster_active [of "put_card i idx c gs" gs] by simp
  next
    case False
    then have "players (put_card i idx c gs) = players gs"
      by (simp add: put_card_players modify_player_def list_update_beyond)
    then show ?thesis by (simp add: market_players_def getActivePlayers_def)
  qed
qed

text \<open>A market card gives one card to every other active player (as long as the deck has enough)
  and to nobody else, and they are taken from the deck.\<close>

theorem market_deals:
  assumes "processAction a eng = Some (r, eng')" "act_type a = PLAY_CARD" "res_success r"
    and "callCard (eng_state eng') = Some c" "getValue c = FOURTEEN"
    and "getPlayer (act_playerId a) (eng_state eng) = Some i"
    and "length (market_players i (eng_state eng)) \<le> length (deck_cards (deck (eng_state eng)))"
  shows "length (deck_cards (deck (eng_state eng'))) =
      length (deck_cards (deck (eng_state eng))) - length (market_players i (eng_state eng)) \<and>
    discardPile (eng_state eng') = discardPile (eng_state eng) @ [c] \<and>
    (\<forall>k < length (players (eng_state eng)). k \<noteq> i \<longrightarrow>
       hand_length (hand_of (eng_state eng') k) =
         hand_length (hand_of (eng_state eng) k) + (if k \<in> set (market_players i (eng_state eng)) then 1 else 0))"
proof -
  let ?gs = "eng_state eng"
  from assms(1-3) obtain idx j where p: "getPlayer (act_playerId a) ?gs = Some j" "playable_at eng j idx"
    "eng' = after_play (emitEvent ''card_played'' (state_toJson (eng_state (play_core j idx eng)))
       (play_core j idx eng))" by (rule play_elim)
  have i: "j = i" using p(1) assms(6) by simp
  have c: "hand_cards (hand_of ?gs i) ! idx = c"
    using assms(4) unfolding p(3) i by (simp add: Let_def)
  let ?put = "put_card i idx c ?gs"
  let ?ks = "market_players i ?gs"
  have lt: "i < length (players ?gs)" using p(2) i by (simp add: playable_at_def)
  have core: "eng_state (play_core j idx eng) = fold draw_for ?ks ?put"
    using assms(5) c i by (simp add: Let_def special_state_def market_put_card)
  have "distinct ?ks" by (simp add: market_players_def getActivePlayers_def distinct_indices_where)
  then have deal: "length (deck_cards (deck (fold draw_for ?ks ?put))) = length (deck_cards (deck ?gs)) - length ?ks"
    "discardPile (fold draw_for ?ks ?put) = discardPile ?gs @ [c]"
    "\<forall>k < length (players ?gs). length (hand_cards (hand_of (fold draw_for ?ks ?put) k)) =
       length (hand_cards (hand_of ?put k)) + (if k \<in> set ?ks then 1 else 0)"
    using fold_draw_for_deal [of ?ks ?put] market_players_lt [of _ i ?gs] assms(7) by auto
  have "hand_of (eng_state eng') k = hand_of (fold draw_for ?ks ?put) k" if "k < length (players ?gs)" for k
    unfolding p(3) using after_play_hand_of [of k "emitEvent _ _ (play_core j idx eng)"] core that
    by (simp del: play_core_state)
  then show ?thesis
    using deal put_card_hand_of [OF lt, of idx c] unfolding p(3)
    by (simp add: core hand_length_def del: play_core_state)
qed

theorem market_deals_witness:
  "\<exists>r eng'. processAction (sample_action PLAY_CARD)
       (sample_engine [Card STAR FOURTEEN, Card CROSS ONE] [Card STAR ONE] (Card STAR TWO)) = Some (r, eng') \<and>
     length (deck_cards (deck (eng_state eng'))) = 1"
proof -
  let ?e = "sample_engine [Card STAR FOURTEEN, Card CROSS ONE] [Card STAR ONE] (Card STAR TWO)"
  have "canPlayOn (Card STAR FOURTEEN) (Card STAR TWO)" by (simp add: canPlayOn_iff)
  from sample_play_success [OF this, of "[Card CROSS ONE]" "[Card STAR ONE]"] obtain eng' where
    e: "processAction (sample_action PLAY_CARD) ?e =
        Some (res_ok [''a''] (state_toJson (eng_state (play_core 0 0 ?e))), eng')" by blast
  have eng': "eng' = after_play (emitEvent ''card_played'' (state_toJson (eng_state (play_core 0 0 ?e)))
       (play_core 0 0 ?e))"
    using e by (rule play_elim) (simp_all add: res_ok_def)
  have call: "callCard (eng_state eng') = Some (Card STAR FOURTEEN)"
    unfolding eng' by (simp add: Let_def)
  have "market_players 0 (eng_state ?e) = [1]" by (simp add: market_players_def)
  then show ?thesis using market_deals [OF e _ _ call, of 0] e by (simp add: res_ok_def)
qed

text \<open>A two adds two and a five adds three to the pending pick; every other card leaves the
  pending pick where it was (only a draw pays it).\<close>

theorem pick_count_after_play:
  assumes "processAction a eng = Some (r, eng')" "act_type a = PLAY_CARD" "res_success r"
  shows "\<exists>c. callCard (eng_state eng') = Some c \<and> activePickCount (eng_state eng') =
     activePickCount (eng_state eng) + (case getValue c of TWO \<Rightarrow> 2 | FIVE \<Rightarrow> 3 | _ \<Rightarrow> 0)"
proof -
  from assms obtain idx i where p:
    "eng' = after_play (emitEvent ''card_played'' (state_toJson (eng_state (play_core i idx eng)))
       (play_core i idx eng))" by (rule play_elim)
  let ?c = "hand_cards (hand_of (eng_state eng) i) ! idx"
  have "activePickCount (special_state ?c i (put_card i idx ?c (eng_state eng))) =
      activePickCount (eng_state eng) + (case getValue ?c of TWO \<Rightarrow> 2 | FIVE \<Rightarrow> 3 | _ \<Rightarrow> 0)"
    by (cases "getValue ?c") (simp_all add: special_state_def)
  then show ?thesis unfolding p by (simp add: Let_def)
qed

theorem pick_count_after_play_witness:
  "\<exists>r eng'. processAction (sample_action PLAY_CARD)
       (sample_engine [Card STAR FIVE, Card CROSS ONE] [Card STAR ONE] (Card STAR TWO)) = Some (r, eng') \<and>
     activePickCount (eng_state eng') = 3"
proof -
  obtain r eng' where e: "processAction (sample_action PLAY_CARD)
       (sample_engine [Card STAR FIVE, Card CROSS ONE] [Card STAR ONE] (Card STAR TWO)) = Some (r, eng')"
    "res_success r" "callCard (eng_state eng') = Some (Card STAR FIVE)"
    using sample_play [of "Card STAR FIVE" "Card STAR TWO" "[Card CROSS ONE]" "[Card STAR ONE]"]
    by (auto simp: canPlayOn_iff)
  then show ?thesis using pick_count_after_play [OF e(1) _ e(2)] by auto
qed

lemma calls_for_emit [simp]: "calls_for k ty j (emitEvent ty' j' eng) = calls_for k ty j eng"
  by (simp add: calls_for_def)

lemma calls_for_cong: "eng_callbacks e = eng_callbacks e' \<Longrightarrow> calls_for k ty j e = calls_for k ty j e'"
  by (simp add: calls_for_def)

text \<open>C28: The events of a play, in order: \<open>card_played\<close> to its own callbacks and then to the
  catch-all ones, with the state that is also in the answer; then, only when the round is over,
  \<open>round_ended\<close> with the final, scored state.\<close>

theorem events_of_play:
  assumes "processAction a eng = Some (r, eng')" "act_type a = PLAY_CARD" "res_success r"
  shows "\<exists>j. res_newStateJson r = Some j \<and>
    eng_calls eng' = eng_calls eng
      @ calls_for ''card_played'' ''card_played'' j eng @ calls_for ''*'' ''card_played'' j eng
      @ (if checkRoundEnd (eng_state eng')
         then calls_for ''round_ended'' ''round_ended'' (state_toJson (eng_state eng')) eng
            @ calls_for ''*'' ''round_ended'' (state_toJson (eng_state eng')) eng
         else [])"
  using assms(1)
proof (cases rule: processAction_cases)
  case (play idx i)
  define core where "core = play_core i idx eng"
  define j where "j = state_toJson (eng_state core)"
  have eng': "eng' = after_play (emitEvent ''card_played'' j core)"
    and r: "res_newStateJson r = Some j"
    using play(6,7) by (simp_all add: j_def core_def res_ok_def del: play_core_state)
  have core_calls: "eng_calls core = eng_calls eng" "eng_callbacks core = eng_callbacks eng"
    by (simp_all add: core_def play_core_def Let_def executeSpecialCard_def)
  have calls: "calls_for k ty x core = calls_for k ty x eng" for k ty x
    by (rule calls_for_cong) (rule core_calls(2))
  have cond: "checkRoundEnd (eng_state eng') = checkRoundEnd (eng_state core)"
    unfolding eng' after_play_roundEnd by simp
  have calls_st: "calls_for k ty x (on_state f e) = calls_for k ty x e" for k ty x f e
    by (rule calls_for_cong) simp
  show ?thesis
  proof (cases "checkRoundEnd (eng_state core)")
    case True
    then show ?thesis
      using r cond by (simp add: eng' after_play_def emitEvent_def Let_def core_calls calls calls_st [symmetric])
        (simp add: calls_for_def core_calls)
  next
    case False
    then show ?thesis
      using r cond by (simp add: eng' after_play_def emitEvent_def Let_def core_calls calls end_turn_def endTurn_def)
  qed
qed (use assms(2,3) in \<open>auto simp: res_fail_def\<close>)

theorem events_of_play_witness:
  "\<exists>r eng' j. processAction (sample_action PLAY_CARD)
       (sample_engine [Card STAR FIVE, Card CROSS ONE] [Card STAR ONE] (Card STAR TWO)) = Some (r, eng') \<and>
     res_newStateJson r = Some j"
proof -
  obtain r eng' where e: "processAction (sample_action PLAY_CARD)
       (sample_engine [Card STAR FIVE, Card CROSS ONE] [Card STAR ONE] (Card STAR TWO)) = Some (r, eng')"
    "res_success r"
    using sample_play [of "Card STAR FIVE" "Card STAR TWO" "[Card CROSS ONE]" "[Card STAR ONE]"]
    by (auto simp: canPlayOn_iff)
  then show ?thesis using events_of_play [OF e(1) _ e(2)] by auto
qed

end
