(* ===== verification/Whot_CoreProps.thy ===== *)
theory Whot_CoreProps
  imports Whot_EngineInv Whot_Samples
begin

text \<open>
  The properties of the components below the engine: the deck, hands, rules, turn order, scores,
  turn history, the textual formats, and the JSON forms of a state.
\<close>

section \<open>The deck\<close>

definition all_suits :: "Suit list" where
  "all_suits = [CIRCLE, TRIANGLE, CROSS, BLOCK, STAR, WHOT]"

definition all_values :: "CardValue list" where
  "all_values = [ONE, TWO, THREE, FOUR, FIVE, SEVEN, EIGHT, TEN, ELEVEN, TWELVE, THIRTEEN, FOURTEEN, TWENTY]"

definition copies :: "Suit \<Rightarrow> CardValue \<Rightarrow> nat" where
  "copies s v =
     (case s of
        WHOT \<Rightarrow> if v = TWENTY then 5 else 0
      | STAR \<Rightarrow> if v \<in> {ONE, TWO, THREE, FOUR, FIVE, SEVEN, EIGHT} then 1 else 0
      | CROSS \<Rightarrow> if v \<in> {FOUR, EIGHT, TWELVE, TWENTY} then 0 else 1
      | BLOCK \<Rightarrow> if v \<in> {FOUR, EIGHT, TWELVE, TWENTY} then 0 else 1
      | _ \<Rightarrow> if v = TWENTY then 0 else 1)"

lemma standard_copies: "count_list standard_cards (Card s v) = copies s v"
proof -
  have "list_all (\<lambda>s. list_all (\<lambda>v. count_list standard_cards (Card s v) = copies s v) all_values) all_suits"
    by code_simp
  moreover have "s \<in> set all_suits" "v \<in> set all_values"
    by (cases s; simp add: all_suits_def) (cases v; simp add: all_values_def)
  ultimately show ?thesis by (simp add: list_all_iff)
qed

text \<open>The composition of a deck, for every seed: twelve circles and triangles, nine crosses and
  blocks, seven stars (each number once) and five Whot cards.\<close>

theorem deck_composition:
  "count (mset (deck_cards (deck_new seed))) (Card s v) = copies s v \<and>
   length (deck_cards (deck_new seed)) = 54"
proof -
  have "mset (deck_cards (deck_new seed)) = mset standard_cards"
    by (simp add: deck_new_def deck_shuffle_mset deck_cards_createDeck)
  moreover have "length (deck_cards (deck_new seed)) = 54"
    by (simp add: deck_new_def deck_cards_createDeck length_standard_cards)
  ultimately show ?thesis by (simp add: standard_copies count_mset)
qed

text \<open>Shuffling is exactly as random as it can be: the orders the deck can come out in, over all
  generators, are the permutations of its cards, and nothing else.\<close>

theorem deck_shuffle_exact:
  "(\<exists>r. deck_cards (deck_shuffle (d\<lparr>deck_rng := r\<rparr>)) = ys) \<longleftrightarrow> mset ys = mset (deck_cards d)"
proof
  assume "\<exists>r. deck_cards (deck_shuffle (d\<lparr>deck_rng := r\<rparr>)) = ys"
  then show "mset ys = mset (deck_cards d)"
    by (auto simp: deck_shuffle_def split_beta Let_def std_shuffle_mset)
next
  assume "mset ys = mset (deck_cards d)"
  then obtain r where "fst (std_shuffle (deck_cards d) r) = ys" using std_shuffle_complete by blast
  then show "\<exists>r. deck_cards (deck_shuffle (d\<lparr>deck_rng := r\<rparr>)) = ys"
    by (auto simp: deck_shuffle_def split_beta Let_def)
qed

text \<open>Turning the discard pile over adds to the deck every discarded card except all copies of
  the call card, and empties the pile; without a call card nothing happens.\<close>

theorem reshuffle_discard:
  "case callCard gs of
     None \<Rightarrow> reshuffleDiscardPile gs = gs
   | Some c \<Rightarrow>
       mset (deck_cards (deck (reshuffleDiscardPile gs))) =
         mset (deck_cards (deck gs)) + filter_mset (\<lambda>x. x \<noteq> c) (mset (discardPile gs)) \<and>
       discardPile (reshuffleDiscardPile gs) = []"
  by (cases "callCard gs") (simp_all add: reshuffleDiscardPile_def reshuffle_mset)

section \<open>Hands\<close>

text \<open>Playing by value takes the first equal card, and adding a card back restores the cards
  (up to order); a card that is not held changes nothing.\<close>

theorem play_then_add:
  "case hand_playCard_eq c h of
     (None, h') \<Rightarrow> h' = h \<and> \<not> hand_hasCard h c
   | (Some d, h') \<Rightarrow> d = c \<and> hand_length h = Suc (hand_length h') \<and>
       mset (hand_cards (hand_addCard (Some d) h')) = mset (hand_cards h)"
proof (cases "find_index (\<lambda>x. card_eq x c) (hand_cards h)")
  case None
  then have "hand_playCard_eq c h = (None, h)" by (simp only: hand_playCard_eq_def option.case)
  moreover have "\<not> hand_hasCard h c" using None by (auto simp: hand_hasCard_def list_ex_iff)
  ultimately show ?thesis by simp
next
  case (Some i)
  then have i: "i < length (hand_cards h)" "hand_cards h ! i = c"
    using find_index_Some by fastforce+
  obtain h' where h': "hand_playCard i h = (Some c, h')"
    using hand_playCard_some [OF i(1)] i(2) by (cases "hand_playCard i h") simp
  have "mset (hand_cards h) = add_mset c (mset (hand_cards h'))"
    using hand_playCard_mset [OF i(1)] i(2) h' by simp
  moreover then have "length (hand_cards h) = Suc (length (hand_cards h'))"
    by (metis mset.simps(2) length_Cons mset_eq_length)
  ultimately show ?thesis
    by (simp add: hand_playCard_eq_def Some h' hand_length_def del: card_eq_iff)
qed

text \<open>The score of a hand is the sum of its cards' scores, stars counting double, and lies between
  one and forty points a card.\<close>

theorem hand_score:
  "calculateTotalScore h = (\<Sum>c \<leftarrow> hand_cards h. (if getSuit c = STAR then 2 else 1) * getNumericValue c) \<and>
   int (hand_length h) \<le> calculateTotalScore h \<and> calculateTotalScore h \<le> 40 * int (hand_length h)"
proof -
  have "getScoreValue = (\<lambda>c. (if getSuit c = STAR then 2 else 1) * getNumericValue c)"
    by (rule ext) (simp add: getScoreValue_def isStarCard_def getInnerStarValue_def)
  then show ?thesis
    using sum_scores_bounds [of "hand_cards h"] by (simp add: calculateTotalScore_sum hand_length_def)
qed

section \<open>Rules\<close>

text \<open>What may be played: a Whot card always; another card, when a suit is demanded, exactly if it
  has that suit, and otherwise exactly if it shares suit or number with the call card.\<close>

theorem can_play_spec:
  "rules_canPlayCard ru c call p demanded \<longleftrightarrow>
     getValue c = TWENTY \<or>
     (case demanded of
        Some s \<Rightarrow> getSuit c = s
      | None \<Rightarrow> getSuit c = getSuit call \<or> getValue c = getValue call)"
  by (auto simp: rules_canPlayCard_def isWhotCard_iff matchesSuit_def canPlayOn_iff split: option.split)

text \<open>A double decking is allowed exactly when the variant allows it, at least one card is put
  down, the first can be played on the call card, and all have the number of the first.\<close>

theorem double_decking_spec:
  "validateDoubleDecking ru cs call \<longleftrightarrow>
     rules_allowDoubleDecking ru \<and> cs \<noteq> [] \<and> canPlayOn (hd cs) call \<and>
     list_all (\<lambda>c. getNumericValue c = getNumericValue (hd cs)) cs"
  by (cases cs) (auto simp: validateDoubleDecking_def decking_loop_all decking_number_eq list_all_iff)

section \<open>Turn order\<close>

lemma advance_index:
  assumes "index_ok gs"
  shows "currentPlayerIndex (advanceTurn gs) =
    (currentPlayerIndex gs + (if direction gs = CLOCKWISE then 1 else - 1)) mod int (length (players gs))"
proof -
  let ?n = "int (length (players gs))"
  have "0 < ?n" "0 \<le> currentPlayerIndex gs" "players gs \<noteq> []"
    using assms by (auto simp: index_ok_def)
  then have "0 \<le> currentPlayerIndex gs - 1 + ?n" "0 \<le> currentPlayerIndex gs + 1 + ?n" by linarith+
  moreover have "(currentPlayerIndex gs - 1 + ?n) mod ?n = (currentPlayerIndex gs + (- 1)) mod ?n"
    "(currentPlayerIndex gs + 1 + ?n) mod ?n = (currentPlayerIndex gs + 1) mod ?n"
    by (simp_all only: mod_add_self2) simp
  ultimately show ?thesis
    using \<open>players gs \<noteq> []\<close> \<open>0 < ?n\<close>
    by (simp add: currentPlayerIndex_advanceTurn getNextPlayerIndex_def Let_def)
qed

text \<open>The turn goes round the table: \<open>k\<close> advances move it \<open>k\<close> places in the direction of play,
  modulo the number of players (so a full circle returns to the same player).\<close>

theorem turn_order_cycle:
  assumes "index_ok gs"
  shows "currentPlayerIndex ((advanceTurn ^^ k) gs) =
     (currentPlayerIndex gs + (if direction gs = CLOCKWISE then int k else - int k)) mod int (length (players gs))"
proof (induction k)
  case 0
  then show ?case using assms by (simp add: index_ok_def)
next
  case (Suc k)
  let ?g = "(advanceTurn ^^ k) gs"
  have "index_ok ?g"
    by (induction k) (simp_all add: assms index_ok_advance)
  then have "currentPlayerIndex (advanceTurn ?g) =
      (currentPlayerIndex ?g + (if direction gs = CLOCKWISE then 1 else - 1)) mod int (length (players gs))"
    using advance_index [of ?g] by simp
  then show ?case using Suc.IH by (simp add: mod_simps algebra_simps)
qed

theorem turn_order_cycle_witness:
  "currentPlayerIndex ((advanceTurn ^^ 5) (sample_state [] [] (Card STAR TWO))) = 1"
  using turn_order_cycle [of "sample_state [] [] (Card STAR TWO)" 5] by (simp add: index_ok_def)

section \<open>Scores\<close>

text \<open>The winner of a round: the first player with an empty hand, and if there is none, the first
  of the players with the lowest round score.\<close>

theorem round_winner_spec:
  assumes "ps \<noteq> []" "\<forall>p \<in> set ps. currentScore p < INT_MAX"
  shows "\<exists>i < length ps. determineRoundWinner ps = player_id (ps ! i) \<and>
     (if \<exists>p \<in> set ps. hand_isEmpty (player_hand p)
      then hand_isEmpty (player_hand (ps ! i)) \<and> (\<forall>j < i. \<not> hand_isEmpty (player_hand (ps ! j)))
      else (\<forall>q \<in> set ps. currentScore (ps ! i) \<le> currentScore q) \<and>
           (\<forall>j < i. currentScore (ps ! i) < currentScore (ps ! j)))"
proof (cases "find_index (\<lambda>p. hand_isEmpty (player_hand p)) ps")
  case None
  let ?f = "\<lambda>p. - currentScore p"
  let ?b = "(hd ps)\<lparr>player_id := ''''\<rparr>"
  have "determineRoundWinner ps = player_id (scan_max ?f (- INT_MAX) ?b ps)"
    using None
    by (simp add: determineRoundWinner_def find_index_none min_score_loop_scan [of _ ?b] scan_min_scan_max)
  moreover have "\<not> (\<forall>p \<in> set ps. ?f p \<le> - INT_MAX)" using assms by (cases ps) force+
  ultimately show ?thesis
    using scan_max_first [of ?f "- INT_MAX" ?b ps] None by fastforce
next
  case (Some i)
  then show ?thesis using find_index_Some [OF Some]
    by (intro exI [of _ i]) (auto simp: determineRoundWinner_def)
qed

theorem round_winner_spec_witness:
  "determineRoundWinner [sample_player ''a'' [Card STAR ONE], sample_player ''b'' []] = ''b''"
  using round_winner_spec [of "[sample_player ''a'' [Card STAR ONE], sample_player ''b'' []]"]
  by (auto simp: INT_MAX_def less_Suc_eq)

text \<open>The winner of a game: the first of the players who won the most rounds.\<close>

theorem game_winner_spec:
  assumes "ps \<noteq> []" "\<forall>p \<in> set ps. 0 \<le> gamesWon p"
  shows "\<exists>i < length ps. determineGameWinner ps = player_id (ps ! i) \<and>
     (\<forall>q \<in> set ps. gamesWon q \<le> gamesWon (ps ! i)) \<and> (\<forall>j < i. gamesWon (ps ! j) < gamesWon (ps ! i))"
proof -
  let ?b = "(hd ps)\<lparr>player_id := ''''\<rparr>"
  have "determineGameWinner ps = player_id (scan_max gamesWon (- 1) ?b ps)"
    by (simp add: determineGameWinner_def max_won_loop_scan)
  moreover have "\<not> (\<forall>p \<in> set ps. gamesWon p \<le> - 1)" using assms by (cases ps) force+
  ultimately show ?thesis using scan_max_first [of gamesWon "- 1" ?b ps] by auto
qed

theorem game_winner_spec_witness: "determineGameWinner [sample_player ''a'' []] = ''a''"
  using game_winner_spec [of "[sample_player ''a'' []]"] by auto

section \<open>Turn history and timers\<close>

text \<open>The history keeps the last hundred actions: after any sequence of recorded actions it is
  the last hundred of them, in order, and \<open>getTurnHistory\<close> returns the oldest ones of these.\<close>

theorem history_last_hundred:
  "actionHistory (run_events (\<lambda>tm a. recordAction a tm) (turn_new now) as) = drop (length as - 100) as \<and>
   (0 \<le> n \<and> n < 2 ^ 64 \<longrightarrow>
    getTurnHistory n (run_events (\<lambda>tm a. recordAction a tm) (turn_new now) as) =
      take (nat n) (drop (length as - 100) as))"
proof -
  have "length (actionHistory tm) \<le> 100 \<Longrightarrow>
      actionHistory (run_events (\<lambda>tm a. recordAction a tm) tm as) =
      drop (length (actionHistory tm @ as) - 100) (actionHistory tm @ as)" for tm
  proof (induction as arbitrary: tm)
    case (Cons a as)
    let ?h = "actionHistory tm"
    have "length (actionHistory (recordAction a tm)) \<le> 100"
      using history.estep_inv [of tm a] Cons.prems by (simp add: history_ok_def)
    then have "actionHistory (run_events (\<lambda>tm a. recordAction a tm) (recordAction a tm) as) =
        drop (length (drop (length ?h - 99) ?h @ a # as) - 100) (drop (length ?h - 99) ?h @ a # as)"
      using Cons.IH [of "recordAction a tm"] by (simp add: recordAction_history)
    also have "\<dots> = drop (length (?h @ a # as) - 100) (?h @ a # as)"
      using Cons.prems by (cases "length ?h = 100") auto
    finally show ?case by simp
  qed simp
  from this [of "turn_new now"] show ?thesis
    by (simp add: turn_new_def getTurnHistory_take to_size_t_def)
qed

theorem history_last_hundred_witness:
  "getTurnHistory 10 (run_events (\<lambda>tm a. recordAction a tm) (turn_new 0)
     [\<lparr>ta_playerId = ''a'', ta_action = DRAW_CARD, ta_timestamp = 0, ta_completed = True\<rparr>]) =
   [\<lparr>ta_playerId = ''a'', ta_action = DRAW_CARD, ta_timestamp = 0, ta_completed = True\<rparr>]"
  using history_last_hundred [of 0 "[\<lparr>ta_playerId = ''a'', ta_action = DRAW_CARD, ta_timestamp = 0, ta_completed = True\<rparr>]" 10]
  by simp

text \<open>The remaining time of a turn lies between zero and the limit, falls as the clock runs, and
  is zero exactly when the turn has expired; without a limit it is the constant 9999.\<close>

theorem remaining_time:
  assumes "turnStartTime tm \<le> now" "now - turnStartTime tm < 2 ^ 31 * 1000000000" "turnTimeSeconds (config gs) < 2 ^ 31"
  shows "(if turnTimeSeconds (config gs) \<le> 0 then getRemainingTime now tm gs = 9999
     else getRemainingTime now tm gs =
            max 0 (turnTimeSeconds (config gs) - (now - turnStartTime tm) div 1000000000) \<and>
          (hasTurnExpired now tm gs \<longleftrightarrow>
            turnTimeSeconds (config gs) * 1000000000 \<le> now - turnStartTime tm))"
proof -
  let ?e = "now - turnStartTime tm"
  have sdiv_pos: "?e sdiv 1000000000 = ?e div 1000000000"
    using assms(1) by (cases "?e = 0") (simp_all add: signed_divide_int_def)
  have "0 \<le> ?e div 1000000000" "?e div 1000000000 < 2 ^ 31"
    using assms(1,2) by (simp_all add: pos_imp_zdiv_nonneg_iff div_less_iff_less_mult)
  then have el: "to_int32 (elapsed_seconds now (turnStartTime tm)) = ?e div 1000000000"
    by (simp add: elapsed_seconds_def sdiv_pos)
  show ?thesis
    by (simp add: getRemainingTime_def hasTurnExpired_def el Let_def) linarith
qed

theorem remaining_time_witness:
  "getRemainingTime 3500000000 (turn_new 0) (sample_state [] [] (Card STAR TWO)) = 7"
  using remaining_time [of "turn_new 0" 3500000000 "sample_state [] [] (Card STAR TWO)"]
  by (simp add: turn_new_def default_config_def)

section \<open>Texts\<close>

text \<open>The normal form of a game code is a fixed point, has only upper-case letters and digits, and
  is accepted exactly when the input had at least four letters or digits; a generated code of an
  admissible length is accepted and is its own normal form.\<close>

theorem game_code_normal_form:
  "normalizeGameCode (normalizeGameCode s) = normalizeGameCode s \<and>
   (isValidGameCode (normalizeGameCode s) \<longleftrightarrow> 4 \<le> length (filter is_alnum s)) \<and>
   (4 \<le> n \<and> n \<le> 12 \<longrightarrow> isValidGameCode (fst (generateGameCode n r)) \<and>
      normalizeGameCode (fst (generateGameCode n r)) = fst (generateGameCode n r))"
proof -
  have stays: "normalizeGameCode t = take 12 t" if "\<forall>c \<in> set t. is_alnum c \<and> to_upper c = c" for t
  proof -
    have "filter is_alnum t = t" "map to_upper t = t"
      using that by (simp_all add: filter_id_conv map_idI)
    then show ?thesis by (simp add: normalizeGameCode_eq kMaxGameCodeLength_def)
  qed
  have chars: "\<forall>c \<in> set (normalizeGameCode s). is_alnum c \<and> to_upper c = c"
    by (auto simp: normalizeGameCode_eq dest!: in_set_takeD)
  have len: "length (normalizeGameCode s) \<le> 12"
    by (simp add: normalizeGameCode_eq kMaxGameCodeLength_def)
  have gen: "\<forall>c \<in> set (fst (generateGameCode n r)). is_alnum c \<and> to_upper c = c"
    using pick_chars_set [of code_chars n r] code_chars_upper
    by (auto simp: generateGameCode_def list_all_iff code_chars_def)
  have idem: "normalizeGameCode (normalizeGameCode s) = normalizeGameCode s"
    using stays [OF chars] len by simp
  have valid: "isValidGameCode (normalizeGameCode s) \<longleftrightarrow> 4 \<le> length (filter is_alnum s)"
  proof -
    have "list_all is_alnum (normalizeGameCode s)" using chars by (simp add: list_all_iff)
    moreover have "length (normalizeGameCode s) = min (length (filter is_alnum s)) 12"
      by (simp add: normalizeGameCode_eq kMaxGameCodeLength_def)
    ultimately show ?thesis
      by (auto simp: isValidGameCode_def kMinGameCodeLength_def kMaxGameCodeLength_def min_def)
  qed
  have "4 \<le> n \<and> n \<le> 12 \<longrightarrow> isValidGameCode (fst (generateGameCode n r)) \<and>
      normalizeGameCode (fst (generateGameCode n r)) = fst (generateGameCode n r)"
    using gen stays [OF gen]
    by (auto simp: isValidGameCode_def list_all_iff kMinGameCodeLength_def kMaxGameCodeLength_def
        generateGameCode_def)
  with idem valid show ?thesis by blast
qed

theorem game_code_normal_form_witness:
  "isValidGameCode (fst (generateGameCode 6 [])) \<and> normalizeGameCode (normalizeGameCode ''ab-cd'') = normalizeGameCode ''ab-cd''"
  using game_code_normal_form [of "''ab-cd''" 6 "[]"] by simp

text \<open>A stored player name has at most thirty characters, all from the input and in its order, and
  does not begin with a space.\<close>

theorem player_name_sanitized:
  "length (sanitizePlayerName s) \<le> 30 \<and> (\<exists>pre post. s = pre @ sanitizePlayerName s @ post) \<and>
   takeWhile is_space (sanitizePlayerName s) = []"
proof -
  let ?t = "dropWhile is_space s"
  have s: "sanitizePlayerName s = take 30 (trim s)"
    by (simp add: sanitizePlayerName_def Let_def kMaxPlayerNameLength_def)
  have t: "?t = trim s @ rev (takeWhile is_space (rev ?t))"
    unfolding trim_def by (metis rev_append rev_rev_ident takeWhile_dropWhile_id)
  have "s = takeWhile is_space s @ ?t" by simp
  also have "\<dots> = takeWhile is_space s @ take 30 (trim s) @ (drop 30 (trim s) @ rev (takeWhile is_space (rev ?t)))"
    by (subst t) simp
  finally have "\<exists>pre post. s = pre @ sanitizePlayerName s @ post" unfolding s by blast
  moreover have "takeWhile is_space (sanitizePlayerName s) = []"
    using hd_dropWhile_rev_dropWhile [of s] unfolding s by (cases "trim s") auto
  ultimately show ?thesis by (simp add: s)
qed

section \<open>JSON\<close>

text \<open>C14: Writing a state and reading it back gives the same table: ids, phase, turn, direction, pending
  pick, demanded suit, players (their clocks are reset), and call card.  The configuration becomes
  the default one, the discard pile is empty and the deck is a new, full, shuffled one.\<close>

theorem state_json_round_trip:
  assumes "state_wf gs"
  shows "state_fromJson gid now seed (state_toJson gs) =
    Some (gs\<lparr>config := default_config, deck := deck_new seed, discardPile := [], createdAt := now,
             players := map (\<lambda>p. p\<lparr>lastActionTime := now\<rparr>) (players gs)\<rparr>)"
  using state_fromJson_toJson [OF assms] by (simp add: restored_def)

theorem state_json_round_trip_witness:
  "map_option callCard (state_fromJson ''x'' 5 [] (state_toJson (sample_state [Card STAR ONE] [] (Card WHOT TWENTY)))) =
     Some (Some (Card WHOT TWENTY))"
proof -
  have "state_wf (sample_state [Card STAR ONE] [] (Card WHOT TWENTY))"
    by (simp add: state_wf_def sample_defs player_wf_def hand_wf_def cast_GamePhase_def cast_PlayerType_def
        cast_PlayerStatus_def int32_def)
  then show ?thesis by (simp add: state_json_round_trip)
qed

text \<open>Two states no different to a viewer: they agree on everything but the cards in other players'
  hands and in the piles, and the sizes of these agree.\<close>

definition alike :: "string \<Rightarrow> GameState \<Rightarrow> GameState \<Rightarrow> bool" where
  "alike viewer gs gs' \<longleftrightarrow>
     length (players gs') = length (players gs) \<and>
     (\<forall>i < length (players gs).
        players gs' ! i = players gs ! i \<or>
        (player_id (players gs ! i) \<noteq> viewer \<and>
         (\<exists>h. players gs' ! i = (players gs ! i)\<lparr>player_hand := h\<rparr> \<and>
              hand_length h = hand_length (hand_of gs i)))) \<and>
     length (deck_cards (deck gs')) = length (deck_cards (deck gs)) \<and>
     length (discardPile gs') = length (discardPile gs) \<and>
     gs' = gs\<lparr>players := players gs', deck := deck gs', discardPile := discardPile gs'\<rparr>"

lemma alike_refl [simp]: "alike viewer gs gs"
  by (simp add: alike_def)

lemma alike_view:
  assumes "length (players gs') = length (players gs)"
    and same: "\<And>i. i < length (players gs) \<Longrightarrow>
      players gs' ! i = players gs ! i \<or>
      (player_id (players gs ! i) \<noteq> viewer \<and>
       (\<exists>h. players gs' ! i = (players gs ! i)\<lparr>player_hand := h\<rparr> \<and>
            hand_length h = hand_length (hand_of gs i)))"
    and "length (deck_cards d) = length (deck_cards (deck gs))" "length dp = length (discardPile gs)"
    and "gs' = gs\<lparr>players := players gs', deck := d, discardPile := dp\<rparr>"
  shows "state_toJsonForPlayer viewer gs' = state_toJsonForPlayer viewer gs"
proof -
  let ?f = "\<lambda>p. if player_id p = viewer then player_toJson p else hidden_player_json p"
  have each: "?f (players gs' ! i) = ?f (players gs ! i) \<and>
      player_id (players gs' ! i) = player_id (players gs ! i) \<and>
      hand_isEmpty (hand_of gs' i) = hand_isEmpty (hand_of gs i)" if i: "i < length (players gs)" for i
  proof (cases "players gs' ! i = players gs ! i")
    case False
    with same [OF i] obtain h where h: "player_id (players gs ! i) \<noteq> viewer"
      "players gs' ! i = (players gs ! i)\<lparr>player_hand := h\<rparr>" "hand_length h = hand_length (hand_of gs i)"
      by blast
    then have "hand_isEmpty h = hand_isEmpty (hand_of gs i)"
      by (simp add: hand_length_def hand_isEmpty_def flip: length_0_conv)
    then show ?thesis using h by (simp add: hidden_player_json_def player_toJson_def)
  qed simp
  have ps: "map ?f (players gs') = map ?f (players gs)"
  proof (rule nth_equalityI)
    fix i
    assume "i < length (map ?f (players gs'))"
    then have i: "i < length (players gs)" using assms(1) by simp
    then show "map ?f (players gs') ! i = map ?f (players gs) ! i"
      using conjunct1 [OF each [OF i]] assms(1) by (simp only: nth_map)
  qed (simp add: assms(1))
  have hands: "map (\<lambda>p. hand_isEmpty (player_hand p)) (players gs') = map (\<lambda>p. hand_isEmpty (player_hand p)) (players gs)"
    and ids: "map player_id (players gs') = map player_id (players gs)"
    using each assms(1) by (intro nth_equalityI; simp)+
  have win: "getWinnerId g = map_option (\<lambda>i. map player_id (players g) ! i)
      (find_index (\<lambda>b. b) (map (\<lambda>p. hand_isEmpty (player_hand p)) (players g)))" for g
    by (cases "find_index (\<lambda>p. hand_isEmpty (player_hand p)) (players g)")
      (auto simp: getWinnerId_def find_index_map simp del: find_index_None dest: find_index_lt)
  have "getWinnerId gs' = getWinnerId gs" unfolding win hands ids ..
  then have "getWinnerId (gs\<lparr>players := players gs', deck := d, discardPile := dp\<rparr>) = getWinnerId gs"
    by (subst (asm) assms(5))
  then have "state_json_with ps gs' = state_json_with ps gs" for ps
    using assms(3,4) by (subst assms(5)) (simp add: state_json_with_def deck_size_def)
  then show ?thesis unfolding state_toJsonForPlayer_def ps by simp
qed


text \<open>C13: What a player is sent hides the other hands: two states that agree on everything but the
  cards in other players' hands and in the piles (whose sizes agree) give the same view, so
  nothing about those cards can be learned from it.\<close>

theorem view_hides_hands:
  assumes "alike viewer gs gs'"
  shows "state_toJsonForPlayer viewer gs' = state_toJsonForPlayer viewer gs"
  using assms unfolding alike_def
  by (intro alike_view [where d = "deck gs'" and dp = "discardPile gs'"]) auto

theorem view_hides_hands_witness:
  "state_toJsonForPlayer ''a'' (sample_state [Card STAR ONE] [Card STAR TWO] (Card STAR TEN)) =
   state_toJsonForPlayer ''a'' (sample_state [Card STAR ONE] [Card CROSS TEN] (Card STAR TEN))"
  by (rule view_hides_hands) (auto simp: alike_def sample_defs less_Suc_eq hand_length_def)

end
