(* ===== verification/Whot_Strategy.thy ===== *)
theory Whot_Strategy
  imports Whot_State Whot_Random
begin

text \<open>
  \<open>AI/Strategy\<close>: how a bot picks a card, a suit, and whether it defends.  The abstract class is
  the locale \<open>strategy\<close>; its four subclasses are its interpretations, and a pointer to a
  strategy is a value of the type \<open>Strategy\<close>, which the virtual calls dispatch on.  An index
  outside the hand makes \<open>at\<close> throw: \<open>None\<close>.  The shared generator is passed along.
\<close>

datatype Strategy = RandomStrategy | AggressiveStrategy | DefensiveStrategy | BalancedStrategy

section \<open>Helpers of the base class\<close>

definition evaluateCardValue :: "Card \<Rightarrow> GameState \<Rightarrow> int" where
  "evaluateCardValue c gs =
     (if getSpecialAbility c = GENERAL_MARKET then 14
      else if getSpecialAbility c = HOLD_ON then 10
      else if getValue c = EIGHT then 8
      else if getSpecialAbility c = PICK_TWO then 5
      else if getValue c = FIVE then 4
      else if getSpecialAbility c = WHOT_CARD then 12
      else getNumericValue c)"

fun closest_loop :: "(nat \<Rightarrow> nat) \<Rightarrow> nat \<Rightarrow> nat option \<Rightarrow> nat list \<Rightarrow> nat option" where
  "closest_loop sz minSize best [] = best"
| "closest_loop sz minSize best (p # ps) =
     (if sz p < minSize then closest_loop sz (sz p) (Some p) ps else closest_loop sz minSize best ps)"

definition getPlayerClosestToWinning :: "GameState \<Rightarrow> nat option" where
  "getPlayerClosestToWinning gs =
     closest_loop (\<lambda>i. hand_length (hand_of gs i)) (2 ^ 64 - 1) None (getActivePlayers gs)"

text \<open>A \<open>std::map\<close> keyed by suit, in key order; only \<open>WHOT\<close>, the greatest key, is ever added.\<close>

fun bump :: "Suit \<Rightarrow> (Suit \<times> int) list \<Rightarrow> (Suit \<times> int) list" where
  "bump s [] = [(s, 1)]"
| "bump s ((t, n) # m) = (if t = s then (t, n + 1) # m else (t, n) # bump s m)"

definition countSuits :: "Hand \<Rightarrow> (Suit \<times> int) list" where
  "countSuits h =
     fold (\<lambda>c. bump (getSuit c)) (hand_cards h)
       [(CIRCLE, 0), (TRIANGLE, 0), (CROSS, 0), (BLOCK, 0), (STAR, 0)]"

text \<open>The loops over the playable indices, keeping the best (or the least) card so far.\<close>

fun best_loop :: "(Card \<Rightarrow> int) \<Rightarrow> Hand \<Rightarrow> int \<Rightarrow> nat \<Rightarrow> nat list \<Rightarrow> nat option" where
  "best_loop f h bestVal best [] = Some best"
| "best_loop f h bestVal best (idx # idxs) =
     (case hand_getCard h idx of
        None \<Rightarrow> None
      | Some c \<Rightarrow> if f c > bestVal then best_loop f h (f c) idx idxs else best_loop f h bestVal best idxs)"

fun least_loop :: "(Card \<Rightarrow> int) \<Rightarrow> Hand \<Rightarrow> int \<Rightarrow> nat \<Rightarrow> nat list \<Rightarrow> nat option" where
  "least_loop f h bestVal best [] = Some best"
| "least_loop f h bestVal best (idx # idxs) =
     (case hand_getCard h idx of
        None \<Rightarrow> None
      | Some c \<Rightarrow> if f c < bestVal then least_loop f h (f c) idx idxs else least_loop f h bestVal best idxs)"

text \<open>The suit held most often, the first one of several.\<close>

definition most_frequent_suit :: "GameState \<Rightarrow> Suit" where
  "most_frequent_suit gs =
     (case getCurrentPlayer gs of
        None \<Rightarrow> CIRCLE
      | Some i \<Rightarrow> fst (scan_max snd (- 1) (CIRCLE, - 1) (countSuits (hand_of gs i))))"

section \<open>The four strategies\<close>

definition random_selectCard :: "GameState \<Rightarrow> nat list \<Rightarrow> rng \<Rightarrow> (nat \<times> rng) option" where
  "random_selectCard gs playable r =
     (if playable = [] then Some (0, r)
      else let (k, r') = nextInt 0 (int (length playable) - 1) r in Some (playable ! nat k, r'))"

definition random_selectSuit :: "GameState \<Rightarrow> rng \<Rightarrow> Suit \<times> rng" where
  "random_selectSuit gs r =
     (let (k, r') = nextInt 0 4 r in ([CIRCLE, TRIANGLE, CROSS, BLOCK, STAR] ! nat k, r'))"

definition random_shouldDefend :: "GameState \<Rightarrow> Card \<Rightarrow> nat list \<Rightarrow> rng \<Rightarrow> bool \<times> rng" where
  "random_shouldDefend gs attack defense r =
     (if defense = [] then (False, r) else nextBool (1 / 2) r)"

definition aggressive_selectCard :: "GameState \<Rightarrow> nat list \<Rightarrow> rng \<Rightarrow> (nat \<times> rng) option" where
  "aggressive_selectCard gs playable r =
     (if playable = [] then Some (0, r)
      else case getCurrentPlayer gs of
          None \<Rightarrow> Some (hd playable, r)
        | Some i \<Rightarrow>
            map_option (\<lambda>b. (b, r))
              (best_loop (\<lambda>c. evaluateCardValue c gs) (hand_of gs i) (- 1) (hd playable) playable))"

definition aggressive_selectSuit :: "GameState \<Rightarrow> rng \<Rightarrow> Suit \<times> rng" where
  [simp]: "aggressive_selectSuit gs r = (most_frequent_suit gs, r)"

definition aggressive_shouldDefend :: "GameState \<Rightarrow> Card \<Rightarrow> nat list \<Rightarrow> rng \<Rightarrow> bool \<times> rng" where
  [simp]: "aggressive_shouldDefend gs attack defense r = (if defense = [] then (False, r) else (True, r))"

definition defensive_value :: "Card \<Rightarrow> int" where
  "defensive_value c =
     (let v = getScoreValue c;
          v = (if getSpecialAbility c = WHOT_CARD then 20 else v)
      in if getSpecialAbility c = PICK_TWO \<or> getValue c = FIVE then - 10 else v)"

definition defensive_selectCard :: "GameState \<Rightarrow> nat list \<Rightarrow> rng \<Rightarrow> (nat \<times> rng) option" where
  "defensive_selectCard gs playable r =
     (if playable = [] then Some (0, r)
      else case getCurrentPlayer gs of
          None \<Rightarrow> Some (hd playable, r)
        | Some i \<Rightarrow>
            map_option (\<lambda>b. (b, r)) (least_loop defensive_value (hand_of gs i) 999 (hd playable) playable))"

definition defensive_selectSuit :: "GameState \<Rightarrow> rng \<Rightarrow> Suit \<times> rng" where
  [simp]: "defensive_selectSuit gs r =
     (case getCurrentPlayer gs of
        None \<Rightarrow> (CIRCLE, r)
      | Some i \<Rightarrow> (fst (scan_max snd (- 1) (CIRCLE, - 1) (countSuits (hand_of gs i))), r))"

definition defensive_shouldDefend :: "GameState \<Rightarrow> Card \<Rightarrow> nat list \<Rightarrow> rng \<Rightarrow> bool \<times> rng" where
  [simp]: "defensive_shouldDefend gs attack defense r = (if defense = [] then (False, r) else (True, r))"

definition balanced_selectCard :: "GameState \<Rightarrow> nat list \<Rightarrow> rng \<Rightarrow> (nat \<times> rng) option" where
  "balanced_selectCard gs playable r =
     (if playable = [] then Some (0, r)
      else case getCurrentPlayer gs of
          None \<Rightarrow> Some (hd playable, r)
        | Some i \<Rightarrow>
            if hand_length (hand_of gs i) \<le> 3
            then map_option (\<lambda>b. (b, r))
                   (best_loop (\<lambda>c. evaluateCardValue c gs) (hand_of gs i) (- 1) (hd playable) playable)
            else map_option (\<lambda>b. (b, r))
                   (least_loop getScoreValue (hand_of gs i) 999 (hd playable) playable))"

definition balanced_selectSuit :: "GameState \<Rightarrow> rng \<Rightarrow> Suit \<times> rng" where
  [simp]: "balanced_selectSuit gs r =
     (case getCurrentPlayer gs of
        None \<Rightarrow> (CIRCLE, r)
      | Some i \<Rightarrow> (fst (scan_max snd (- 1) (CIRCLE, - 1) (countSuits (hand_of gs i))), r))"

definition balanced_shouldDefend :: "GameState \<Rightarrow> Card \<Rightarrow> nat list \<Rightarrow> rng \<Rightarrow> bool \<times> rng" where
  [simp]: "balanced_shouldDefend gs attack defense r = (defense \<noteq> [], r)"

text \<open>Three of the four choose their suit alike.\<close>

lemma suit_choices: "defensive_selectSuit = aggressive_selectSuit" "balanced_selectSuit = aggressive_selectSuit"
  by (simp_all add: fun_eq_iff most_frequent_suit_def split: option.split)

section \<open>Virtual calls\<close>

fun selectCard :: "Strategy \<Rightarrow> GameState \<Rightarrow> nat list \<Rightarrow> rng \<Rightarrow> (nat \<times> rng) option" where
  "selectCard RandomStrategy = random_selectCard"
| "selectCard AggressiveStrategy = aggressive_selectCard"
| "selectCard DefensiveStrategy = defensive_selectCard"
| "selectCard BalancedStrategy = balanced_selectCard"

fun selectSuit :: "Strategy \<Rightarrow> GameState \<Rightarrow> rng \<Rightarrow> Suit \<times> rng" where
  "selectSuit RandomStrategy gs r = random_selectSuit gs r"
| "selectSuit AggressiveStrategy gs r = aggressive_selectSuit gs r"
| "selectSuit DefensiveStrategy gs r = defensive_selectSuit gs r"
| "selectSuit BalancedStrategy gs r = balanced_selectSuit gs r"

fun shouldDefend :: "Strategy \<Rightarrow> GameState \<Rightarrow> Card \<Rightarrow> nat list \<Rightarrow> rng \<Rightarrow> bool \<times> rng" where
  "shouldDefend RandomStrategy gs attack defense r = random_shouldDefend gs attack defense r"
| "shouldDefend AggressiveStrategy gs attack defense r = aggressive_shouldDefend gs attack defense r"
| "shouldDefend DefensiveStrategy gs attack defense r = defensive_shouldDefend gs attack defense r"
| "shouldDefend BalancedStrategy gs attack defense r = balanced_shouldDefend gs attack defense r"

fun getStrategyName :: "Strategy \<Rightarrow> string" where
  "getStrategyName RandomStrategy = ''Random''"
| "getStrategyName AggressiveStrategy = ''Aggressive''"
| "getStrategyName DefensiveStrategy = ''Defensive''"
| "getStrategyName BalancedStrategy = ''Balanced''"

section \<open>The interface of a strategy\<close>

definition playable_in_hand :: "GameState \<Rightarrow> nat list \<Rightarrow> bool" where
  "playable_in_hand gs idxs \<longleftrightarrow>
     (\<forall>i. getCurrentPlayer gs = Some i \<longrightarrow> (\<forall>k \<in> set idxs. k < length (hand_cards (hand_of gs i))))"

locale strategy =
  fixes sel :: "GameState \<Rightarrow> nat list \<Rightarrow> rng \<Rightarrow> (nat \<times> rng) option"
    and defend :: "GameState \<Rightarrow> Card \<Rightarrow> nat list \<Rightarrow> rng \<Rightarrow> bool \<times> rng"
  assumes sel_member: "idxs \<noteq> [] \<Longrightarrow> playable_in_hand gs idxs \<Longrightarrow>
      \<exists>k r'. sel gs idxs r = Some (k, r') \<and> k \<in> set idxs"
    and defend_needs_card: "fst (defend gs c idxs r) \<Longrightarrow> idxs \<noteq> []"
begin

text \<open>Whatever holds of all the offered cards holds of the selected one.\<close>

lemma sel_sat:
  assumes "idxs \<noteq> []" "playable_in_hand gs idxs" "\<forall>k \<in> set idxs. P k"
  shows "\<exists>k r'. sel gs idxs r = Some (k, r') \<and> P k"
  using sel_member [OF assms(1,2)] assms(3) by blast

lemma sel_defined: "idxs \<noteq> [] \<Longrightarrow> playable_in_hand gs idxs \<Longrightarrow> sel gs idxs r \<noteq> None"
  using sel_member [of idxs gs r] by auto

lemma no_card_no_defence: "\<not> fst (defend gs c [] r)"
  using defend_needs_card by blast

end

lemma best_loop_scan:
  "\<forall>k \<in> set idxs. k < length (hand_cards h) \<Longrightarrow>
   best_loop f h m b idxs = Some (scan_max (\<lambda>k. f (hand_cards h ! k)) m b idxs)"
  by (induction idxs arbitrary: m b) (simp_all add: hand_getCard_def)

lemma least_loop_scan:
  "\<forall>k \<in> set idxs. k < length (hand_cards h) \<Longrightarrow>
   least_loop f h m b idxs = Some (scan_max (\<lambda>k. - f (hand_cards h ! k)) (- m) b idxs)"
  by (induction idxs arbitrary: m b) (simp_all add: hand_getCard_def)

lemma random_sel_member:
  assumes "idxs \<noteq> []"
  shows "\<exists>k r'. random_selectCard gs idxs r = Some (k, r') \<and> k \<in> set idxs"
proof -
  have "0 \<le> fst (nextInt 0 (int (length idxs) - 1) r) \<and>
      fst (nextInt 0 (int (length idxs) - 1) r) \<le> int (length idxs) - 1"
    by (rule nextInt_range) (use assms in \<open>cases idxs; simp\<close>)
  then have "nat (fst (nextInt 0 (int (length idxs) - 1) r)) < length idxs" by linarith
  then show ?thesis using assms by (simp add: random_selectCard_def split_beta)
qed

interpretation random_st: strategy random_selectCard random_shouldDefend
  by unfold_locales (erule random_sel_member, simp add: random_shouldDefend_def split: if_splits)

interpretation aggressive_st: strategy aggressive_selectCard aggressive_shouldDefend
  by unfold_locales
    (auto simp: aggressive_selectCard_def playable_in_hand_def best_loop_scan
      scan_max_member split: option.split)

interpretation defensive_st: strategy defensive_selectCard defensive_shouldDefend
  by unfold_locales
    (auto simp: defensive_selectCard_def playable_in_hand_def least_loop_scan
      scan_max_member split: option.split)

interpretation balanced_st: strategy balanced_selectCard balanced_shouldDefend
  by unfold_locales
    (auto simp: balanced_selectCard_def playable_in_hand_def best_loop_scan
      least_loop_scan scan_max_member split: option.split)

text \<open>A virtual call keeps the contract, whatever the strategy behind the pointer is.\<close>

interpretation any_st: strategy "selectCard st" "shouldDefend st" for st
proof
  show "idxs \<noteq> [] \<Longrightarrow> playable_in_hand gs idxs \<Longrightarrow>
      \<exists>k r'. selectCard st gs idxs r = Some (k, r') \<and> k \<in> set idxs" for idxs gs r
    by (cases st; simp only: selectCard.simps; rule random_st.sel_member aggressive_st.sel_member
        defensive_st.sel_member balanced_st.sel_member; assumption)
  show "fst (shouldDefend st gs c idxs r) \<Longrightarrow> idxs \<noteq> []" for gs c idxs r
    by (cases st; simp only: shouldDefend.simps;
        erule random_st.defend_needs_card aggressive_st.defend_needs_card defensive_st.defend_needs_card
          balanced_st.defend_needs_card)
qed

section \<open>Counting suits\<close>

lemma map_of_bump: "map_of (bump s m) t = (if s = t then Some (1 + (case map_of m s of Some n \<Rightarrow> n | None \<Rightarrow> 0))
    else map_of m t)"
  by (induction s m rule: bump.induct) auto

lemma map_of_fold_bump:
  "map_of (fold (\<lambda>c. bump (getSuit c)) cs m) t =
     (let n = int (length (filter (\<lambda>c. getSuit c = t) cs))
      in case map_of m t of Some k \<Rightarrow> Some (k + n) | None \<Rightarrow> if n = 0 then None else Some n)"
  by (induction cs arbitrary: m) (auto simp: map_of_bump Let_def split: option.split)

lemma countSuits_count:
  "map_of (countSuits h) t =
     (let n = int (length (filter (\<lambda>c. getSuit c = t) (hand_cards h)))
      in if t = WHOT \<and> n = 0 then None else Some n)"
  by (cases t) (simp_all add: countSuits_def map_of_fold_bump Let_def)

end
