(* ===== verification/Whot_AI.thy ===== *)
theory Whot_AI
  imports Whot_Strategy Whot_Turn
begin

text \<open>
  \<open>AI/DifficultyLevel\<close> and \<open>AI/AIPlayer\<close>: which strategy and error rate a level has, and how a bot
  turns what it sees of the state into an action.  Sleeping has no effect here.  A null strategy
  (after \<open>setStrategy(nullptr)\<close>) that is dereferenced, and an exception, are \<open>None\<close>.
\<close>

datatype DifficultyLevel = EASY | MEDIUM | HARD

record DifficultyConfig =
  thinkingDelayMs :: int
  randomnessFactor :: rat
  mistakeProbability :: rat

fun difficulty_getConfig :: "DifficultyLevel \<Rightarrow> DifficultyConfig" where
  "difficulty_getConfig EASY = \<lparr>thinkingDelayMs = 2000, randomnessFactor = 7 / 10, mistakeProbability = 3 / 10\<rparr>"
| "difficulty_getConfig MEDIUM = \<lparr>thinkingDelayMs = 1000, randomnessFactor = 3 / 10, mistakeProbability = 1 / 10\<rparr>"
| "difficulty_getConfig HARD = \<lparr>thinkingDelayMs = 500, randomnessFactor = 0, mistakeProbability = 0\<rparr>"

fun createStrategy :: "DifficultyLevel \<Rightarrow> Strategy" where
  "createStrategy EASY = RandomStrategy"
| "createStrategy MEDIUM = BalancedStrategy"
| "createStrategy HARD = AggressiveStrategy"

definition getThinkingDelay :: "DifficultyLevel \<Rightarrow> int" where
  "getThinkingDelay lv = thinkingDelayMs (difficulty_getConfig lv)"

definition getRandomnessFactor :: "DifficultyLevel \<Rightarrow> rat" where
  "getRandomnessFactor lv = randomnessFactor (difficulty_getConfig lv)"

definition shouldMakeMistakes :: "DifficultyLevel \<Rightarrow> bool" where
  "shouldMakeMistakes lv \<longleftrightarrow> mistakeProbability (difficulty_getConfig lv) > 0"

definition getMistakeProbability :: "DifficultyLevel \<Rightarrow> rat" where
  "getMistakeProbability lv = mistakeProbability (difficulty_getConfig lv)"

record AIPlayer =
  ai_id :: string
  ai_name :: string
  ai_difficulty :: DifficultyLevel
  ai_strategy :: "Strategy option"
  thinkingDelay :: int

definition ai_new :: "string \<Rightarrow> string \<Rightarrow> DifficultyLevel \<Rightarrow> AIPlayer" where
  "ai_new i n lv = \<lparr>ai_id = i, ai_name = n, ai_difficulty = lv, ai_strategy = Some (createStrategy lv),
     thinkingDelay = getThinkingDelay lv\<rparr>"

definition setDifficulty :: "DifficultyLevel \<Rightarrow> AIPlayer \<Rightarrow> AIPlayer" where
  "setDifficulty lv ai = ai\<lparr>ai_difficulty := lv, ai_strategy := Some (createStrategy lv),
     thinkingDelay := getThinkingDelay lv\<rparr>"

definition setStrategy :: "Strategy option \<Rightarrow> AIPlayer \<Rightarrow> AIPlayer" where
  "setStrategy st ai = ai\<lparr>ai_strategy := st\<rparr>"

definition setThinkingDelay :: "int \<Rightarrow> AIPlayer \<Rightarrow> AIPlayer" where
  "setThinkingDelay ms ai = ai\<lparr>thinkingDelay := ms\<rparr>"

definition getPlayableCards :: "AIPlayer \<Rightarrow> GameState \<Rightarrow> nat list" where
  "getPlayableCards ai gs =
     (case (callCard gs, getCurrentPlayer gs) of
        (Some call, Some i) \<Rightarrow>
          if player_id (players gs ! i) \<noteq> ai_id ai then [] else getPlayableCardIndices (hand_of gs i) call
      | _ \<Rightarrow> [])"

definition selectBestCard :: "AIPlayer \<Rightarrow> GameState \<Rightarrow> nat list \<Rightarrow> rng \<Rightarrow> (nat \<times> rng) option" where
  "selectBestCard ai gs playable r =
     (if playable = [] then Some (0, r)
      else case ai_strategy ai of
          None \<Rightarrow> Some (hd playable, r)
        | Some st \<Rightarrow> selectCard st gs playable r)"

definition chooseCardToPlay :: "AIPlayer \<Rightarrow> GameState \<Rightarrow> rng \<Rightarrow> (nat option \<times> rng) option" where
  "chooseCardToPlay ai gs r =
     (let playable = getPlayableCards ai gs
      in if playable = [] then Some (None, r)
         else map_option (\<lambda>(k, r'). (Some k, r')) (selectBestCard ai gs playable r))"

definition chooseSuitForWhotCard :: "AIPlayer \<Rightarrow> GameState \<Rightarrow> rng \<Rightarrow> (Suit \<times> rng) option" where
  "chooseSuitForWhotCard ai gs r = map_option (\<lambda>st. selectSuit st gs r) (ai_strategy ai)"

definition defense_cards :: "GameState \<Rightarrow> nat \<Rightarrow> Card \<Rightarrow> nat list" where
  "defense_cards gs i attack = indices_where (\<lambda>c. getValue c = getValue attack) (hand_cards (hand_of gs i))"

definition shouldDefendAgainstPick :: "AIPlayer \<Rightarrow> GameState \<Rightarrow> Card \<Rightarrow> rng \<Rightarrow> (bool \<times> rng) option" where
  "shouldDefendAgainstPick ai gs attack r =
     (case getCurrentPlayer gs of
        None \<Rightarrow> Some (False, r)
      | Some i \<Rightarrow>
          map_option (\<lambda>st. shouldDefend st gs attack (defense_cards gs i attack) r) (ai_strategy ai))"

definition applyRandomness :: "AIPlayer \<Rightarrow> nat list \<Rightarrow> rng \<Rightarrow> nat list \<times> rng" where
  "applyRandomness ai choices r =
     (if length choices \<le> 1 then (choices, r)
      else let (b, r1) = nextBool (1 - getRandomnessFactor (ai_difficulty ai)) r
           in if b then (choices, r1)
              else let (k, r2) = nextInt 0 (int (length choices) - 1) r1; i = nat k
                   in (choices[0 := choices ! i, i := choices ! 0], r2))"

text \<open>The action of the bot, built up as the code does it.\<close>

definition ai_action :: "AIPlayer \<Rightarrow> ActionType \<Rightarrow> nat option \<Rightarrow> Suit option \<Rightarrow> GameAction" where
  "ai_action ai ty idx su = \<lparr>act_type = ty, act_playerId = ai_id ai, act_cardIndex = idx,
     act_chosenSuit = su, act_chosenDirection = None, act_metadata = ''''\<rparr>"

definition maybe_mistake :: "AIPlayer \<Rightarrow> nat list \<Rightarrow> nat \<Rightarrow> rng \<Rightarrow> nat \<times> rng" where
  "maybe_mistake ai playable best r =
     (if \<not> shouldMakeMistakes (ai_difficulty ai) then (best, r)
      else let (b, r1) = nextBool (getMistakeProbability (ai_difficulty ai)) r
           in if \<not> b then (best, r1)
              else let (k, r2) = nextInt 0 (int (length playable) - 1) r1 in (playable ! nat k, r2))"

definition suit_for :: "AIPlayer \<Rightarrow> GameState \<Rightarrow> nat \<Rightarrow> rng \<Rightarrow> (Suit option \<times> rng) option" where
  "suit_for ai gs idx r =
     (case getCurrentPlayer gs of
        None \<Rightarrow> Some (None, r)
      | Some i \<Rightarrow>
          if idx < hand_length (hand_of gs i)
          then (case hand_getCard (hand_of gs i) idx of
                  None \<Rightarrow> None
                | Some c \<Rightarrow>
                    if isWhotCard c then map_option (\<lambda>(s, r'). (Some s, r')) (chooseSuitForWhotCard ai gs r)
                    else Some (None, r))
          else Some (None, r))"

definition decide_play :: "AIPlayer \<Rightarrow> GameState \<Rightarrow> nat list \<Rightarrow> rng \<Rightarrow> (GameAction \<times> rng) option" where
  "decide_play ai gs playable r =
     do { (best, r1) \<leftarrow> selectBestCard ai gs playable r;
          let (idx, r2) = maybe_mistake ai playable best r1;
          (su, r3) \<leftarrow> suit_for ai gs idx r2;
          Some (ai_action ai PLAY_CARD (Some idx) su, r3) }"

definition decide_defense :: "AIPlayer \<Rightarrow> GameState \<Rightarrow> rng \<Rightarrow> (GameAction \<times> rng) option" where
  "decide_defense ai gs r =
     (let draw = ai_action ai DRAW_CARD None None in
      if activePickCount gs > 0
      then (case callCard gs of
              None \<Rightarrow> Some (draw, r)
            | Some call \<Rightarrow>
                do { (b, r1) \<leftarrow> shouldDefendAgainstPick ai gs call r;
                     if \<not> b then Some (draw, r1)
                     else let defense = (case getCurrentPlayer gs of
                                           None \<Rightarrow> [] | Some i \<Rightarrow> defense_cards gs i call)
                          in if defense = [] then Some (draw, r1)
                             else do { st \<leftarrow> ai_strategy ai;
                                       let (b2, r2) = shouldDefend st gs call defense r1;
                                       if \<not> b2 then Some (draw, r2)
                                       else let (k, r3) = nextInt 0 (int (length defense) - 1) r2
                                            in Some (ai_action ai PLAY_CARD (Some (defense ! nat k)) None, r3) } })
      else Some (draw, r))"

definition decideAction :: "AIPlayer \<Rightarrow> GameState \<Rightarrow> rng \<Rightarrow> (GameAction \<times> rng) option" where
  "decideAction ai gs r =
     (let playable = getPlayableCards ai gs
      in if playable \<noteq> [] then decide_play ai gs playable r else decide_defense ai gs r)"

end
