(* ===== verification/Whot_AIProps.thy ===== *)
theory Whot_AIProps
  imports Whot_AI Whot_EngineProps
begin

text \<open>
  The properties of the bots: the engine accepts what a bot decides, the greedy strategies pick
  the best card, and the suit that is chosen is one held most often.
\<close>

lemma set_defense_cards:
  "set (defense_cards gs i attack) =
     {k. k < length (hand_cards (hand_of gs i)) \<and> getValue (hand_cards (hand_of gs i) ! k) = getValue attack}"
  by (simp add: defense_cards_def set_indices_where)

lemma no_play_no_defence:
  assumes "getPlayableCardIndices (hand_of gs i) call = []"
  shows "defense_cards gs i call = []"
  using assms canPlayOn_same_value
  by (auto simp: getPlayableCardIndices_Nil defense_cards_def indices_where_Nil)

lemma decide_defense_draws:
  assumes "getCurrentPlayer gs = Some i" "ai_strategy ai = Some st" "callCard gs = Some call"
    "getPlayableCardIndices (hand_of gs i) call = []"
  shows "\<exists>r'. decide_defense ai gs r = Some (ai_action ai DRAW_CARD None None, r')"
proof -
  obtain b r1 where b: "shouldDefend st gs call [] r = (b, r1)" by (cases "shouldDefend st gs call [] r")
  then have "\<not> b" using any_st.no_card_no_defence [of st gs call r] by simp
  then show ?thesis
    using assms no_play_no_defence [OF assms(4)] b
    by (simp add: decide_defense_def shouldDefendAgainstPick_def Let_def)
qed

lemma maybe_mistake_member:
  assumes "best \<in> set playable"
  shows "fst (maybe_mistake ai playable best r) \<in> set playable"
proof -
  have "nat (fst (nextInt 0 (int (length playable) - 1) r1)) < length playable" for r1
    using nextInt_range [of 0 "int (length playable) - 1" r1] assms by (cases playable) force+
  then show ?thesis using assms by (simp add: maybe_mistake_def split_beta Let_def)
qed

lemma suit_for_defined: "ai_strategy ai = Some st \<Longrightarrow> \<exists>su r'. suit_for ai gs idx r = Some (su, r')"
  by (auto simp: suit_for_def chooseSuitForWhotCard_def hand_getCard_def hand_length_def split_beta
      split: option.split)

lemma decide_play_member:
  assumes "playable \<noteq> []" "playable_in_hand gs playable" "ai_strategy ai = Some st"
  shows "\<exists>idx su r'. decide_play ai gs playable r = Some (ai_action ai PLAY_CARD (Some idx) su, r') \<and>
    idx \<in> set playable"
proof -
  obtain best r1 where sel: "selectBestCard ai gs playable r = Some (best, r1)" "best \<in> set playable"
    using any_st.sel_member [OF assms(1,2), of st r] assms(1,3) by (auto simp: selectBestCard_def)
  obtain idx r2 where mm: "maybe_mistake ai playable best r1 = (idx, r2)"
    by (cases "maybe_mistake ai playable best r1")
  then have idx: "idx \<in> set playable" using maybe_mistake_member [OF sel(2), of ai r1] by simp
  obtain su r' where "suit_for ai gs idx r2 = Some (su, r')" using suit_for_defined [OF assms(3)] by blast
  then have "decide_play ai gs playable r = Some (ai_action ai PLAY_CARD (Some idx) su, r')"
    using sel(1) mm by (simp add: decide_play_def)
  then show ?thesis using idx by blast
qed

lemma bot_decides:
  assumes "getCurrentPlayer (eng_state eng) = Some i" "player_id (players (eng_state eng) ! i) = ai_id ai"
    "distinct (map player_id (players (eng_state eng)))" "demandedSuit (eng_state eng) = None"
    "callCard (eng_state eng) = Some call" "ai_strategy ai = Some st"
  shows "\<exists>a r' res eng'. decideAction ai (eng_state eng) r = Some (a, r') \<and>
    processAction a eng = Some (res, eng') \<and> res_success res \<and>
    act_type a = (if hand_hasPlayableCard (hand_of (eng_state eng) i) call then PLAY_CARD else DRAW_CARD)"
proof -
  let ?gs = "eng_state eng"
  have lt: "i < length (players ?gs)" using assms(1) by (rule getCurrentPlayer_lt)
  have pid: "getCurrentPlayerId ?gs = ai_id ai" using assms(1,2) by (simp add: getCurrentPlayerId_def)
  have get: "getPlayer (ai_id ai) ?gs = Some i" using getPlayer_distinct [OF assms(3) lt] assms(2) by simp
  let ?playable = "getPlayableCardIndices (hand_of ?gs i) call"
  have pl: "getPlayableCards ai ?gs = ?playable" using assms by (simp add: getPlayableCards_def)
  show ?thesis
  proof (cases "?playable = []")
    case True
    then obtain r' where d: "decideAction ai ?gs r = Some (ai_action ai DRAW_CARD None None, r')"
      using decide_defense_draws [OF assms(1,6,5)] by (fastforce simp: decideAction_def pl)
    have "\<not> re_hasPlayableCard (eng_rules eng) ?gs (players ?gs ! i)"
      using True assms(4,5)
      by (auto simp: re_hasPlayableCard_def list_ex_iff nigerian.match_rules getPlayableCardIndices_Nil)
    then have "re_mustDrawCard (eng_rules eng) ?gs (players ?gs ! i)"
      using draw_or_play [OF assms(4)] by blast
    then have "\<exists>res eng'. processAction (ai_action ai DRAW_CARD None None) eng = Some (res, eng') \<and> res_success res"
      using assms(1,2) by (intro processAction_draw_ok) (simp_all add: ai_action_def)
    then show ?thesis using d True by (auto simp: ai_action_def hand_hasPlayableCard_def)
  next
    case False
    have "playable_in_hand ?gs ?playable"
      using assms(1) by (simp add: playable_in_hand_def set_getPlayableCardIndices)
    then obtain idx su r' where d: "decideAction ai ?gs r = Some (ai_action ai PLAY_CARD (Some idx) su, r')"
      and idx: "idx \<in> set ?playable"
      using decide_play_member [OF False _ assms(6), of ?gs r] False by (auto simp: decideAction_def pl)
    have "playable_at eng i idx"
      using idx lt assms(4,5)
      by (simp add: playable_at_def re_canPlayCard_def nigerian.match_rules set_getPlayableCardIndices)
    then have "\<exists>res eng'. processAction (ai_action ai PLAY_CARD (Some idx) su) eng = Some (res, eng') \<and> res_success res"
      using pid get by (intro processAction_play_ok [where idx = idx and i = i]) (simp_all add: ai_action_def)
    then show ?thesis using d False by (auto simp: ai_action_def hand_hasPlayableCard_def)
  qed
qed

text \<open>Without a call card a bot draws.\<close>

lemma bot_draws_without_call:
  assumes "getCurrentPlayer (eng_state eng) = Some i" "player_id (players (eng_state eng) ! i) = ai_id ai"
    "callCard (eng_state eng) = None"
  shows "\<exists>a res eng'. decideAction ai (eng_state eng) r = Some (a, r) \<and> processAction a eng = Some (res, eng') \<and>
    res_success res \<and> act_type a = DRAW_CARD"
proof -
  have d: "decideAction ai (eng_state eng) r = Some (ai_action ai DRAW_CARD None None, r)"
    using assms(3) by (simp add: decideAction_def getPlayableCards_def decide_defense_def Let_def)
  have "re_mustDrawCard (eng_rules eng) (eng_state eng) (players (eng_state eng) ! i)"
    using assms(3) by (simp add: re_mustDrawCard_def re_hasPlayableCard_def re_hasDefenseCard_def)
  then have "\<exists>res eng'. processAction (ai_action ai DRAW_CARD None None) eng = Some (res, eng') \<and> res_success res"
    using assms(1,2) by (intro processAction_draw_ok) (simp_all add: ai_action_def)
  with d show ?thesis by (auto simp: ai_action_def)
qed

lemma bot_moves:
  assumes "getCurrentPlayer (eng_state eng) = Some i" "player_id (players (eng_state eng) ! i) = ai_id ai"
    "distinct (map player_id (players (eng_state eng)))" "demandedSuit (eng_state eng) = None" "ai_strategy ai = Some st"
  shows "\<exists>a r' res eng'. decideAction ai (eng_state eng) r = Some (a, r') \<and>
    processAction a eng = Some (res, eng') \<and> res_success res \<and> act_type a \<in> {PLAY_CARD, DRAW_CARD}"
proof (cases "callCard (eng_state eng)")
  case None
  then show ?thesis using bot_draws_without_call [OF assms(1,2), of r] by blast
next
  case (Some call)
  then show ?thesis using bot_decides [OF assms(1-4) Some assms(5), of r] by (metis insertI1 insertI2)
qed

text \<open>Only the choice of a suit demands one.\<close>

lemma move_keeps_no_demand:
  assumes "processAction a eng = Some (res, eng')" "act_type a \<noteq> CHOOSE_SUIT"
    "demandedSuit (eng_state eng) = None"
  shows "demandedSuit (eng_state eng') = None"
  using assms(1)
proof (cases rule: processAction_cases)
  case (play idx i)
  then show ?thesis by (simp add: Let_def special_state_demanded)
next
  case (draw i)
  then show ?thesis using assms(3) by (simp add: handleDrawCard_state split: option.split)
next
  case declares
  then show ?thesis
    using assms(3) by (auto simp: handleDeclaration_def modify_player_def Let_def split: option.splits)
qed (use assms(2,3) in auto)

text \<open>C11: Whenever it is a bot's turn and no suit is demanded, the bot decides on an action (nothing
  throws), whatever its strategy and the random numbers, and the engine accepts it: a play when
  some card matches the call card, otherwise a draw.\<close>

theorem bot_action_accepted:
  assumes "getCurrentPlayer (eng_state eng) = Some i" "player_id (players (eng_state eng) ! i) = ai_id ai"
    "distinct (map player_id (players (eng_state eng)))" "demandedSuit (eng_state eng) = None"
    "callCard (eng_state eng) = Some call" "ai_strategy ai = Some st"
  shows "\<exists>a r' res eng'. decideAction ai (eng_state eng) r = Some (a, r') \<and>
    processAction a eng = Some (res, eng') \<and> res_success res \<and>
    act_type a = (if hand_hasPlayableCard (hand_of (eng_state eng) i) call then PLAY_CARD else DRAW_CARD)"
  by (rule bot_decides [OF assms])

theorem bot_action_accepted_witness:
  "\<exists>a r' res eng'. decideAction (ai_new ''a'' ''Bot'' EASY)
       (sample_state [Card STAR ONE, Card CROSS ONE] [] (Card STAR TWO)) [] = Some (a, r') \<and>
     processAction a (sample_engine [Card STAR ONE, Card CROSS ONE] [] (Card STAR TWO)) = Some (res, eng') \<and>
     res_success res"
  using bot_action_accepted [of "sample_engine [Card STAR ONE, Card CROSS ONE] [] (Card STAR TWO)" 0
      "ai_new ''a'' ''Bot'' EASY" "Card STAR TWO" RandomStrategy "[]"]
  by (auto simp: ai_new_def)

text \<open>The greedy strategy of a hard bot: of the playable cards it selects the one it values most,
  the first of several.\<close>

theorem aggressive_selects_best:
  assumes "getCurrentPlayer gs = Some i" "playable \<noteq> []" "playable_in_hand gs playable"
  shows "\<exists>n < length playable. selectCard AggressiveStrategy gs playable r = Some (playable ! n, r) \<and>
    (\<forall>k \<in> set playable. evaluateCardValue (hand_cards (hand_of gs i) ! k) gs
       \<le> evaluateCardValue (hand_cards (hand_of gs i) ! (playable ! n)) gs) \<and>
    (\<forall>m < n. evaluateCardValue (hand_cards (hand_of gs i) ! (playable ! m)) gs
       < evaluateCardValue (hand_cards (hand_of gs i) ! (playable ! n)) gs)"
proof -
  let ?f = "\<lambda>k. evaluateCardValue (hand_cards (hand_of gs i) ! k) gs"
  have pos: "0 \<le> evaluateCardValue c gs" for c
    using value_int_bounds [of "getValue c"] by (simp add: evaluateCardValue_def getNumericValue_def)
  have "selectCard AggressiveStrategy gs playable r = Some (scan_max ?f (- 1) (hd playable) playable, r)"
    using assms by (simp add: aggressive_selectCard_def playable_in_hand_def best_loop_scan)
  moreover have "\<not> (\<forall>k \<in> set playable. ?f k \<le> - 1)"
    using pos [of "hand_cards (hand_of gs i) ! hd playable"] assms(2) by (cases playable) force+
  ultimately show ?thesis using scan_max_first [of ?f "- 1" "hd playable" playable] by auto
qed

theorem aggressive_selects_best_witness:
  "selectCard AggressiveStrategy (sample_state [Card STAR TEN, Card STAR FOURTEEN] [] (Card STAR TWO)) [0, 1] [] =
     Some (1, [])"
  using aggressive_selects_best [of "sample_state [Card STAR TEN, Card STAR FOURTEEN] [] (Card STAR TWO)" 0 "[0, 1]" "[]"]
  by (auto simp: playable_in_hand_def less_Suc_eq evaluateCardValue_def card_defs)

text \<open>The suit the thinking strategies name is one the current player holds most of: no suit occurs
  in the hand more often.\<close>

theorem suit_choice_most_frequent:
  assumes "getCurrentPlayer gs = Some i" "st \<noteq> RandomStrategy"
  shows "length (filter (\<lambda>c. getSuit c = t) (hand_cards (hand_of gs i)))
    \<le> length (filter (\<lambda>c. getSuit c = fst (selectSuit st gs r)) (hand_cards (hand_of gs i)))"
proof -
  let ?n = "\<lambda>s. length (filter (\<lambda>c. getSuit c = s) (hand_cards (hand_of gs i)))"
  let ?m = "countSuits (hand_of gs i)"
  have sel: "fst (selectSuit st gs r) = fst (scan_max snd (- 1) (CIRCLE, - 1) ?m)"
    using assms by (cases st) (simp_all add: most_frequent_suit_def)
  have keys: "distinct (map fst (fold (\<lambda>c. bump (getSuit c)) cs m))" if "distinct (map fst m)" for cs m
  proof -
    have bump: "distinct (map fst (bump s m))" "set (map fst (bump s m)) = insert s (set (map fst m))"
      if "distinct (map fst m)" for s and m :: "(Suit \<times> int) list"
      using that by (induction s m rule: bump.induct) auto
    from that show ?thesis by (induction cs arbitrary: m) (simp_all add: bump)
  qed
  have dist: "distinct (map fst ?m)" by (simp add: countSuits_def keys)
  have val: "(s, k) \<in> set ?m \<Longrightarrow> k = int (?n s)" for s k
    using countSuits_count [of "hand_of gs i" s] dist by (auto simp: Let_def split: if_splits)
  have mem: "\<exists>k. (CIRCLE, k) \<in> set ?m"
    using countSuits_count [of "hand_of gs i" CIRCLE] by (auto dest: map_of_SomeD)
  have "\<not> (\<forall>x \<in> set ?m. snd x \<le> - 1)" using mem val by force
  then obtain j where j: "j < length ?m" "scan_max snd (- 1) (CIRCLE, - 1) ?m = ?m ! j"
    "\<forall>x \<in> set ?m. snd x \<le> snd (?m ! j)"
    using scan_max_first [of snd "- 1" "(CIRCLE, - 1)" ?m] by auto
  have best: "snd (?m ! j) = int (?n (fst (?m ! j)))"
    using val [of "fst (?m ! j)" "snd (?m ! j)"] j(1) by simp
  show ?thesis
  proof (cases "?n t = 0")
    case False
    then have "(t, int (?n t)) \<in> set ?m"
      using countSuits_count [of "hand_of gs i" t] by (auto simp: Let_def dest: map_of_SomeD split: if_splits)
    then have "int (?n t) \<le> int (?n (fst (?m ! j)))" using j(3) best by fastforce
    then show ?thesis unfolding sel j(2) by simp
  qed simp
qed

theorem suit_choice_most_frequent_witness:
  "length (filter (\<lambda>c. getSuit c = BLOCK) [Card STAR ONE, Card BLOCK TWO, Card BLOCK TEN])
     \<le> length (filter (\<lambda>c. getSuit c = fst (selectSuit BalancedStrategy
          (sample_state [Card STAR ONE, Card BLOCK TWO, Card BLOCK TEN] [] (Card STAR TWO)) []))
        [Card STAR ONE, Card BLOCK TWO, Card BLOCK TEN])"
  using suit_choice_most_frequent [of "sample_state [Card STAR ONE, Card BLOCK TWO, Card BLOCK TEN] [] (Card STAR TWO)"
      0 BalancedStrategy BLOCK "[]"] by simp

end
