(* ===== verification/Whot_Store.thy ===== *)
theory Whot_Store
  imports Main "HOL-Library.Char_ord" "HOL-Library.List_Lexorder"
begin

text \<open>
  \<open>std::map\<close>: a list of key-value pairs with strictly increasing keys.  Strings are ordered as
  \<open>std::string\<close> orders them, lexicographically by unsigned character.  The locale \<open>ordered_store\<close>
  is the interface the session manager and the server rely on.
\<close>

type_synonym ('k, 'v) smap = "('k \<times> 'v) list"

definition map_get :: "('k, 'v) smap \<Rightarrow> 'k \<Rightarrow> 'v option" where
  "map_get m k = map_of m k"

fun map_put :: "'k::linorder \<Rightarrow> 'v \<Rightarrow> ('k, 'v) smap \<Rightarrow> ('k, 'v) smap" where
  "map_put k v [] = [(k, v)]"
| "map_put k v ((k', w) # m) =
     (if k < k' then (k, v) # (k', w) # m
      else if k = k' then (k, v) # m
      else (k', w) # map_put k v m)"

definition map_del :: "'k \<Rightarrow> ('k, 'v) smap \<Rightarrow> ('k, 'v) smap" where
  "map_del k m = filter (\<lambda>(k', w). k' \<noteq> k) m"

text \<open>The loop that erases every entry that satisfies a condition.\<close>

definition map_del_if :: "('v \<Rightarrow> bool) \<Rightarrow> ('k, 'v) smap \<Rightarrow> ('k, 'v) smap" where
  "map_del_if P m = filter (\<lambda>(k, v). \<not> P v) m"

text \<open>The keys of the entries that satisfy a condition, in the order of the iteration.\<close>

definition keys_where :: "('v \<Rightarrow> bool) \<Rightarrow> ('k, 'v) smap \<Rightarrow> 'k list" where
  "keys_where P m = map fst (filter (\<lambda>(k, v). P v) m)"

definition map_modify :: "'k::linorder \<Rightarrow> ('v \<Rightarrow> 'v) \<Rightarrow> ('k, 'v) smap \<Rightarrow> ('k, 'v) smap" where
  "map_modify k f m = (case map_get m k of Some v \<Rightarrow> map_put k (f v) m | None \<Rightarrow> m)"

definition map_wf :: "('k::linorder, 'v) smap \<Rightarrow> bool" where
  "map_wf m \<longleftrightarrow> sorted_wrt (<) (map fst m)"

lemma map_wf_Nil [simp]: "map_wf []"
  by (simp add: map_wf_def)

lemma map_wf_Cons: "map_wf ((k, v) # m) \<longleftrightarrow> (\<forall>k' \<in> fst ` set m. k < k') \<and> map_wf m"
  by (simp add: map_wf_def)

lemma keys_put: "fst ` set (map_put k v m) = insert k (fst ` set m)"
  by (induction k v m rule: map_put.induct) auto

lemma get_put: "map_wf m \<Longrightarrow> map_get (map_put k v m) k' = (if k = k' then Some v else map_get m k')"
  unfolding map_get_def by (induction k v m rule: map_put.induct) (auto simp: map_wf_Cons)

lemma wf_put: "map_wf m \<Longrightarrow> map_wf (map_put k v m)"
proof (induction k v m rule: map_put.induct)
  case (2 k v k' w m)
  then show ?case by (auto simp: map_wf_Cons keys_put)
qed (simp add: map_wf_Cons)

lemma get_del: "map_get (map_del k m) k' = (if k = k' then None else map_get m k')"
  unfolding map_get_def map_del_def by (induction m) auto

lemma wf_filter: "map_wf m \<Longrightarrow> map_wf (filter P m)"
  unfolding map_wf_def sorted_wrt_map by (rule sorted_wrt_filter)

lemma wf_del: "map_wf m \<Longrightarrow> map_wf (map_del k m)"
  by (simp add: map_del_def wf_filter)

lemma wf_del_if: "map_wf m \<Longrightarrow> map_wf (map_del_if P m)"
  by (simp add: map_del_if_def wf_filter)

lemma get_None: "map_get m k = None \<longleftrightarrow> k \<notin> fst ` set m"
  by (simp add: map_get_def map_of_eq_None_iff)

lemma distinct_keys: "map_wf m \<Longrightarrow> distinct (map fst m)"
  unfolding map_wf_def by (simp add: strict_sorted_iff)

lemma get_Some: "map_wf m \<Longrightarrow> map_get m k = Some v \<longleftrightarrow> (k, v) \<in> set m"
  unfolding map_get_def by (rule Some_eq_map_of_iff [OF distinct_keys, THEN trans [OF eq_commute]])

lemma get_del_if:
  assumes "map_wf m"
  shows "map_get (map_del_if P m) k =
    (case map_get m k of Some v \<Rightarrow> if P v then None else Some v | None \<Rightarrow> None)"
proof (cases "map_get (map_del_if P m) k")
  case None
  then show ?thesis
    using get_None [of "map_del_if P m" k] get_Some [OF assms, of k]
    by (auto simp: map_del_if_def image_iff split: option.split)
next
  case (Some v)
  then have "(k, v) \<in> set (map_del_if P m)" using get_Some [OF wf_del_if [OF assms]] by simp
  then show ?thesis using Some get_Some [OF assms, of k v] by (auto simp: map_del_if_def)
qed

lemma set_keys_where:
  "map_wf m \<Longrightarrow> set (keys_where P m) = {k. \<exists>v. map_get m k = Some v \<and> P v}"
  by (force simp: keys_where_def get_Some)

lemma keys_where_sorted: "map_wf m \<Longrightarrow> sorted_wrt (<) (keys_where P m)"
  using wf_filter [of m "\<lambda>(k, v). P v"] by (simp add: keys_where_def map_wf_def)

lemma get_modify:
  "map_wf m \<Longrightarrow> map_get (map_modify k f m) k' =
     (if k = k' then map_option f (map_get m k) else map_get m k')"
  by (simp add: map_modify_def get_put split: option.split)

lemma wf_modify: "map_wf m \<Longrightarrow> map_wf (map_modify k f m)"
  by (simp add: map_modify_def wf_put split: option.split)

section \<open>The interface\<close>

locale ordered_store =
  fixes lookup :: "'m \<Rightarrow> 'k::linorder \<Rightarrow> 'v option"
    and insert1 :: "'k \<Rightarrow> 'v \<Rightarrow> 'm \<Rightarrow> 'm"
    and erase1 :: "'k \<Rightarrow> 'm \<Rightarrow> 'm"
    and erase_if :: "('v \<Rightarrow> bool) \<Rightarrow> 'm \<Rightarrow> 'm"
    and select_keys :: "('v \<Rightarrow> bool) \<Rightarrow> 'm \<Rightarrow> 'k list"
    and ok :: "'m \<Rightarrow> bool"
  assumes lookup_insert: "ok m \<Longrightarrow> lookup (insert1 k v m) k' = (if k = k' then Some v else lookup m k')"
    and lookup_erase: "ok m \<Longrightarrow> lookup (erase1 k m) k' = (if k = k' then None else lookup m k')"
    and lookup_erase_if: "ok m \<Longrightarrow> lookup (erase_if P m) k =
        (case lookup m k of Some v \<Rightarrow> if P v then None else Some v | None \<Rightarrow> None)"
    and select_set: "ok m \<Longrightarrow> set (select_keys P m) = {k. \<exists>v. lookup m k = Some v \<and> P v}"
    and select_sorted: "ok m \<Longrightarrow> sorted_wrt (<) (select_keys P m)"
    and ok_insert: "ok m \<Longrightarrow> ok (insert1 k v m)"
    and ok_erase: "ok m \<Longrightarrow> ok (erase1 k m)"
    and ok_erase_if: "ok m \<Longrightarrow> ok (erase_if P m)"
begin

lemma select_after_erase_if: "ok m \<Longrightarrow> (\<And>v. Q v \<Longrightarrow> P v) \<Longrightarrow> select_keys Q (erase_if P m) = []"
proof -
  assume ok: "ok m" and imp: "\<And>v. Q v \<Longrightarrow> P v"
  have "set (select_keys Q (erase_if P m)) = {}"
    unfolding select_set [OF ok_erase_if [OF ok]] using imp
    by (auto simp: lookup_erase_if [OF ok] split: option.splits if_splits)
  then show "select_keys Q (erase_if P m) = []" by simp
qed

lemma select_distinct: "ok m \<Longrightarrow> distinct (select_keys P m)"
  using select_sorted [of m P] by (simp add: strict_sorted_iff)

lemma select_partition:
  assumes "ok m" "lookup m k = Some v"
  shows "k \<in> set (select_keys P m) \<longleftrightarrow> lookup (erase_if P m) k = None"
  using assms by (simp add: select_set lookup_erase_if)

lemma insert_fresh_keeps: "ok m \<Longrightarrow> lookup m k = None \<Longrightarrow> lookup m k' = Some w \<Longrightarrow>
    lookup (insert1 k v m) k' = Some w"
  by (auto simp: lookup_insert)

end

interpretation std_map: ordered_store map_get map_put map_del map_del_if keys_where map_wf
  by unfold_locales
    (simp_all add: get_put get_del get_del_if set_keys_where keys_where_sorted wf_put wf_del wf_del_if)

end
