(* ===== verification/Whot_Session.thy ===== *)
theory Whot_Session
  imports Whot_Store Whot_Random
begin

text \<open>
  \<open>Network/SessionManager\<close>: the registry of connections.  Every operation runs under the mutex of
  the class, so operations are atomic and a concurrent run is a sequence of them.  Time points are
  nanoseconds of the steady clock.
\<close>

record Session =
  sess_sessionId :: string
  sess_playerId :: string
  sess_gameId :: string
  sess_lastActivity :: int
  sess_ipAddress :: string
  sess_metadata :: "(string, string) smap"
  sess_authenticated :: bool

type_synonym SessionManager = "(string, Session) smap"

definition generateSessionId :: "rng \<Rightarrow> string \<times> rng" where
  "generateSessionId r = generateId 24 r"

text \<open>The loop that draws ids until one is free; it need not end, then the result is \<open>None\<close>.\<close>

partial_function (option) fresh_session_id :: "SessionManager \<Rightarrow> rng \<Rightarrow> (string \<times> rng) option" where
  "fresh_session_id m r =
     (let (i, r') = generateSessionId r
      in if map_get m i \<noteq> None then fresh_session_id m r' else Some (i, r'))"

definition createSession :: "string \<Rightarrow> int \<Rightarrow> SessionManager \<Rightarrow> rng \<Rightarrow> (string \<times> SessionManager \<times> rng) option" where
  "createSession ip now m r =
     (case fresh_session_id m r of
        None \<Rightarrow> None
      | Some (i, r') \<Rightarrow>
          Some (i, map_put i \<lparr>sess_sessionId = i, sess_playerId = '''', sess_gameId = '''',
                    sess_lastActivity = now, sess_ipAddress = ip, sess_metadata = [],
                    sess_authenticated = False\<rparr> m, r'))"

definition destroySession :: "string \<Rightarrow> SessionManager \<Rightarrow> SessionManager" where
  "destroySession i m = map_del i m"

definition sessionExists :: "string \<Rightarrow> SessionManager \<Rightarrow> bool" where
  "sessionExists i m \<longleftrightarrow> map_get m i \<noteq> None"

definition getSession :: "string \<Rightarrow> SessionManager \<Rightarrow> Session option" where
  "getSession i m = map_get m i"

definition setPlayerId :: "string \<Rightarrow> string \<Rightarrow> SessionManager \<Rightarrow> SessionManager" where
  "setPlayerId i pid m = map_modify i (\<lambda>s. s\<lparr>sess_playerId := pid\<rparr>) m"

definition setGameId :: "string \<Rightarrow> string \<Rightarrow> SessionManager \<Rightarrow> SessionManager" where
  "setGameId i gid m = map_modify i (\<lambda>s. s\<lparr>sess_gameId := gid\<rparr>) m"

definition updateActivity :: "string \<Rightarrow> int \<Rightarrow> SessionManager \<Rightarrow> SessionManager" where
  "updateActivity i now m = map_modify i (\<lambda>s. s\<lparr>sess_lastActivity := now\<rparr>) m"

definition getSessionsForGame :: "string \<Rightarrow> SessionManager \<Rightarrow> string list" where
  "getSessionsForGame gid m = keys_where (\<lambda>s. sess_gameId s = gid) m"

definition getSessionsForPlayer :: "string \<Rightarrow> SessionManager \<Rightarrow> string list" where
  "getSessionsForPlayer pid m = keys_where (\<lambda>s. sess_playerId s = pid) m"

definition getSessionIdForPlayer :: "string \<Rightarrow> SessionManager \<Rightarrow> string" where
  "getSessionIdForPlayer pid m =
     (case keys_where (\<lambda>s. sess_playerId s = pid) m of [] \<Rightarrow> '''' | i # _ \<Rightarrow> i)"

definition removeExpiredSessions :: "int \<Rightarrow> int \<Rightarrow> SessionManager \<Rightarrow> string list \<times> SessionManager" where
  "removeExpiredSessions timeoutSeconds now m =
     (if timeoutSeconds \<le> 0 then ([], m)
      else let threshold = now - timeoutSeconds * 1000000000
           in (keys_where (\<lambda>s. sess_lastActivity s < threshold) m,
               map_del_if (\<lambda>s. sess_lastActivity s < threshold) m))"

definition removeAllSessionsForGame :: "string \<Rightarrow> SessionManager \<Rightarrow> SessionManager" where
  "removeAllSessionsForGame gid m = map_del_if (\<lambda>s. sess_gameId s = gid) m"

definition getActiveSessionCount :: "SessionManager \<Rightarrow> nat" where
  "getActiveSessionCount m = length m"

lemmas session_defs [whot_defs] = destroySession_def sessionExists_def getSession_def setPlayerId_def
  setGameId_def updateActivity_def getSessionsForGame_def getSessionsForPlayer_def
  removeAllSessionsForGame_def

section \<open>Creating a session\<close>

text \<open>Every id consumes twenty-four numbers of the generator.\<close>

lemma nextInt_rest: "lo < hi \<Longrightarrow> snd (nextInt lo hi r) = drop 1 r"
  by (cases r) (simp_all add: nextInt_def)

lemma pick_chars_rest: "1 < length cs \<Longrightarrow> snd (pick_chars cs n r) = drop n r"
  by (induction n arbitrary: r) (simp_all add: split_beta Let_def nextInt_rest drop_Suc drop_tl)

lemma generateSessionId_rest: "snd (generateSessionId r) = drop 24 r"
  by (simp add: generateSessionId_def generateId_def pick_chars_rest id_chars_def)

lemma fresh_session_id_free: "fresh_session_id m r = Some x \<Longrightarrow> map_get m (fst x) = None"
proof (rule fresh_session_id.raw_induct [where P = "\<lambda>m r x. map_get m (fst x) = None"])
  fix f m r y
  assume "\<And>m' r' y'. f m' r' = Some y' \<Longrightarrow> map_get m' (fst y') = None"
    "(let (i, r') = generateSessionId r in if map_get m i \<noteq> None then f m r' else Some (i, r')) = Some y"
  then show "map_get m (fst y) = None" by (auto simp: split_beta split: if_splits)
qed

text \<open>The loop ends as soon as the generator comes to a free id.\<close>

lemma fresh_session_id_returns:
  "map_get m (fst (generateSessionId (drop (24 * n) r))) = None \<Longrightarrow>
   \<exists>i r'. fresh_session_id m r = Some (i, r')"
proof (induction n arbitrary: r)
  case 0
  then show ?case by (subst fresh_session_id.simps) (simp add: split_beta)
next
  case (Suc n)
  show ?case
  proof (cases "map_get m (fst (generateSessionId r)) = None")
    case True
    then show ?thesis by (subst fresh_session_id.simps) (simp add: split_beta)
  next
    case False
    have "drop (24 * n) (snd (generateSessionId r)) = drop (24 * Suc n) r"
      by (simp add: generateSessionId_rest add.commute)
    then obtain i r' where "fresh_session_id m (snd (generateSessionId r)) = Some (i, r')"
      using Suc.IH [of "snd (generateSessionId r)"] Suc.prems by auto
    then show ?thesis using False by (subst fresh_session_id.simps) (simp add: split_beta)
  qed
qed

end
