(* ===== verification/Whot_SessionProps.thy ===== *)
theory Whot_SessionProps
  imports Whot_Session
begin

text \<open>
  The properties of the session registry.  They rest on the interface \<open>ordered_store\<close> of
  \<open>std::map\<close>.
\<close>

section \<open>The registry is well formed\<close>

text \<open>Keys ascend, and every session is stored under its own id.\<close>

definition sessions_ok :: "SessionManager \<Rightarrow> bool" where
  "sessions_ok m \<longleftrightarrow> map_wf m \<and> list_all (\<lambda>(k, s). sess_sessionId s = k) m"

lemma sessions_ok_get:
  "sessions_ok m \<longleftrightarrow> map_wf m \<and> (\<forall>k s. map_get m k = Some s \<longrightarrow> sess_sessionId s = k)"
  by (auto simp: sessions_ok_def list_all_iff get_Some)

lemma sessions_ok_put:
  "sessions_ok m \<Longrightarrow> sess_sessionId s = k \<Longrightarrow> sessions_ok (map_put k s m)"
  by (auto simp: sessions_ok_get std_map.lookup_insert std_map.ok_insert split: if_splits)

lemma sessions_ok_modify:
  "sessions_ok m \<Longrightarrow> (\<And>s. sess_sessionId (f s) = sess_sessionId s) \<Longrightarrow> sessions_ok (map_modify k f m)"
  by (auto simp: map_modify_def sessions_ok_get intro!: sessions_ok_put [unfolded sessions_ok_get] split: option.split)

lemma sessions_ok_filter: "sessions_ok m \<Longrightarrow> sessions_ok (filter P m)"
  by (auto simp: sessions_ok_def wf_filter list_all_iff)

lemma sessions_ok_create: "sessions_ok m \<Longrightarrow> createSession ip now m r = Some (i, m', r') \<Longrightarrow> sessions_ok m'"
  by (auto simp: createSession_def split: option.splits prod.splits intro!: sessions_ok_put)

text \<open>Every operation of the registry keeps each session under its own id, in ascending order of the
  ids; the empty registry is in order.\<close>

theorem sessions_invariant:
  assumes "sessions_ok m"
  shows "sessions_ok [] \<and>
     pred_option (\<lambda>(i, m', r'). sessions_ok m') (createSession ip now m r) \<and>
     list_all sessions_ok
       [destroySession i m, setPlayerId i p m, setGameId i g m, updateActivity i now m,
        snd (removeExpiredSessions t now m), removeAllSessionsForGame g m]"
proof -
  have "pred_option (\<lambda>(i, m', r'). sessions_ok m') (createSession ip now m r)"
    using sessions_ok_create [OF assms] by (cases "createSession ip now m r") auto
  then show ?thesis
    using assms
    by (simp add: session_defs removeExpiredSessions_def map_del_def map_del_if_def Let_def
        sessions_ok_filter sessions_ok_modify) (simp add: sessions_ok_def)
qed

theorem sessions_invariant_witness:
  "sessions_ok (removeAllSessionsForGame ''g''
     [(''a'', \<lparr>sess_sessionId = ''a'', sess_playerId = ''p'', sess_gameId = ''g'', sess_lastActivity = 0,
        sess_ipAddress = [], sess_metadata = [], sess_authenticated = False\<rparr>)])"
  using sessions_invariant [of "[(''a'', \<lparr>sess_sessionId = ''a'', sess_playerId = ''p'', sess_gameId = ''g'',
      sess_lastActivity = 0, sess_ipAddress = [], sess_metadata = [], sess_authenticated = False\<rparr>)]"]
  by (simp add: sessions_ok_def map_wf_def)

section \<open>A new session\<close>

lemma fresh_session_id_first:
  "map_get m (fst (generateSessionId (drop (24 * n) r))) = None \<Longrightarrow>
   \<exists>k \<le> n. fresh_session_id m r = Some (generateSessionId (drop (24 * k) r)) \<and>
     map_get m (fst (generateSessionId (drop (24 * k) r))) = None \<and>
     list_all (\<lambda>j. map_get m (fst (generateSessionId (drop (24 * j) r))) \<noteq> None) [0..<k]"
proof (induction n arbitrary: r)
  case 0
  then show ?case by (subst fresh_session_id.simps) (simp add: split_beta)
next
  case (Suc n)
  show ?case
  proof (cases "map_get m (fst (generateSessionId r)) = None")
    case True
    then have "fresh_session_id m r = Some (generateSessionId (drop (24 * 0) r))"
      by (subst fresh_session_id.simps) (simp add: split_beta)
    with True show ?thesis by (intro exI [of _ 0]) simp
  next
    case False
    have next_id: "drop (24 * j) (snd (generateSessionId r)) = drop (24 * Suc j) r" for j
      by (simp add: generateSessionId_rest add.commute)
    obtain k where k: "k \<le> n" "fresh_session_id m (snd (generateSessionId r)) =
          Some (generateSessionId (drop (24 * Suc k) r))"
        "map_get m (fst (generateSessionId (drop (24 * Suc k) r))) = None"
        "list_all (\<lambda>j. map_get m (fst (generateSessionId (drop (24 * Suc j) r))) \<noteq> None) [0..<k]"
      using Suc.IH [of "snd (generateSessionId r)"] Suc.prems unfolding next_id by blast
    have "fresh_session_id m r = Some (generateSessionId (drop (24 * Suc k) r))"
      using False k(2) by (subst fresh_session_id.simps) (simp add: split_beta)
    moreover have "map_get m (fst (generateSessionId (drop (24 * j) r))) \<noteq> None" if "j < Suc k" for j
      using that False k(4) by (cases j) (auto simp: list_all_iff)
    ultimately show ?thesis using k(1,3) by (intro exI [of _ "Suc k"]) (simp add: list_all_iff)
  qed
qed

text \<open>As soon as the generator comes to an id not in use, a session is created under the first such id:
  it is unauthenticated and bound to no player and no game, and no other session is affected.\<close>

theorem session_created:
  assumes "map_wf m" "map_get m (fst (generateSessionId (drop (24 * n) r))) = None"
  shows "\<exists>k \<le> n. let (i, r') = generateSessionId (drop (24 * k) r);
                     s = \<lparr>sess_sessionId = i, sess_playerId = '''', sess_gameId = '''', sess_lastActivity = now,
                          sess_ipAddress = ip, sess_metadata = [], sess_authenticated = False\<rparr>
     in createSession ip now m r = Some (i, map_put i s m, r') \<and> length i = 24 \<and> map_get m i = None \<and>
        list_all (\<lambda>j. map_get m (fst (generateSessionId (drop (24 * j) r))) \<noteq> None) [0..<k] \<and>
        map_get (map_put i s m) = (map_get m)(i \<mapsto> s)"
proof -
  obtain k where "k \<le> n" "fresh_session_id m r = Some (generateSessionId (drop (24 * k) r))"
      "map_get m (fst (generateSessionId (drop (24 * k) r))) = None"
      "list_all (\<lambda>j. map_get m (fst (generateSessionId (drop (24 * j) r))) \<noteq> None) [0..<k]"
    using fresh_session_id_first [OF assms(2)] by blast
  moreover have "length (fst (generateSessionId (drop (24 * k) r))) = 24"
    by (simp add: generateSessionId_def generateId_def)
  moreover have "map_get (map_put i s m) = (map_get m)(i \<mapsto> s)" for i s
    by (auto simp: std_map.lookup_insert [OF assms(1)])
  ultimately show ?thesis
    by (intro exI [of _ k]) (simp add: createSession_def split_beta Let_def)
qed

theorem session_created_witness:
  "\<exists>i m' r'. createSession ''10.0.0.1'' 7 [] (replicate 24 0) = Some (i, m', r')"
  using session_created [of "[]" 0 "replicate 24 0" 7 "''10.0.0.1''"]
  by (auto simp: map_get_def split_beta Let_def)

section \<open>Expiry and removal\<close>

text \<open>With a positive timeout the sweep returns the ids of the sessions idle for longer, in ascending
  order and each once, and removes exactly these; with a timeout of zero or less it does nothing.\<close>

theorem expiry_exact:
  assumes "map_wf m"
  shows "let (removed, m') = removeExpiredSessions t now m;
             idle = (\<lambda>s. 0 < t \<and> now - sess_lastActivity s > t * 1000000000)
     in sorted_wrt (<) removed \<and> set removed = {i. pred_option idle (map_get m i) \<and> map_get m i \<noteq> None} \<and>
        map_wf m' \<and>
        (\<forall>i. map_get m' i = (case map_get m i of None \<Rightarrow> None | Some s \<Rightarrow> if idle s then None else Some s))"
proof (cases "t \<le> 0")
  case True
  have "{i. pred_option (\<lambda>s. False) (map_get m i) \<and> map_get m i \<noteq> None} = {}"
    by (auto simp: option.pred_set)
  with True show ?thesis using assms by (simp add: removeExpiredSessions_def Let_def split: option.split)
next
  case False
  then show ?thesis
    using std_map.select_sorted [OF assms] std_map.select_set [OF assms] std_map.ok_erase_if [OF assms]
      std_map.lookup_erase_if [OF assms]
    by (auto simp: removeExpiredSessions_def Let_def algebra_simps split: option.split)
qed

theorem expiry_exact_witness:
  "let (removed, m') = removeExpiredSessions 60 100000000000
     [(''a'', \<lparr>sess_sessionId = ''a'', sess_playerId = ''p'', sess_gameId = ''g'', sess_lastActivity = 0,
        sess_ipAddress = [], sess_metadata = [], sess_authenticated = False\<rparr>)] in map_wf m'"
  using expiry_exact [of "[(''a'', \<lparr>sess_sessionId = ''a'', sess_playerId = ''p'', sess_gameId = ''g'',
      sess_lastActivity = 0, sess_ipAddress = [], sess_metadata = [], sess_authenticated = False\<rparr>)]" 60 100000000000]
  by (auto simp: map_wf_def Let_def)

text \<open>Removing a game's sessions leaves none of it and every session of another game.\<close>

theorem game_sessions_removed:
  assumes "map_wf m"
  shows "getSessionsForGame g (removeAllSessionsForGame g m) = [] \<and>
     (\<forall>i. i \<notin> set (getSessionsForGame g m) \<longleftrightarrow>
        map_get (removeAllSessionsForGame g m) i = map_get m i)"
proof -
  have "getSessionsForGame g (removeAllSessionsForGame g m) = []"
    unfolding session_defs by (rule std_map.select_after_erase_if [OF assms])
  moreover have "i \<notin> set (getSessionsForGame g m) \<longleftrightarrow>
      map_get (removeAllSessionsForGame g m) i = map_get m i" for i
    by (auto simp: session_defs std_map.select_set [OF assms] std_map.lookup_erase_if [OF assms]
        split: option.split if_splits)
  ultimately show ?thesis by blast
qed

theorem game_sessions_removed_witness:
  "getSessionsForGame ''g'' (removeAllSessionsForGame ''g''
     [(''a'', \<lparr>sess_sessionId = ''a'', sess_playerId = ''p'', sess_gameId = ''g'', sess_lastActivity = 0,
        sess_ipAddress = [], sess_metadata = [], sess_authenticated = False\<rparr>)]) = []"
  using game_sessions_removed [of "[(''a'', \<lparr>sess_sessionId = ''a'', sess_playerId = ''p'', sess_gameId = ''g'',
      sess_lastActivity = 0, sess_ipAddress = [], sess_metadata = [], sess_authenticated = False\<rparr>)]"]
  by (simp add: map_wf_def)

end
