(* ===== verification/Whot_Http.thy ===== *)
theory Whot_Http
  imports Whot_Store Whot_Text
begin

text \<open>
  \<open>Network/HTTPServer\<close>: reading a request from the bytes of one \<open>recv\<close>, finding its handler, and
  writing the response.  Sockets and threads are not modelled; handlers are values of a type
  \<open>'h\<close> that \<open>call\<close> runs on a request, and \<open>fs\<close> gives the content of a file.
\<close>

datatype HttpMethod = GET | POST | PUT | DELETE | OPTIONS

record HttpRequest =
  req_method :: HttpMethod
  req_path :: string
  req_headers :: "(string, string) smap"
  req_queryParams :: "(string, string) smap"
  req_pathParams :: "(string, string) smap"
  req_body :: string

record HttpResponse =
  resp_statusCode :: int
  resp_headers :: "(string, string) smap"
  resp_body :: string

definition response :: "int \<Rightarrow> string \<Rightarrow> HttpResponse" where
  "response status body = \<lparr>resp_statusCode = status, resp_headers = [], resp_body = body\<rparr>"

definition resp_ok :: "string \<Rightarrow> HttpResponse" where "resp_ok body = response 200 body"
definition resp_created :: "string \<Rightarrow> HttpResponse" where "resp_created body = response 201 body"
definition resp_badRequest :: "string \<Rightarrow> HttpResponse" where "resp_badRequest msg = response 400 msg"
definition resp_notFound :: "string \<Rightarrow> HttpResponse" where "resp_notFound msg = response 404 msg"
definition resp_serverError :: "string \<Rightarrow> HttpResponse" where "resp_serverError msg = response 500 msg"

definition set_header :: "string \<Rightarrow> string \<Rightarrow> HttpResponse \<Rightarrow> HttpResponse" where
  "set_header k v resp = resp\<lparr>resp_headers := map_put k v (resp_headers resp)\<rparr>"

definition resp_json :: "int \<Rightarrow> string \<Rightarrow> HttpResponse" where
  "resp_json status body = set_header ''Content-Type'' ''application/json'' (response status body)"

definition parseMethod :: "string \<Rightarrow> HttpMethod" where
  "parseMethod s =
     (if s = ''GET'' then GET
      else if s = ''POST'' then POST
      else if s = ''PUT'' then PUT
      else if s = ''DELETE'' then DELETE
      else if s = ''OPTIONS'' then OPTIONS
      else GET)"

definition statusLine :: "int \<Rightarrow> string" where
  "statusLine status =
     (if status = 200 then ''200 OK''
      else if status = 201 then ''201 Created''
      else if status = 204 then ''204 No Content''
      else if status = 400 then ''400 Bad Request''
      else if status = 404 then ''404 Not Found''
      else if status = 500 then ''500 Internal Server Error''
      else ''200 OK'')"

section \<open>Reading a request\<close>

abbreviation CR :: char where "CR \<equiv> CHR 0x0D"
abbreviation LF :: char where "LF \<equiv> CHR 0x0A"
abbreviation NUL :: char where "NUL \<equiv> CHR 0x00"

definition crlf :: string where "crlf = [CR, LF]"

text \<open>\<open>stream >> word\<close> and \<open>std::getline\<close>.\<close>

definition read_word :: "string \<Rightarrow> string \<times> string" where
  "read_word s = (let t = dropWhile is_space s
                  in (takeWhile (\<lambda>c. \<not> is_space c) t, dropWhile (\<lambda>c. \<not> is_space c) t))"

definition read_line :: "string \<Rightarrow> (string \<times> string) option" where
  "read_line s =
     (if s = [] then None
      else Some (takeWhile (\<lambda>c. c \<noteq> LF) s, drop 1 (dropWhile (\<lambda>c. c \<noteq> LF) s)))"

text \<open>The text before and after the first occurrence of a character.\<close>

definition split_at :: "char \<Rightarrow> string \<Rightarrow> string \<times> string option" where
  "split_at ch s = (takeWhile (\<lambda>c. c \<noteq> ch) s,
     (case dropWhile (\<lambda>c. c \<noteq> ch) s of [] \<Rightarrow> None | _ # rest \<Rightarrow> Some rest))"

lemma split_at_shorter: "split_at ch s = (a, Some rest) \<Longrightarrow> length rest < length s"
proof -
  assume "split_at ch s = (a, Some rest)"
  then have "\<exists>c. dropWhile (\<lambda>c. c \<noteq> ch) s = c # rest" by (auto simp: split_at_def split: list.splits)
  then show "length rest < length s"
    using length_dropWhile_le [of "\<lambda>c. c \<noteq> ch" s] by auto
qed

definition query_pair :: "string \<Rightarrow> (string, string) smap \<Rightarrow> (string, string) smap" where
  "query_pair pair m =
     (case split_at (CHR ''='') pair of
        (k, Some v) \<Rightarrow> map_put k v m
      | (k, None) \<Rightarrow> m)"

function query_loop :: "string \<Rightarrow> (string, string) smap \<Rightarrow> (string, string) smap" where
  "query_loop qs m =
     (if qs = [] then m
      else case split_at (CHR ''&'') qs of
          (pair, None) \<Rightarrow> query_pair pair m
        | (pair, Some rest) \<Rightarrow> query_loop rest (query_pair pair m))"
  by pat_completeness auto
termination
  by (relation "measure (\<lambda>(qs, m). length qs)") (auto dest: split_at_shorter [OF sym])

declare query_loop.simps [simp del]

definition parse_target :: "string \<Rightarrow> string \<times> (string, string) smap" where
  "parse_target path =
     (case split_at (CHR ''?'') path of
        (p, Some qs) \<Rightarrow> (p, query_loop qs [])
      | (p, None) \<Rightarrow> (path, []))"

definition header_line :: "string \<Rightarrow> (string, string) smap \<Rightarrow> (string, string) smap" where
  "header_line line m =
     (case split_at (CHR '':'') line of
        (k, Some v) \<Rightarrow> map_put k v m
      | (k, None) \<Rightarrow> m)"

lemma read_line_shorter: "read_line s = Some (line, rest) \<Longrightarrow> length rest < length s"
proof -
  assume a: "read_line s = Some (line, rest)"
  then have "s \<noteq> []" "rest = drop 1 (dropWhile (\<lambda>c. c \<noteq> LF) s)"
    by (auto simp: read_line_def split: if_splits)
  then show "length rest < length s"
    using length_dropWhile_le [of "\<lambda>c. c \<noteq> LF" s] by (cases s) auto
qed

function header_loop :: "string \<Rightarrow> (string, string) smap \<Rightarrow> (string, string) smap" where
  "header_loop s m =
     (case read_line s of
        None \<Rightarrow> m
      | Some (line, rest) \<Rightarrow>
          if line = [CR] \<or> line = [] then m else header_loop rest (header_line line m))"
  by pat_completeness auto
termination
  by (relation "measure (\<lambda>(s, m). length s)") (auto dest: read_line_shorter)

declare header_loop.simps [simp del]

text \<open>\<open>std::strstr\<close>: the first index at which \<open>pat\<close> begins.\<close>

fun find_sub :: "string \<Rightarrow> string \<Rightarrow> nat option" where
  "find_sub pat [] = (if pat = [] then Some 0 else None)"
| "find_sub pat (c # s) =
     (if take (length pat) (c # s) = pat then Some 0 else map_option Suc (find_sub pat s))"

text \<open>The buffer is read as a C string; only the body is taken by length.\<close>

definition parse_request :: "string \<Rightarrow> HttpRequest" where
  "parse_request buf =
     (let cstr = takeWhile (\<lambda>c. c \<noteq> NUL) buf;
          (methodStr, s1) = read_word cstr;
          (path, s2) = read_word s1;
          (proto, s3) = read_word s2;
          (p, query) = parse_target path;
          body = (case find_sub (crlf @ crlf) cstr of None \<Rightarrow> [] | Some i \<Rightarrow> drop (i + 4) buf)
      in \<lparr>req_method = parseMethod methodStr, req_path = p, req_headers = header_loop s3 [],
          req_queryParams = query, req_pathParams = [], req_body = body\<rparr>)"

section \<open>Routing\<close>

function match_loop :: "string \<Rightarrow> string \<Rightarrow> (string, string) smap \<Rightarrow> (string, string) smap option" where
  "match_loop [] [] params = Some params"
| "match_loop [] (q # qs) params = None"
| "match_loop (p # ps) [] params = None"
| "match_loop (p # ps) (q # qs) params =
     (if p = CHR '':''
      then match_loop (dropWhile (\<lambda>c. c \<noteq> CHR ''/'') ps) (dropWhile (\<lambda>c. c \<noteq> CHR ''/'') (q # qs))
             (map_put (takeWhile (\<lambda>c. c \<noteq> CHR ''/'') ps) (takeWhile (\<lambda>c. c \<noteq> CHR ''/'') (q # qs)) params)
      else if p \<noteq> q then None
      else match_loop ps qs params)"
  by pat_completeness auto
termination
proof (relation "measure (\<lambda>(ps, qs, params). length ps)")
  fix ps :: string
  have "length (dropWhile (\<lambda>c. c \<noteq> CHR ''/'') ps) \<le> length ps" by (rule length_dropWhile_le)
  then show "((dropWhile (\<lambda>c. c \<noteq> CHR ''/'') ps, dropWhile (\<lambda>c. c \<noteq> CHR ''/'') (q # qs),
      map_put (takeWhile (\<lambda>c. c \<noteq> CHR ''/'') ps) (takeWhile (\<lambda>c. c \<noteq> CHR ''/'') (q # qs)) params),
      p # ps, q # qs, params) \<in> measure (\<lambda>(ps, qs, params). length ps)" for p q qs params by simp
qed simp_all

definition matchRoute :: "string \<Rightarrow> string \<Rightarrow> (string, string) smap option" where
  "matchRoute pattern path = match_loop pattern path []"

record 'h HttpServer =
  maxBodySize :: nat
  routes :: "(string, HttpMethod \<Rightarrow> 'h option) smap"
  patternRoutes :: "(string \<times> HttpMethod \<times> 'h) list"
  staticDirectories :: "(string, string) smap"
  staticRoot :: string

definition http_new :: "'h HttpServer" where
  "http_new = \<lparr>maxBodySize = 1024 * 1024, routes = [], patternRoutes = [], staticDirectories = [],
     staticRoot = ''''\<rparr>"

definition addRoute :: "HttpMethod \<Rightarrow> string \<Rightarrow> 'h \<Rightarrow> 'h HttpServer \<Rightarrow> 'h HttpServer" where
  "addRoute m path h srv =
     (let row = (case map_get (routes srv) path of Some row \<Rightarrow> row | None \<Rightarrow> Map.empty)
      in srv\<lparr>routes := map_put path (row(m \<mapsto> h)) (routes srv)\<rparr>)"

definition addPatternRoute :: "HttpMethod \<Rightarrow> string \<Rightarrow> 'h \<Rightarrow> 'h HttpServer \<Rightarrow> 'h HttpServer" where
  "addPatternRoute m pattern h srv = srv\<lparr>patternRoutes := patternRoutes srv @ [(pattern, m, h)]\<rparr>"

definition addStaticDirectory :: "string \<Rightarrow> string \<Rightarrow> 'h HttpServer \<Rightarrow> 'h HttpServer" where
  "addStaticDirectory url fsp srv = srv\<lparr>staticDirectories := map_put url fsp (staticDirectories srv)\<rparr>"

definition setStaticRoot :: "string \<Rightarrow> 'h HttpServer \<Rightarrow> 'h HttpServer" where
  "setStaticRoot fsp srv = srv\<lparr>staticRoot := fsp\<rparr>"

definition setMaxBodySize :: "nat \<Rightarrow> 'h HttpServer \<Rightarrow> 'h HttpServer" where
  "setMaxBodySize n srv = srv\<lparr>maxBodySize := n\<rparr>"

text \<open>The three fixed answers of \<open>setupGameApi\<close>; the handlers are the answers themselves.\<close>

definition setupGameApi :: "HttpResponse HttpServer \<Rightarrow> HttpResponse HttpServer" where
  \<open>setupGameApi srv =
     addRoute GET ''/api/health'' (resp_json 200 ''{"status":"ok"}'')
      (addRoute POST ''/api/games''
         (resp_json 201 ''{"gameId":"","message":"Use WebSocket to create game"}'')
       (addRoute GET ''/api/games'' (resp_json 200 ''[]'') srv))\<close>

definition preflight :: HttpResponse where
  "preflight =
     set_header ''Access-Control-Max-Age'' ''86400''
      (set_header ''Access-Control-Allow-Headers'' ''Content-Type''
       (set_header ''Access-Control-Allow-Methods'' ''GET, POST, PUT, DELETE, OPTIONS''
        (set_header ''Access-Control-Allow-Origin'' ''*'' (response 204 ''''))))"

fun match_patterns :: "(string \<times> HttpMethod \<times> 'h) list \<Rightarrow> HttpRequest \<Rightarrow> ('h \<times> HttpRequest) option" where
  "match_patterns [] req = None"
| "match_patterns ((pattern, m, h) # rs) req =
     (if m \<noteq> req_method req then match_patterns rs req
      else case matchRoute pattern (req_path req) of
          Some params \<Rightarrow> Some (h, req\<lparr>req_pathParams := params\<rparr>)
        | None \<Rightarrow> match_patterns rs req)"

definition find_handler :: "'h HttpServer \<Rightarrow> HttpRequest \<Rightarrow> ('h \<times> HttpRequest) option" where
  "find_handler srv req =
     (case map_get (routes srv) (req_path req) of
        Some row \<Rightarrow>
          (case row (req_method req) of
             Some h \<Rightarrow> Some (h, req)
           | None \<Rightarrow> match_patterns (patternRoutes srv) req)
      | None \<Rightarrow> match_patterns (patternRoutes srv) req)"

definition content_type :: "string \<Rightarrow> string option" where
  "content_type ext =
     (if ext = ''html'' then Some ''text/html; charset=utf-8''
      else if ext = ''css'' then Some ''text/css; charset=utf-8''
      else if ext = ''js'' then Some ''application/javascript; charset=utf-8''
      else if ext = ''json'' then Some ''application/json''
      else if ext = ''png'' then Some ''image/png''
      else if ext = ''svg'' then Some ''image/svg+xml''
      else if ext = ''ico'' then Some ''image/x-icon''
      else None)"

definition static_path :: "string \<Rightarrow> string \<Rightarrow> string" where
  "static_path root urlPath =
     (let path = (if urlPath = [] \<or> urlPath = ''/'' then ''/index.html'' else urlPath);
          path = (if hd path = CHR ''/'' then drop 1 path else path);
          full = (if root = [] \<or> last root \<noteq> CHR ''/'' then root @ ''/'' else root)
      in full @ path)"

text \<open>The extension is what follows the last dot of the URL path.\<close>

definition serveStaticFile :: "(string \<Rightarrow> string option) \<Rightarrow> string \<Rightarrow> string \<Rightarrow> HttpResponse" where
  "serveStaticFile fs root urlPath =
     (case fs (static_path root urlPath) of
        None \<Rightarrow> resp_notFound ''''
      | Some body \<Rightarrow>
          let r = response 200 body in
          if CHR ''.'' \<in> set urlPath
          then (case content_type (rev (takeWhile (\<lambda>c. c \<noteq> CHR ''.'') (rev urlPath))) of
                  Some ty \<Rightarrow> set_header ''Content-Type'' ty r
                | None \<Rightarrow> r)
          else set_header ''Content-Type'' ''text/html; charset=utf-8'' r)"

definition handleRequest ::
    "('h \<Rightarrow> HttpRequest \<Rightarrow> 's \<Rightarrow> HttpResponse \<times> 's) \<Rightarrow> (string \<Rightarrow> string option) \<Rightarrow> 'h HttpServer \<Rightarrow>
     HttpRequest \<Rightarrow> 's \<Rightarrow> HttpResponse \<times> 's" where
  "handleRequest call fs srv req s =
     (if req_method req = OPTIONS then (preflight, s)
      else case find_handler srv req of
          Some (h, req') \<Rightarrow> call h req' s
        | None \<Rightarrow>
            if req_method req = GET \<and> staticRoot srv \<noteq> []
            then (serveStaticFile fs (staticRoot srv) (req_path req), s)
            else (resp_notFound (''Not Found: '' @ req_path req), s))"

section \<open>Writing the response\<close>

definition cors_headers :: "HttpResponse \<Rightarrow> HttpResponse" where
  "cors_headers resp =
     set_header ''Access-Control-Allow-Headers'' ''Content-Type''
      (set_header ''Access-Control-Allow-Methods'' ''GET, POST, PUT, DELETE, OPTIONS''
       (set_header ''Access-Control-Allow-Origin'' ''*'' resp))"

definition render_response :: "HttpResponse \<Rightarrow> string" where
  "render_response resp =
     ''HTTP/1.1 '' @ statusLine (resp_statusCode resp) @ crlf
     @ concat (map (\<lambda>(k, v). k @ '': '' @ v @ crlf) (resp_headers resp))
     @ (if map_get (resp_headers resp) ''Content-Length'' = None
        then ''Content-Length: '' @ nat_to_string (length (resp_body resp)) @ crlf else [])
     @ ''Connection: close'' @ crlf @ crlf @ resp_body resp"

definition serve_connection ::
    "('h \<Rightarrow> HttpRequest \<Rightarrow> 's \<Rightarrow> HttpResponse \<times> 's) \<Rightarrow> (string \<Rightarrow> string option) \<Rightarrow> 'h HttpServer \<Rightarrow>
     string \<Rightarrow> 's \<Rightarrow> string option \<times> 's" where
  "serve_connection call fs srv buf s =
     (if buf = [] then (None, s)
      else let req = parse_request buf;
               (resp, s') = (if length (req_body req) > maxBodySize srv
                             then (resp_badRequest ''Request body too large'', s)
                             else handleRequest call fs srv req s)
           in (Some (render_response (cors_headers resp)), s'))"

end
