(* ===== verification/Whot_HttpProps.thy ===== *)
theory Whot_HttpProps
  imports Whot_Http
begin

text \<open>
  The properties of the HTTP layer: what is read from a request, which paths a pattern matches,
  and which handler answers.
\<close>

section \<open>Reading a request\<close>

lemma read_word_word:
  assumes "w \<noteq> []" "\<forall>c \<in> set w. \<not> is_space c" "is_space d"
  shows "read_word (w @ d # s) = (w, d # s)"
proof -
  have "dropWhile is_space (w @ d # s) = w @ d # s"
    using assms(1,2) by (cases w) simp_all
  then show ?thesis
    using assms(2,3) by (simp add: read_word_def takeWhile_append2 dropWhile_append2)
qed

lemma read_word_space: "is_space d \<Longrightarrow> read_word (d # s) = read_word s"
  by (simp add: read_word_def)

lemma is_space_simps [simp]:
  "is_space (CHR '' '')" "is_space CR" "is_space LF" "\<not> is_space NUL"
  by (simp_all add: is_space_def)

section \<open>The first line of a request\<close>

text \<open>What \<open>parse_request\<close> does with the four parts of a request.\<close>

lemma parse_request_line:
  assumes "\<forall>w \<in> {mth, target, version}. w \<noteq> [] \<and> (\<forall>c \<in> set w. \<not> is_space c \<and> c \<noteq> NUL)"
  shows "let req = parse_request (mth @ '' '' @ target @ '' '' @ version @ crlf @ rest)
     in req_method req = parseMethod mth \<and> (req_path req, req_queryParams req) = parse_target target \<and>
        req_headers req = []"
proof -
  let ?buf = "mth @ '' '' @ target @ '' '' @ version @ crlf @ rest"
  let ?tail = "takeWhile (\<lambda>c. c \<noteq> NUL) rest"
  have w: "w \<noteq> []" "\<forall>c \<in> set w. \<not> is_space c" "\<forall>c \<in> set w. c \<noteq> NUL" if "w \<in> {mth, target, version}" for w
    using assms that by auto
  have cstr: "takeWhile (\<lambda>c. c \<noteq> NUL) ?buf = mth @ '' '' @ target @ '' '' @ version @ CR # LF # ?tail"
    using w(3) [of mth] w(3) [of target] w(3) [of version] by (simp add: takeWhile_append2 crlf_def)
  have m: "read_word (takeWhile (\<lambda>c. c \<noteq> NUL) ?buf) = (mth, '' '' @ target @ '' '' @ version @ CR # LF # ?tail)"
    unfolding cstr using read_word_word [of mth "CHR '' ''"] w(1,2) [of mth] by simp
  have t: "read_word ('' '' @ target @ '' '' @ version @ CR # LF # ?tail) = (target, '' '' @ version @ CR # LF # ?tail)"
    using read_word_word [of target "CHR '' ''"] w(1,2) [of target] by (simp add: read_word_space)
  have v: "read_word ('' '' @ version @ CR # LF # ?tail) = (version, CR # LF # ?tail)"
    using read_word_word [of version CR] w(1,2) [of version] by (simp add: read_word_space)
  have h: "header_loop (CR # LF # ?tail) [] = []"
    by (subst header_loop.simps) (simp add: read_line_def)
  show ?thesis
    unfolding parse_request_def Let_def m prod.case t v h
    by (simp add: split_beta)
qed

section \<open>Query parameters\<close>

fun render_query :: "(string \<times> string) list \<Rightarrow> string" where
  "render_query [] = []"
| "render_query [(k, v)] = k @ ''='' @ v"
| "render_query ((k, v) # kv # kvs) = k @ ''='' @ v @ ''&'' @ render_query (kv # kvs)"

lemma split_at_found: "ch \<notin> set a \<Longrightarrow> split_at ch (a @ ch # b) = (a, Some b)"
  by (induction a) (auto simp: split_at_def)

lemma split_at_absent: "ch \<notin> set a \<Longrightarrow> split_at ch a = (a, None)"
  by (induction a) (auto simp: split_at_def)

lemma query_pair_kv: "CHR ''='' \<notin> set k \<Longrightarrow> query_pair (k @ ''='' @ v) m = map_put k v m"
  using split_at_found [of "CHR ''=''" k v] by (simp add: query_pair_def)

text \<open>Reading a written query gives its pairs, a later value of a key replacing an earlier one (keys
  without \<open>=\<close> and \<open>&\<close>, values without \<open>&\<close>; nothing is percent-decoded).\<close>

theorem query_round_trip:
  assumes "\<forall>(k, v) \<in> set kvs. CHR ''='' \<notin> set k \<and> CHR ''&'' \<notin> set k \<and> CHR ''&'' \<notin> set v"
    and "CHR ''?'' \<notin> set p"
  shows "parse_target (p @ ''?'' @ render_query kvs) = (p, fold (\<lambda>(k, v). map_put k v) kvs [])"
proof -
  have "query_loop (render_query kvs) m = fold (\<lambda>(k, v). map_put k v) kvs m"
    if "\<forall>(k, v) \<in> set kvs. CHR ''='' \<notin> set k \<and> CHR ''&'' \<notin> set k \<and> CHR ''&'' \<notin> set v" for kvs m
    using that
  proof (induction kvs arbitrary: m rule: render_query.induct)
    case 1
    then show ?case by (subst query_loop.simps) simp
  next
    case (2 k v)
    then have "split_at (CHR ''&'') (k @ ''='' @ v) = (k @ ''='' @ v, None)" by (intro split_at_absent) auto
    then show ?case using 2 query_pair_kv [of k v m] by (subst query_loop.simps) simp
  next
    case (3 k v kv kvs)
    have "split_at (CHR ''&'') (k @ ''='' @ v @ ''&'' @ render_query (kv # kvs)) =
        (k @ ''='' @ v, Some (render_query (kv # kvs)))"
      using split_at_found [of "CHR ''&''" "k @ ''='' @ v" "render_query (kv # kvs)"] 3(2) by auto
    then show ?case using 3 query_pair_kv [of k v m] by (subst query_loop.simps) simp
  qed
  then show ?thesis
    using assms split_at_found [of "CHR ''?''" p "render_query kvs"] by (simp add: parse_target_def)
qed

theorem query_round_trip_witness:
  "parse_target (''/api/leaderboard'' @ ''?'' @ render_query [(''limit'', ''5'')]) = (''/api/leaderboard'', [(''limit'', ''5'')])"
  using query_round_trip [of "[(''limit'', ''5'')]" "''/api/leaderboard''"] by simp

lemma query_values:
  "map_wf m \<Longrightarrow> map_wf (fold (\<lambda>(k, v). map_put k v) kvs m) \<and>
     map_get (fold (\<lambda>(k, v). map_put k v) kvs m) key = (case map_of (rev kvs) key of Some v \<Rightarrow> Some v | None \<Rightarrow> map_get m key)"
proof (induction kvs arbitrary: m)
  case (Cons kv kvs)
  then show ?case
    using wf_put [of m "fst kv" "snd kv"] get_put [of m "fst kv" "snd kv" key]
    by (cases kv) (auto simp: map_add_def split: option.split)
qed simp

text \<open>C38: Of a request whose first line is \<open>METHOD SP PATH?KEY=VALUE&KEY=VALUE... SP VERSION CR LF\<close> the method is
  read, GET for any other than POST, PUT, DELETE and OPTIONS; the path; and of the query, if there is one, the last value
  of every key, not percent-decoded.  The headers are never read: the first line the header loop sees is
  the rest of the request line, a lone carriage return, which ends the loop.\<close>

theorem request_line_only:
  assumes "\<forall>w \<in> {mth, p, version}. w \<noteq> [] \<and> (\<forall>c \<in> set w. \<not> is_space c \<and> c \<noteq> NUL)" "CHR ''?'' \<notin> set p"
    and "\<forall>(k, v) \<in> set kvs. CHR ''='' \<notin> set k \<and> CHR ''&'' \<notin> set k \<and> CHR ''&'' \<notin> set v \<and>
      (\<forall>c \<in> set k \<union> set v. \<not> is_space c \<and> c \<noteq> NUL)"
    and "target = (if has_query then p @ ''?'' @ render_query kvs else p)"
  shows "let req = parse_request (mth @ '' '' @ target @ '' '' @ version @ crlf @ rest)
     in (mth = ''POST'' \<longrightarrow> req_method req = POST) \<and> (mth = ''PUT'' \<longrightarrow> req_method req = PUT) \<and>
        (mth = ''DELETE'' \<longrightarrow> req_method req = DELETE) \<and> (mth = ''OPTIONS'' \<longrightarrow> req_method req = OPTIONS) \<and>
        (mth \<notin> {''POST'', ''PUT'', ''DELETE'', ''OPTIONS''} \<longrightarrow> req_method req = GET) \<and>
        req_path req = p \<and>
        (\<forall>k. map_get (req_queryParams req) k = (if has_query then map_of (rev kvs) k else None)) \<and>
        req_headers req = []"
proof -
  let ?req = "parse_request (mth @ '' '' @ target @ '' '' @ version @ crlf @ rest)"
  have signs: "\<not> is_space (CHR ''='')" "\<not> is_space (CHR ''&'')" by (simp_all add: is_space_def)
  have letters: "\<forall>c \<in> set (render_query kvs). \<not> is_space c \<and> c \<noteq> NUL"
    using assms(3)
  proof (induction kvs rule: render_query.induct)
    case (3 k v kv kvs)
    then have "\<forall>c \<in> set (render_query (kv # kvs)). \<not> is_space c \<and> c \<noteq> NUL" by simp
    with 3(2) show ?case by (simp add: ball_Un signs)
  qed (simp_all add: ball_Un signs)
  have p: "p \<noteq> [] \<and> (\<forall>c \<in> set p. \<not> is_space c \<and> c \<noteq> NUL)" using assms(1) by blast
  have mark: "\<not> is_space (CHR ''?'')" "CHR ''?'' \<noteq> NUL" by (simp_all add: is_space_def)
  have "target \<noteq> [] \<and> (\<forall>c \<in> set target. \<not> is_space c \<and> c \<noteq> NUL)"
    unfolding assms(4) using p letters mark by (simp add: ball_Un)
  then have "\<forall>w \<in> {mth, target, version}. w \<noteq> [] \<and> (\<forall>c \<in> set w. \<not> is_space c \<and> c \<noteq> NUL)" using assms(1) by simp
  note line = parse_request_line [OF this, of rest, unfolded Let_def]
  have "parse_target target = (if has_query then (p, fold (\<lambda>(k, v). map_put k v) kvs []) else (p, []))"
  proof (cases has_query)
    case True
    then show ?thesis using query_round_trip [of kvs p] assms(2-4) by fastforce
  next
    case False
    then show ?thesis using split_at_absent [OF assms(2)] assms(4) by (simp add: parse_target_def)
  qed
  then have target: "req_path ?req = p" "req_queryParams ?req = (if has_query then fold (\<lambda>(k, v). map_put k v) kvs [] else [])"
    using line by (auto split: if_splits)
  have "map_get (req_queryParams ?req) k = (if has_query then map_of (rev kvs) k else None)" for k
    unfolding target(2) using query_values [of "[]" kvs k] by (auto simp: map_wf_def map_get_def split: option.split)
  moreover have "req_method ?req = parseMethod mth" "req_headers ?req = []" using line by simp_all
  ultimately show ?thesis using target(1) by (auto simp: Let_def parseMethod_def)
qed

theorem request_line_only_witness:
  "let req = parse_request (''GET'' @ '' '' @ ''/api/leaderboard?limit=5'' @ '' '' @ ''HTTP/1.1'' @ crlf @ ''Host: x'' @ crlf @ crlf)
   in req_path req = ''/api/leaderboard'' \<and> map_get (req_queryParams req) ''limit'' = Some ''5'' \<and> req_headers req = []"
  using request_line_only [of "''GET''" "''/api/leaderboard''" "''HTTP/1.1''" "[(''limit'', ''5'')]" "''/api/leaderboard?limit=5''"
      True "''Host: x'' @ crlf @ crlf"]
  by (simp add: is_space_def Let_def)

section \<open>Patterns\<close>

lemma match_literal:
  "CHR '':'' \<notin> set pre \<Longrightarrow> match_loop (pre @ ps) (pre @ qs) m = match_loop ps qs m"
  by (induction pre) auto

lemma match_literal_prefix:
  "CHR '':'' \<notin> set pre \<Longrightarrow> match_loop (pre @ ps) path m = Some r \<Longrightarrow> \<exists>qs. path = pre @ qs"
proof (induction pre arbitrary: path)
  case (Cons c pre)
  then obtain q qs where path: "path = q # qs" by (cases path) auto
  with Cons.prems have "q = c" "match_loop (pre @ ps) qs m = Some r" by (auto split: if_splits)
  with Cons.IH [of qs] Cons.prems(1) path show ?case by auto
qed simp

lemma match_literal_all:
  assumes "CHR '':'' \<notin> set post"
  shows "match_loop post qs m = Some r \<longleftrightarrow> qs = post \<and> r = m"
proof
  assume a: "match_loop post qs m = Some r"
  then obtain rest where "qs = post @ rest" using match_literal_prefix [OF assms, of "[]" qs m r] by auto
  with a show "qs = post \<and> r = m" using match_literal [OF assms, of "[]" rest m] by (cases rest) auto
next
  assume "qs = post \<and> r = m"
  then show "match_loop post qs m = Some r" using match_literal [OF assms, of "[]" "[]" m] by simp
qed

text \<open>C39: A pattern with one parameter matches exactly the paths that have one path segment in its
  place, which is the value of the parameter; it may be empty only when more of the pattern
  follows.\<close>

theorem pattern_matches_iff:
  assumes "CHR '':'' \<notin> set pre" "CHR '':'' \<notin> set post" "CHR ''/'' \<notin> set name"
    and "post = [] \<or> hd post = CHR ''/''"
  shows "matchRoute (pre @ CHR '':'' # name @ post) path = Some params \<longleftrightarrow>
    (\<exists>v. CHR ''/'' \<notin> set v \<and> path = pre @ v @ post \<and> v @ post \<noteq> [] \<and> params = [(name, v)])"
proof -
  let ?seg = "\<lambda>c. c \<noteq> CHR ''/''"
  have name: "takeWhile ?seg (name @ post) = name" "dropWhile ?seg (name @ post) = post"
    using assms(3,4) by (cases post; auto simp: takeWhile_append2 dropWhile_append2 takeWhile_append dropWhile_append)+
  have step: "match_loop (CHR '':'' # name @ post) qs [] = Some params \<longleftrightarrow>
      (\<exists>v. CHR ''/'' \<notin> set v \<and> qs = v @ post \<and> qs \<noteq> [] \<and> params = [(name, v)])" for qs
  proof (cases qs)
    case (Cons q rest)
    have start: "match_loop (CHR '':'' # name @ post) qs [] =
        match_loop post (dropWhile ?seg qs) [(name, takeWhile ?seg qs)]"
      using name by (simp add: Cons)
    have all: "match_loop post (dropWhile ?seg qs) [(name, takeWhile ?seg qs)] = Some params \<longleftrightarrow>
        dropWhile ?seg qs = post \<and> params = [(name, takeWhile ?seg qs)]"
      by (rule match_literal_all [OF assms(2)])
    have "dropWhile ?seg qs = post \<and> params = [(name, takeWhile ?seg qs)] \<longleftrightarrow>
        (\<exists>v. CHR ''/'' \<notin> set v \<and> qs = v @ post \<and> qs \<noteq> [] \<and> params = [(name, v)])"
    proof
      assume a: "dropWhile ?seg qs = post \<and> params = [(name, takeWhile ?seg qs)]"
      have "qs = takeWhile ?seg qs @ dropWhile ?seg qs" by simp
      moreover have "CHR ''/'' \<notin> set (takeWhile ?seg qs)" by (auto dest: set_takeWhileD)
      ultimately show "\<exists>v. CHR ''/'' \<notin> set v \<and> qs = v @ post \<and> qs \<noteq> [] \<and> params = [(name, v)]"
        using a Cons by (intro exI [of _ "takeWhile ?seg qs"]) auto
    next
      assume "\<exists>v. CHR ''/'' \<notin> set v \<and> qs = v @ post \<and> qs \<noteq> [] \<and> params = [(name, v)]"
      then obtain v where v: "CHR ''/'' \<notin> set v" "qs = v @ post" "params = [(name, v)]" by blast
      have "takeWhile ?seg (v @ post) = v" "dropWhile ?seg (v @ post) = post"
        using v(1) assms(4)
        by (cases post; auto simp: takeWhile_append2 dropWhile_append2 takeWhile_append dropWhile_append)+
      then show "dropWhile ?seg qs = post \<and> params = [(name, takeWhile ?seg qs)]" using v by simp
    qed
    then show ?thesis unfolding start all .
  qed simp
  show ?thesis
  proof
    assume a: "matchRoute (pre @ CHR '':'' # name @ post) path = Some params"
    then obtain qs where "path = pre @ qs"
      using match_literal_prefix [OF assms(1)] unfolding matchRoute_def by blast
    then show "\<exists>v. CHR ''/'' \<notin> set v \<and> path = pre @ v @ post \<and> v @ post \<noteq> [] \<and> params = [(name, v)]"
      using a step [of qs] match_literal [OF assms(1)] by (auto simp: matchRoute_def)
  next
    assume "\<exists>v. CHR ''/'' \<notin> set v \<and> path = pre @ v @ post \<and> v @ post \<noteq> [] \<and> params = [(name, v)]"
    then obtain v where "CHR ''/'' \<notin> set v" "path = pre @ v @ post" "v @ post \<noteq> []" "params = [(name, v)]"
      by blast
    then show "matchRoute (pre @ CHR '':'' # name @ post) path = Some params"
      using step [of "v @ post"] match_literal [OF assms(1), of _ "v @ post"] by (auto simp: matchRoute_def)
  qed
qed

theorem pattern_matches_iff_witness:
  "matchRoute (''/api/games/'' @ CHR '':'' # ''id'' @ ''/join'') ''/api/games/g1/join'' = Some [(''id'', ''g1'')]"
  by (subst pattern_matches_iff) (auto intro!: exI [of _ "''g1''"])

section \<open>Handlers\<close>

text \<open>An exact route answers its requests, whatever patterns and other routes there are, and adding
  it leaves every other method and path with the handler it had.\<close>

theorem exact_route_wins:
  assumes "map_wf (routes srv)"
  shows "(req_method req = m \<and> req_path req = path \<and> m \<noteq> OPTIONS \<longrightarrow>
       handleRequest call fs (addRoute m path h srv) req s = call h req s) \<and>
     (req_method req \<noteq> m \<or> req_path req \<noteq> path \<longrightarrow>
       handleRequest call fs (addRoute m path h srv) req s = handleRequest call fs srv req s)"
proof -
  have get: "map_get (routes (addRoute m path h srv)) p =
      (if path = p then Some ((case map_get (routes srv) path of Some row \<Rightarrow> row | None \<Rightarrow> Map.empty)(m \<mapsto> h))
       else map_get (routes srv) p)" for p
    using std_map.lookup_insert [OF assms] by (simp add: addRoute_def Let_def)
  have rest: "patternRoutes (addRoute m p h srv) = patternRoutes srv"
    "staticRoot (addRoute m p h srv) = staticRoot srv" for p
    by (simp_all add: addRoute_def Let_def)
  have "req_method req \<noteq> m \<or> req_path req \<noteq> path \<Longrightarrow>
      find_handler (addRoute m path h srv) req = find_handler srv req"
    by (auto simp: find_handler_def get rest split: option.split)
  moreover have "req_method req = m \<and> req_path req = path \<Longrightarrow>
      find_handler (addRoute m path h srv) req = Some (h, req)"
    by (auto simp: find_handler_def get)
  moreover have root: "staticRoot (addRoute m path h srv) = staticRoot srv"
    by (simp add: addRoute_def Let_def)
  ultimately show ?thesis by (auto simp: handleRequest_def root split: option.split)
qed

theorem exact_route_wins_witness:
  "handleRequest (\<lambda>h req s. (resp_ok h, s)) (\<lambda>f. None) (addRoute POST ''/api/games/join'' ''join'' http_new)
     \<lparr>req_method = POST, req_path = ''/api/games/join'', req_headers = [], req_queryParams = [],
      req_pathParams = [], req_body = []\<rparr> () = (resp_ok ''join'', ())"
proof -
  have wf: "map_wf (routes (http_new :: string HttpServer))" by (simp add: http_new_def)
  show ?thesis
    using exact_route_wins [OF wf, of "\<lparr>req_method = POST, req_path = ''/api/games/join'', req_headers = [],
        req_queryParams = [], req_pathParams = [], req_body = []\<rparr>" POST "''/api/games/join''"
        "\<lambda>h req s. (resp_ok h, s)" "\<lambda>f. None" "''join''" "()"]
    by simp
qed

end
