(* ===== verification/Whot_Messages.thy ===== *)
theory Whot_Messages
  imports Whot_Json Whot_Store Whot_Card
begin

text \<open>
  \<open>Network/MessageProtocol\<close>: messages and their payloads.  \<open>parse\<close> and \<open>dump\<close> are the functions
  of the JSON library: \<open>parse\<close> of a text that is not JSON throws (\<open>None\<close>), \<open>dump\<close> writes a tree.
  Every reader runs its assignments inside one \<open>try\<close>: the first that throws ends the reading and
  the fields assigned before it keep their values (\<open>try_steps\<close>).  A field the code leaves
  uninitialised is the reader's argument.
\<close>

datatype MessageType =
    MSG_JOIN_GAME | MSG_LEAVE_GAME | MSG_START_GAME | MSG_PLAY_CARD | MSG_DRAW_CARD
  | MSG_DECLARE_LAST_CARD | MSG_DECLARE_CHECK_UP | MSG_CHOOSE_SUIT | MSG_CHAT_MESSAGE | MSG_READY_UP
  | MSG_GAME_STATE_UPDATE | MSG_PLAYER_JOINED | MSG_PLAYER_LEFT | MSG_TURN_STARTED | MSG_CARD_PLAYED
  | MSG_CARD_DRAWN | MSG_ROUND_ENDED | MSG_GAME_ENDED | MSG_ERROR | MSG_CHAT_BROADCAST
  | MSG_PING | MSG_PONG | MSG_raw nat

text \<open>The enumerators with their numbers; a cast of any other number is \<open>MSG_raw\<close>.\<close>

definition message_codes :: "(nat \<times> MessageType) list" where
  "message_codes =
     [(100, MSG_JOIN_GAME), (101, MSG_LEAVE_GAME), (109, MSG_START_GAME), (102, MSG_PLAY_CARD),
      (103, MSG_DRAW_CARD), (104, MSG_DECLARE_LAST_CARD), (105, MSG_DECLARE_CHECK_UP),
      (106, MSG_CHOOSE_SUIT), (107, MSG_CHAT_MESSAGE), (108, MSG_READY_UP),
      (200, MSG_GAME_STATE_UPDATE), (201, MSG_PLAYER_JOINED), (202, MSG_PLAYER_LEFT),
      (203, MSG_TURN_STARTED), (204, MSG_CARD_PLAYED), (205, MSG_CARD_DRAWN), (206, MSG_ROUND_ENDED),
      (207, MSG_GAME_ENDED), (208, MSG_ERROR), (209, MSG_CHAT_BROADCAST), (300, MSG_PING),
      (301, MSG_PONG)]"

definition cast_MessageType :: "nat \<Rightarrow> MessageType" where
  "cast_MessageType n = (case map_of message_codes n of Some ty \<Rightarrow> ty | None \<Rightarrow> MSG_raw n)"

definition message_type_int :: "MessageType \<Rightarrow> nat" where
  "message_type_int ty =
     (case ty of MSG_raw n \<Rightarrow> n
      | _ \<Rightarrow> (case find (\<lambda>p. snd p = ty) message_codes of Some (n, _) \<Rightarrow> n | None \<Rightarrow> 0))"

record Message =
  msg_type :: MessageType
  msg_playerId :: string
  msg_gameId :: string
  msg_payload :: string
  msg_timestamp :: nat

record JoinGamePayload =
  join_playerName :: string
  join_gameId :: string
  join_gameCode :: "string option"
  join_password :: "string option"

record PlayCardPayload =
  play_cardIndex :: nat
  play_chosenSuit :: "Suit option"
  play_reverseDirection :: "bool option"
  play_additionalCards :: "nat list"

record GameStateUpdatePayload =
  update_gameStateJson :: string
  update_visibleTo :: "string list"

record CardPlayedPayload =
  played_playerId :: string
  played_cardJson :: string
  played_cardsRemaining :: int
  played_saidLastCard :: bool

record RoundEndedPayload =
  ended_winnerId :: string
  ended_scores :: "(string, int) smap"
  ended_eliminatedPlayers :: "string list"

record ErrorPayload =
  error_errorCode :: string
  error_message :: string
  error_field :: "string option"

section \<open>Trees\<close>

text \<open>\<open>json j; j[k] = v; ...\<close> on the library's ordered object, and \<open>get\<close> of an unsigned type.\<close>

definition json_object :: "(string \<times> json) list \<Rightarrow> json" where
  "json_object ms = JObject (fold (\<lambda>(k, v). map_put k v) ms [])"

fun get_uint :: "nat \<Rightarrow> json \<Rightarrow> nat option" where
  "get_uint w (JInt n) = Some (nat (n mod 2 ^ w))"
| "get_uint w (JReal q) = Some (nat (to_zero q mod 2 ^ w))"
| "get_uint w (JBool b) = Some (if b then 1 else 0)"
| "get_uint w _ = None"

definition opt_member_of :: "string \<Rightarrow> ('a \<Rightarrow> json) \<Rightarrow> 'a option \<Rightarrow> (string \<times> json) list" where
  "opt_member_of k f x = (case x of Some v \<Rightarrow> [(k, f v)] | None \<Rightarrow> [])"

text \<open>One guarded assignment: \<open>if (j.contains(k)) field = j[k].get<T>();\<close>\<close>

definition read_field :: "json \<Rightarrow> string \<Rightarrow> (json \<Rightarrow> 'a option) \<Rightarrow> ('a \<Rightarrow> 'r \<Rightarrow> 'r) \<Rightarrow> 'r \<Rightarrow> 'r option" where
  "read_field j k get upd r =
     (case json_find j k of None \<Rightarrow> Some r | Some v \<Rightarrow> map_option (\<lambda>x. upd x r) (get v))"

text \<open>\<open>if (j.contains(k) && j[k].is_array()) for (x : j[k]) push_back(x.get<T>());\<close> as one step per element.\<close>

definition push_fields :: "json \<Rightarrow> string \<Rightarrow> (json \<Rightarrow> 'a option) \<Rightarrow> ('a \<Rightarrow> 'r \<Rightarrow> 'r) \<Rightarrow> ('r \<Rightarrow> 'r option) list" where
  "push_fields j k get push =
     (case json_find j k of
        Some (JArray xs) \<Rightarrow> map (\<lambda>x r. map_option (\<lambda>y. push y r) (get x)) xs
      | _ \<Rightarrow> [])"

fun try_steps :: "('r \<Rightarrow> 'r option) list \<Rightarrow> 'r \<Rightarrow> 'r" where
  "try_steps [] r = r"
| "try_steps (f # fs) r = (case f r of None \<Rightarrow> r | Some r' \<Rightarrow> try_steps fs r')"

definition read_with :: "(string \<Rightarrow> json option) \<Rightarrow> string \<Rightarrow> (json \<Rightarrow> ('r \<Rightarrow> 'r option) list) \<Rightarrow> 'r \<Rightarrow> 'r" where
  "read_with parse text steps r = (case parse text of None \<Rightarrow> r | Some j \<Rightarrow> try_steps (steps j) r)"

section \<open>Messages\<close>

definition message_json :: "Message \<Rightarrow> json" where
  "message_json m =
     json_object
      [(''type'', JInt (int (message_type_int (msg_type m)))),
       (''playerId'', JString (msg_playerId m)),
       (''gameId'', JString (msg_gameId m)),
       (''payload'', JString (msg_payload m)),
       (''timestamp'', JInt (int (msg_timestamp m)))]"

definition serialize :: "(json \<Rightarrow> string) \<Rightarrow> Message \<Rightarrow> string" where
  "serialize dump m = dump (message_json m)"

fun payload_text :: "(json \<Rightarrow> string) \<Rightarrow> json \<Rightarrow> string" where
  "payload_text dump (JString s) = s"
| "payload_text dump j = dump j"

definition message_steps :: "(json \<Rightarrow> string) \<Rightarrow> json \<Rightarrow> (Message \<Rightarrow> Message option) list" where
  "message_steps dump j =
     [read_field j ''type'' (get_uint 16) (\<lambda>n m. m\<lparr>msg_type := cast_MessageType n\<rparr>),
      read_field j ''playerId'' get_string (\<lambda>s m. m\<lparr>msg_playerId := s\<rparr>),
      read_field j ''gameId'' get_string (\<lambda>s m. m\<lparr>msg_gameId := s\<rparr>),
      read_field j ''payload'' (\<lambda>v. Some (payload_text dump v)) (\<lambda>s m. m\<lparr>msg_payload := s\<rparr>),
      read_field j ''timestamp'' (get_uint 64) (\<lambda>n m. m\<lparr>msg_timestamp := n\<rparr>)]"

definition deserialize :: "(string \<Rightarrow> json option) \<Rightarrow> (json \<Rightarrow> string) \<Rightarrow> nat \<Rightarrow> string \<Rightarrow> Message" where
  "deserialize parse dump now data =
     read_with parse data (message_steps dump)
       \<lparr>msg_type = MSG_ERROR, msg_playerId = '''', msg_gameId = '''', msg_payload = '''', msg_timestamp = now\<rparr>"

section \<open>Payloads\<close>

definition joinGame_json :: "JoinGamePayload \<Rightarrow> json" where
  "joinGame_json p =
     json_object ([(''playerName'', JString (join_playerName p)), (''gameId'', JString (join_gameId p))]
       @ opt_member_of ''password'' JString (join_password p))"

definition joinGame_steps :: "json \<Rightarrow> (JoinGamePayload \<Rightarrow> JoinGamePayload option) list" where
  "joinGame_steps j =
     [read_field j ''playerName'' get_string (\<lambda>s p. p\<lparr>join_playerName := s\<rparr>),
      read_field j ''gameId'' get_string (\<lambda>s p. p\<lparr>join_gameId := s\<rparr>),
      read_field j ''gameCode'' get_string (\<lambda>s p. p\<lparr>join_gameCode := Some s\<rparr>),
      read_field j ''password'' get_string (\<lambda>s p. p\<lparr>join_password := Some s\<rparr>)]"

definition joinGame_fromJson :: "(string \<Rightarrow> json option) \<Rightarrow> string \<Rightarrow> JoinGamePayload" where
  "joinGame_fromJson parse s =
     read_with parse s joinGame_steps
       \<lparr>join_playerName = '''', join_gameId = '''', join_gameCode = None, join_password = None\<rparr>"

definition playCard_json :: "PlayCardPayload \<Rightarrow> json" where
  "playCard_json p =
     json_object ([(''cardIndex'', JInt (int (play_cardIndex p)))]
       @ opt_member_of ''chosenSuit'' (\<lambda>s. JString (suitToString s)) (play_chosenSuit p)
       @ opt_member_of ''reverseDirection'' JBool (play_reverseDirection p)
       @ [(''additionalCards'', JArray (map (\<lambda>n. JInt (int n)) (play_additionalCards p)))])"

definition playCard_steps :: "json \<Rightarrow> (PlayCardPayload \<Rightarrow> PlayCardPayload option) list" where
  "playCard_steps j =
     [read_field j ''cardIndex'' (get_uint 64) (\<lambda>n p. p\<lparr>play_cardIndex := n\<rparr>),
      read_field j ''chosenSuit'' get_string (\<lambda>s p. p\<lparr>play_chosenSuit := Some (stringToSuit s)\<rparr>),
      read_field j ''reverseDirection'' get_bool (\<lambda>b p. p\<lparr>play_reverseDirection := Some b\<rparr>)]
     @ push_fields j ''additionalCards'' (get_uint 64)
         (\<lambda>n p. p\<lparr>play_additionalCards := play_additionalCards p @ [n]\<rparr>)"

definition playCard_fromJson :: "(string \<Rightarrow> json option) \<Rightarrow> string \<Rightarrow> PlayCardPayload" where
  "playCard_fromJson parse s =
     read_with parse s playCard_steps
       \<lparr>play_cardIndex = 0, play_chosenSuit = None, play_reverseDirection = None, play_additionalCards = []\<rparr>"

definition stateUpdate_json :: "GameStateUpdatePayload \<Rightarrow> json" where
  "stateUpdate_json p =
     json_object [(''gameStateJson'', JString (update_gameStateJson p)),
       (''visibleTo'', JArray (map JString (update_visibleTo p)))]"

definition stateUpdate_steps :: "json \<Rightarrow> (GameStateUpdatePayload \<Rightarrow> GameStateUpdatePayload option) list" where
  "stateUpdate_steps j =
     [read_field j ''gameStateJson'' get_string (\<lambda>s p. p\<lparr>update_gameStateJson := s\<rparr>)]
     @ push_fields j ''visibleTo'' get_string (\<lambda>s p. p\<lparr>update_visibleTo := update_visibleTo p @ [s]\<rparr>)"

definition stateUpdate_fromJson :: "(string \<Rightarrow> json option) \<Rightarrow> string \<Rightarrow> GameStateUpdatePayload" where
  "stateUpdate_fromJson parse s =
     read_with parse s stateUpdate_steps \<lparr>update_gameStateJson = '''', update_visibleTo = []\<rparr>"

definition cardPlayed_json :: "CardPlayedPayload \<Rightarrow> json" where
  "cardPlayed_json p =
     json_object [(''playerId'', JString (played_playerId p)), (''cardJson'', JString (played_cardJson p)),
       (''cardsRemaining'', JInt (played_cardsRemaining p)), (''saidLastCard'', JBool (played_saidLastCard p))]"

definition cardPlayed_steps :: "json \<Rightarrow> (CardPlayedPayload \<Rightarrow> CardPlayedPayload option) list" where
  "cardPlayed_steps j =
     [read_field j ''playerId'' get_string (\<lambda>s p. p\<lparr>played_playerId := s\<rparr>),
      read_field j ''cardJson'' get_string (\<lambda>s p. p\<lparr>played_cardJson := s\<rparr>),
      read_field j ''cardsRemaining'' get_int (\<lambda>n p. p\<lparr>played_cardsRemaining := n\<rparr>),
      read_field j ''saidLastCard'' get_bool (\<lambda>b p. p\<lparr>played_saidLastCard := b\<rparr>)]"

text \<open>\<open>cardsRemaining\<close> and \<open>saidLastCard\<close> have no initialiser: \<open>n0\<close> and \<open>b0\<close> are what the memory held.\<close>

definition cardPlayed_fromJson :: "(string \<Rightarrow> json option) \<Rightarrow> int \<Rightarrow> bool \<Rightarrow> string \<Rightarrow> CardPlayedPayload" where
  "cardPlayed_fromJson parse n0 b0 s =
     read_with parse s cardPlayed_steps
       \<lparr>played_playerId = '''', played_cardJson = '''', played_cardsRemaining = n0, played_saidLastCard = b0\<rparr>"

definition roundEnded_json :: "RoundEndedPayload \<Rightarrow> json" where
  "roundEnded_json p =
     json_object [(''winnerId'', JString (ended_winnerId p)),
       (''scores'', JObject (map (\<lambda>(k, n). (k, JInt n)) (ended_scores p))),
       (''eliminatedPlayers'', JArray (map JString (ended_eliminatedPlayers p)))]"

definition score_steps :: "json \<Rightarrow> (RoundEndedPayload \<Rightarrow> RoundEndedPayload option) list" where
  "score_steps j =
     (case json_find j ''scores'' of
        Some (JObject ms) \<Rightarrow>
          map (\<lambda>(k, v) p. map_option (\<lambda>n. p\<lparr>ended_scores := map_put k n (ended_scores p)\<rparr>) (get_int v)) ms
      | _ \<Rightarrow> [])"

definition roundEnded_steps :: "json \<Rightarrow> (RoundEndedPayload \<Rightarrow> RoundEndedPayload option) list" where
  "roundEnded_steps j =
     [read_field j ''winnerId'' get_string (\<lambda>s p. p\<lparr>ended_winnerId := s\<rparr>)]
     @ score_steps j
     @ push_fields j ''eliminatedPlayers'' get_string
         (\<lambda>s p. p\<lparr>ended_eliminatedPlayers := ended_eliminatedPlayers p @ [s]\<rparr>)"

definition roundEnded_fromJson :: "(string \<Rightarrow> json option) \<Rightarrow> string \<Rightarrow> RoundEndedPayload" where
  "roundEnded_fromJson parse s =
     read_with parse s roundEnded_steps
       \<lparr>ended_winnerId = '''', ended_scores = [], ended_eliminatedPlayers = []\<rparr>"

definition error_json :: "ErrorPayload \<Rightarrow> json" where
  "error_json p =
     json_object ([(''errorCode'', JString (error_errorCode p)), (''message'', JString (error_message p))]
       @ opt_member_of ''field'' JString (error_field p))"

definition error_steps :: "json \<Rightarrow> (ErrorPayload \<Rightarrow> ErrorPayload option) list" where
  "error_steps j =
     [read_field j ''errorCode'' get_string (\<lambda>s p. p\<lparr>error_errorCode := s\<rparr>),
      read_field j ''message'' get_string (\<lambda>s p. p\<lparr>error_message := s\<rparr>),
      read_field j ''field'' get_string (\<lambda>s p. p\<lparr>error_field := Some s\<rparr>)]"

definition error_fromJson :: "(string \<Rightarrow> json option) \<Rightarrow> string \<Rightarrow> ErrorPayload" where
  "error_fromJson parse s =
     read_with parse s error_steps \<lparr>error_errorCode = '''', error_message = '''', error_field = None\<rparr>"

lemmas payload_defs = joinGame_json_def joinGame_steps_def playCard_json_def playCard_steps_def
  stateUpdate_json_def stateUpdate_steps_def cardPlayed_json_def cardPlayed_steps_def
  roundEnded_json_def roundEnded_steps_def score_steps_def error_json_def error_steps_def

lemmas reader_defs = joinGame_fromJson_def playCard_fromJson_def stateUpdate_fromJson_def
  cardPlayed_fromJson_def roundEnded_fromJson_def error_fromJson_def read_with_def

end
