(* ===== verification/Whot_WebSocket.thy ===== *)
theory Whot_WebSocket
  imports Whot_Session Whot_Messages
begin

text \<open>
  \<open>Network/WebSocketServer\<close>: the table of open connections and the texts handed to the transport.
  A connection handle is a number; the callbacks of the websocketpp library are operations here, in
  the order the library makes them (its timers are in \<open>Whot_Timers\<close>).  \<open>ws_frames\<close>
  is what was given to \<open>server_.send\<close>, \<open>ws_closing\<close> what was given to \<open>server_.close\<close>, oldest
  first.  \<open>ws_running\<close> says that \<open>start\<close> made the implementation object.
\<close>

record WebSocketServer =
  ws_sessions :: SessionManager
  ws_maxConnections :: nat
  ws_heartbeatInterval :: int
  ws_timeout :: int
  ws_running :: bool
  hdl_to_session :: "(nat, string) smap"
  session_to_hdl :: "(string, nat) smap"
  ws_frames :: "(nat \<times> string) list"
  ws_closing :: "nat list"
  messagesSent :: nat
  messagesReceived :: nat

definition ws_new :: WebSocketServer where
  "ws_new = \<lparr>ws_sessions = [], ws_maxConnections = 1000, ws_heartbeatInterval = 30, ws_timeout = 60,
     ws_running = False, hdl_to_session = [], session_to_hdl = [], ws_frames = [], ws_closing = [],
     messagesSent = 0, messagesReceived = 0\<rparr>"

abbreviation on_sessions :: "(SessionManager \<Rightarrow> SessionManager) \<Rightarrow> WebSocketServer \<Rightarrow> WebSocketServer" where
  "on_sessions f ws \<equiv> ws\<lparr>ws_sessions := f (ws_sessions ws)\<rparr>"

definition ws_start :: "WebSocketServer \<Rightarrow> WebSocketServer" where
  "ws_start ws =
     (if ws_running ws then ws else ws\<lparr>ws_running := True, hdl_to_session := [], session_to_hdl := []\<rparr>)"

definition setMaxConnections :: "nat \<Rightarrow> WebSocketServer \<Rightarrow> WebSocketServer" where
  "setMaxConnections n ws = ws\<lparr>ws_maxConnections := n\<rparr>"

definition setHeartbeatInterval :: "int \<Rightarrow> WebSocketServer \<Rightarrow> WebSocketServer" where
  "setHeartbeatInterval n ws = ws\<lparr>ws_heartbeatInterval := n\<rparr>"

definition setTimeout :: "int \<Rightarrow> WebSocketServer \<Rightarrow> WebSocketServer" where
  "setTimeout n ws = ws\<lparr>ws_timeout := n\<rparr>"

section \<open>Sending\<close>

definition ws_send :: "string \<Rightarrow> string \<Rightarrow> WebSocketServer \<Rightarrow> WebSocketServer" where
  "ws_send sid data ws =
     (case map_get (session_to_hdl ws) sid of
        None \<Rightarrow> ws
      | Some h \<Rightarrow> ws\<lparr>ws_frames := ws_frames ws @ [(h, data)]\<rparr>)"

definition sendMessage :: "(json \<Rightarrow> string) \<Rightarrow> string \<Rightarrow> Message \<Rightarrow> WebSocketServer \<Rightarrow> WebSocketServer" where
  "sendMessage dump sid m ws =
     (if \<not> ws_running ws then ws
      else let ws1 = ws_send sid (serialize dump m) ws in ws1\<lparr>messagesSent := messagesSent ws1 + 1\<rparr>)"

definition getSessionIds :: "WebSocketServer \<Rightarrow> string list" where
  "getSessionIds ws = map fst (session_to_hdl ws)"

definition broadcastMessage :: "(json \<Rightarrow> string) \<Rightarrow> Message \<Rightarrow> WebSocketServer \<Rightarrow> WebSocketServer" where
  "broadcastMessage dump m ws =
     (if \<not> ws_running ws then ws
      else fold (\<lambda>sid. sendMessage dump sid m) (getSessionIds ws) ws)"

definition sendToGame :: "(json \<Rightarrow> string) \<Rightarrow> string \<Rightarrow> Message \<Rightarrow> WebSocketServer \<Rightarrow> WebSocketServer" where
  "sendToGame dump gid m ws =
     fold (\<lambda>sid. sendMessage dump sid m) (getSessionsForGame gid (ws_sessions ws)) ws"

section \<open>Callbacks of the transport\<close>

text \<open>A new connection gets a session of its own.\<close>

definition on_open :: "nat \<Rightarrow> string \<Rightarrow> int \<Rightarrow> rng \<Rightarrow> WebSocketServer \<Rightarrow> (WebSocketServer \<times> rng) option" where
  "on_open hdl ip now r ws =
     (case createSession ip now (ws_sessions ws) r of
        None \<Rightarrow> None
      | Some (sid, m, r') \<Rightarrow>
          let ws1 = ws\<lparr>ws_sessions := m\<rparr>
          in Some (if sid = '''' then ws1
                   else ws1\<lparr>hdl_to_session := map_put hdl sid (hdl_to_session ws1),
                            session_to_hdl := map_put sid hdl (session_to_hdl ws1)\<rparr>, r'))"

text \<open>The part of \<open>on_close\<close> before the disconnection handler; the session is destroyed after it.\<close>

definition close_connection :: "nat \<Rightarrow> WebSocketServer \<Rightarrow> string \<times> WebSocketServer" where
  "close_connection hdl ws =
     (case map_get (hdl_to_session ws) hdl of
        None \<Rightarrow> ('''', ws)
      | Some sid \<Rightarrow> (sid, ws\<lparr>hdl_to_session := map_del hdl (hdl_to_session ws),
                              session_to_hdl := map_del sid (session_to_hdl ws)\<rparr>))"

text \<open>\<open>on_message\<close> up to the call of the message handler.\<close>

definition receive :: "nat \<Rightarrow> int \<Rightarrow> WebSocketServer \<Rightarrow> string \<times> WebSocketServer" where
  "receive hdl now ws =
     (case map_get (hdl_to_session ws) hdl of
        None \<Rightarrow> ('''', ws)
      | Some sid \<Rightarrow>
          if sid = '''' then (sid, ws)
          else (sid, (on_sessions (updateActivity sid now) ws)\<lparr>messagesReceived := messagesReceived ws + 1\<rparr>))"

definition closeSession :: "string \<Rightarrow> WebSocketServer \<Rightarrow> WebSocketServer" where
  "closeSession sid ws =
     (case map_get (session_to_hdl ws) sid of
        None \<Rightarrow> ws
      | Some h \<Rightarrow> ws\<lparr>ws_closing := ws_closing ws @ [h]\<rparr>)"

definition checkTimeouts :: "int \<Rightarrow> WebSocketServer \<Rightarrow> WebSocketServer" where
  "checkTimeouts now ws =
     (if \<not> ws_running ws then ws
      else let (expired, m) = removeExpiredSessions (ws_timeout ws) now (ws_sessions ws)
           in fold closeSession expired (ws\<lparr>ws_sessions := m\<rparr>))"

section \<open>Timers, other requests and the end\<close>

text \<open>The connections a heartbeat pings, and how many seconds
  pass between two looks for idle sessions.\<close>

definition sendPings :: "WebSocketServer \<Rightarrow> nat list" where
  "sendPings ws = map fst (hdl_to_session ws)"

definition runHeartbeat :: "WebSocketServer \<Rightarrow> nat list" where
  "runHeartbeat ws = (if ws_running ws then sendPings ws else [])"

definition check_interval :: "WebSocketServer \<Rightarrow> int" where
  "check_interval ws = max 1 (ws_timeout ws div 2)"

definition getActiveConnectionCount :: "WebSocketServer \<Rightarrow> nat" where
  "getActiveConnectionCount ws = getActiveSessionCount (ws_sessions ws)"

text \<open>The status and the headers of the answer to a request that is no WebSocket handshake.\<close>

definition on_http_request :: "string \<Rightarrow> nat \<times> (string \<times> string) list" where
  "on_http_request meth =
     (if meth = ''OPTIONS''
      then (204, [(''Access-Control-Allow-Origin'', ''*''), (''Access-Control-Allow-Methods'', ''GET''),
                  (''Access-Control-Allow-Headers'', ''Content-Type'')])
      else (426, [(''Sec-WebSocket-Version'', ''13'')]))"

text \<open>\<open>stop\<close> asks for every connection to be closed and drops the tables with the implementation object;
  the sessions stay registered.\<close>

definition ws_stop :: "WebSocketServer \<Rightarrow> WebSocketServer" where
  "ws_stop ws =
     (if \<not> ws_running ws then ws
      else ws\<lparr>ws_running := False, ws_closing := ws_closing ws @ map fst (hdl_to_session ws),
              hdl_to_session := [], session_to_hdl := []\<rparr>)"

section \<open>The connection table\<close>

text \<open>The two maps are inverse to each other, so a text for a session reaches its connection alone.\<close>

definition table_ok :: "WebSocketServer \<Rightarrow> bool" where
  "table_ok ws \<longleftrightarrow>
     map_wf (hdl_to_session ws) \<and> map_wf (session_to_hdl ws) \<and>
     (\<forall>h sid. map_get (hdl_to_session ws) h = Some sid \<longleftrightarrow> map_get (session_to_hdl ws) sid = Some h)"

lemma table_ok_cong:
  "hdl_to_session ws' = hdl_to_session ws \<Longrightarrow> session_to_hdl ws' = session_to_hdl ws \<Longrightarrow> table_ok ws' = table_ok ws"
  by (simp add: table_ok_def)

lemma ws_send_frame [simp]:
  "hdl_to_session (ws_send sid d ws) = hdl_to_session ws" "session_to_hdl (ws_send sid d ws) = session_to_hdl ws"
  "ws_sessions (ws_send sid d ws) = ws_sessions ws" "ws_running (ws_send sid d ws) = ws_running ws"
  "ws_timeout (ws_send sid d ws) = ws_timeout ws" "ws_closing (ws_send sid d ws) = ws_closing ws"
  by (simp_all add: ws_send_def split: option.split)

lemma sendMessage_frame [simp]:
  "hdl_to_session (sendMessage dump sid m ws) = hdl_to_session ws"
  "session_to_hdl (sendMessage dump sid m ws) = session_to_hdl ws"
  "ws_sessions (sendMessage dump sid m ws) = ws_sessions ws" "ws_running (sendMessage dump sid m ws) = ws_running ws"
  "ws_timeout (sendMessage dump sid m ws) = ws_timeout ws" "ws_closing (sendMessage dump sid m ws) = ws_closing ws"
  by (simp_all add: sendMessage_def Let_def)

lemma closeSession_frame [simp]:
  "hdl_to_session (closeSession sid ws) = hdl_to_session ws" "session_to_hdl (closeSession sid ws) = session_to_hdl ws"
  "ws_sessions (closeSession sid ws) = ws_sessions ws" "ws_running (closeSession sid ws) = ws_running ws"
  "ws_frames (closeSession sid ws) = ws_frames ws"
  by (simp_all add: closeSession_def split: option.split)

text \<open>Connections are told apart by their handles, and a session that is connected is registered, or was
  removed by the sweep.\<close>

lemma table_ok_open:
  assumes "table_ok ws" "map_get (hdl_to_session ws) hdl = None"
    "map_get (session_to_hdl ws) sid = None"
  shows "table_ok (ws\<lparr>hdl_to_session := map_put hdl sid (hdl_to_session ws),
                      session_to_hdl := map_put sid hdl (session_to_hdl ws)\<rparr>)"
proof -
  have inv: "map_get (session_to_hdl ws) s = Some h \<longleftrightarrow> map_get (hdl_to_session ws) h = Some s" for h s
    using assms(1) by (simp add: table_ok_def)
  have "map_get (hdl_to_session ws) h \<noteq> Some sid" for h
    using inv [of sid h] assms(3) by simp
  with assms(1,2) show ?thesis by (auto simp: table_ok_def get_put wf_put inv)
qed

lemma table_ok_close: "table_ok ws \<Longrightarrow> table_ok (snd (close_connection hdl ws))"
proof -
  assume ok: "table_ok ws"
  have inv: "map_get (session_to_hdl ws) s = Some h \<longleftrightarrow> map_get (hdl_to_session ws) h = Some s" for h s
    using ok by (simp add: table_ok_def)
  show "table_ok (snd (close_connection hdl ws))"
  proof (cases "map_get (hdl_to_session ws) hdl")
    case (Some sid)
    have sole: "map_get (hdl_to_session ws) h = Some sid \<longleftrightarrow> h = hdl" for h
      using inv [of sid h] inv [of sid hdl] Some by auto
    have closed: "snd (close_connection hdl ws) = ws\<lparr>hdl_to_session := map_del hdl (hdl_to_session ws),
        session_to_hdl := map_del sid (session_to_hdl ws)\<rparr>"
      using Some by (simp add: close_connection_def)
    have "map_wf (hdl_to_session ws)" "map_wf (session_to_hdl ws)"
      using ok by (simp_all add: table_ok_def)
    then show ?thesis unfolding closed by (auto simp: table_ok_def get_del wf_del inv sole Some)
  qed (use ok in \<open>simp add: close_connection_def\<close>)
qed

end
