(* ===== verification/Whot_Utf8.thy ===== *)
theory Whot_Utf8
  imports Whot_Json
begin

text \<open>
  Which texts \<open>dump()\<close> accepts.  The strings of the server are byte strings, and \<open>nlohmann::json\<close>
  writes only strings in UTF-8 (RFC 3629: no overlong forms, no surrogates, nothing above U+10FFFF);
  for any other string in the tree \<open>dump()\<close> throws \<open>type_error.316\<close>.
\<close>

section \<open>UTF-8\<close>

definition tail_byte :: "char \<Rightarrow> bool" where
  "tail_byte c \<longleftrightarrow> 128 \<le> code_of c \<and> code_of c < 192"

text \<open>The bytes that may follow the first one of a character, each as a range.\<close>

definition lead :: "char \<Rightarrow> (nat \<times> nat) list option" where
  "lead c =
     (let n = code_of c
      in if n < 128 then Some []
         else if n < 194 then None
         else if n < 224 then Some [(128, 191)]
         else if n = 224 then Some [(160, 191), (128, 191)]
         else if n = 237 then Some [(128, 159), (128, 191)]
         else if n < 240 then Some [(128, 191), (128, 191)]
         else if n = 240 then Some [(144, 191), (128, 191), (128, 191)]
         else if n < 244 then Some [(128, 191), (128, 191), (128, 191)]
         else if n = 244 then Some [(128, 143), (128, 191), (128, 191)]
         else None)"

definition in_range :: "nat \<times> nat \<Rightarrow> char \<Rightarrow> bool" where
  "in_range r c \<longleftrightarrow> fst r \<le> code_of c \<and> code_of c \<le> snd r"

text \<open>The number of bytes of the character a text begins with, 0 when it begins with none.\<close>

fun first_char :: "string \<Rightarrow> nat" where
  "first_char [] = 0"
| "first_char (c # cs) =
     (case lead c of
        None \<Rightarrow> 0
      | Some rs \<Rightarrow> if list_all2 in_range rs (take (length rs) cs) then Suc (length rs) else 0)"

function utf8 :: "string \<Rightarrow> bool" where
  "utf8 s = (if s = [] then True else if first_char s = 0 then False else utf8 (drop (first_char s) s))"
  by auto
termination by (relation "measure length") auto

declare utf8.simps [simp del]

lemma utf8_Nil [simp]: "utf8 []"
  by (simp add: utf8.simps)

lemma utf8_step: "s \<noteq> [] \<Longrightarrow> utf8 s \<longleftrightarrow> 0 < first_char s \<and> utf8 (drop (first_char s) s)"
  by (subst utf8.simps) simp

text \<open>A text that begins with a character.\<close>

lemma first_char_cases:
  assumes "0 < first_char s"
  obtains c cs rs where "s = c # cs" "lead c = Some rs" "list_all2 in_range rs (take (length rs) cs)"
    "length rs \<le> length cs" "first_char s = Suc (length rs)"
proof -
  obtain c cs rs where s: "s = c # cs" "lead c = Some rs" "list_all2 in_range rs (take (length rs) cs)"
    using assms by (cases s) (auto split: option.splits if_splits)
  moreover from s(3) have "length rs \<le> length cs" using list_all2_lengthD by fastforce
  ultimately show ?thesis using that by simp
qed

lemma first_char_length: "first_char s \<le> length s"
  by (cases "0 < first_char s") (auto elim: first_char_cases)

text \<open>The first byte of a character is no tail byte, and the others are.\<close>

lemma lead_head: "lead c = Some rs \<Longrightarrow> \<not> tail_byte c"
  by (auto simp: lead_def tail_byte_def Let_def split: if_splits)

lemma lead_tails: "lead c = Some rs \<Longrightarrow> r \<in> set rs \<Longrightarrow> in_range r d \<Longrightarrow> tail_byte d"
  by (auto simp: lead_def tail_byte_def in_range_def Let_def split: if_splits)

lemma first_char_head: "0 < first_char s \<Longrightarrow> \<not> tail_byte (s ! 0)"
  by (cases s) (auto dest: lead_head split: option.splits)

lemma first_char_tails:
  assumes "0 < n" "n < first_char s"
  shows "tail_byte (s ! n)"
proof -
  from assms have "0 < first_char s" by simp
  then obtain c cs rs where s: "s = c # cs" "lead c = Some rs" "list_all2 in_range rs (take (length rs) cs)"
    "n < Suc (length rs)" using assms(2) by (elim first_char_cases) simp
  obtain k where k: "n = Suc k" "k < length rs" using assms(1) s(4) by (cases n) simp_all
  then have "in_range (rs ! k) (cs ! k)" using list_all2_nthD [OF s(3) k(2)] by simp
  then show ?thesis using lead_tails [OF s(2) nth_mem [OF k(2)]] k(1) s(1) by simp
qed

text \<open>What follows a character does not matter, and a part of it is none.\<close>

lemma first_char_take:
  assumes "0 < first_char s" "first_char s \<le> n"
  shows "first_char (take n s) = first_char s"
  using assms(1)
proof (cases rule: first_char_cases)
  case (1 c cs rs)
  then obtain m where "n = Suc m" "length rs \<le> m" using assms(2) by (cases n) simp_all
  then show ?thesis using 1 by (simp add: min_def)
qed

lemma first_char_append:
  assumes "0 < first_char s"
  shows "first_char (s @ t) = first_char s"
  using assms by (cases rule: first_char_cases) simp

lemma first_char_part: "0 < n \<Longrightarrow> n < first_char s \<Longrightarrow> first_char (take n s) = 0"
  using first_char_append [of "take n s" "drop n s"] first_char_length [of "take n s"]
  by (cases "first_char (take n s)") auto

section \<open>Putting texts together and cutting them\<close>

lemma utf8_append: "utf8 s \<Longrightarrow> utf8 (s @ t) = utf8 t"
proof (induction s rule: utf8.induct)
  case (1 s)
  show ?case
  proof (cases "s = []")
    case False
    then have c: "0 < first_char s" "utf8 (drop (first_char s) s)" using 1(2) utf8_step by auto
    then have "utf8 (drop (first_char s) s @ t) = utf8 t" using 1(1) [OF False] by simp
    then show ?thesis
      using False c first_char_append [OF c(1), of t] first_char_length [of s] utf8_step [of "s @ t"] by simp
  qed simp
qed

lemma utf8_ascii: "\<forall>c \<in> set s. code_of c < 128 \<Longrightarrow> utf8 s"
proof (induction s)
  case (Cons c s)
  then have "first_char (c # s) = 1" by (simp add: lead_def)
  then show ?case using Cons utf8_step [of "c # s"] by simp
qed simp

lemma utf8_ascii_Cons: "code_of c < 128 \<Longrightarrow> utf8 (c # s) = utf8 s"
  using utf8_append [OF utf8_ascii, of "[c]" s] by simp

text \<open>A prefix of a text is a text exactly when it does not end inside a character.\<close>

lemma utf8_take: "utf8 s \<Longrightarrow> utf8 (take n s) \<longleftrightarrow> length s \<le> n \<or> \<not> tail_byte (s ! n)"
proof (induction s arbitrary: n rule: utf8.induct)
  case (1 s)
  show ?case
  proof (cases "s = [] \<or> length s \<le> n")
    case False
    let ?k = "first_char s"
    have c: "0 < ?k" "utf8 (drop ?k s)" and ne: "s \<noteq> []" and lt: "n < length s"
      using 1(2) False utf8_step [of s] by auto
    consider "n = 0" | "0 < n" "n < ?k" | "?k \<le> n" by linarith
    then show ?thesis
    proof cases
      case 2
      then have "take n s \<noteq> []" using ne by simp
      then have "\<not> utf8 (take n s)" using first_char_part [OF 2] utf8_step [of "take n s"] by simp
      then show ?thesis using first_char_tails [OF 2] lt by simp
    next
      case 3
      have "take n s \<noteq> []" using 3 c(1) ne by auto
      then have "utf8 (take n s) = utf8 (take (n - ?k) (drop ?k s))"
        using first_char_take [OF c(1) 3] c(1) utf8_step [of "take n s"] by (simp add: drop_take)
      also have "\<dots> \<longleftrightarrow> length (drop ?k s) \<le> n - ?k \<or> \<not> tail_byte (drop ?k s ! (n - ?k))"
        using 1(1) [OF ne] c by simp
      finally show ?thesis using 3 lt by auto
    qed (use first_char_head [OF c(1)] lt in simp)
  qed (use 1(2) in auto)
qed

lemma utf8_suffix: "utf8 s \<Longrightarrow> code_of c < 128 \<Longrightarrow> s = t @ c # u \<Longrightarrow> utf8 t \<and> utf8 u"
proof -
  assume s: "utf8 s" "code_of c < 128" "s = t @ c # u"
  then have t: "utf8 t" using utf8_take [of s "length t"] by (simp add: tail_byte_def)
  then show ?thesis using s utf8_append [OF t, of "c # u"] by (simp add: utf8_ascii_Cons)
qed

section \<open>Names\<close>

lemma is_space_ascii: "is_space c \<Longrightarrow> code_of c < 128"
  by (auto simp: is_space_def)

lemma utf8_dropWhile: "utf8 s \<Longrightarrow> utf8 (dropWhile is_space s)"
proof (induction s)
  case (Cons c s)
  then show ?case using is_space_ascii [of c] by (auto simp: utf8_ascii_Cons)
qed simp

lemma utf8_dropWhile_rev: "utf8 (rev s) \<Longrightarrow> utf8 (rev (dropWhile is_space s))"
proof (induction s)
  case (Cons c s)
  show ?case
  proof (cases "is_space c")
    case True
    then have "utf8 (rev s)" using utf8_suffix [of "rev s @ [c]" c "rev s" "[]"] Cons(2) is_space_ascii [OF True] by simp
    then show ?thesis using True Cons(1) by simp
  qed (use Cons(2) in simp)
qed simp

lemma utf8_trim: "utf8 s \<Longrightarrow> utf8 (trim s)"
  unfolding trim_def by (rule utf8_dropWhile_rev) (simp add: utf8_dropWhile)

text \<open>A name that is shortened to thirty bytes is cut inside a character exactly when the byte after the
  cut is a tail byte; every other name stays a text that can be written.\<close>

lemma name_cut:
  assumes "utf8 raw"
  shows "utf8 (sanitizePlayerName raw) \<longleftrightarrow> length (trim raw) \<le> 30 \<or> \<not> tail_byte (trim raw ! 30)"
  using utf8_take [OF utf8_trim [OF assms], of 30]
  by (auto simp: sanitizePlayerName_def kMaxPlayerNameLength_def Let_def utf8_trim [OF assms])

text \<open>Thirty-one bytes: the letter a and fifteen times the letter e with an acute accent.\<close>

definition long_name :: string where
  "long_name = CHR ''a'' # concat (replicate 15 [char_of (0xC3 :: nat), char_of (0xA9 :: nat)])"

lemma long_name_broken:
  "utf8 long_name \<and> length (sanitizePlayerName long_name) = 30 \<and> \<not> utf8 (sanitizePlayerName long_name)"
proof -
  have "utf8 long_name" "length (sanitizePlayerName long_name) = 30" "\<not> length (trim long_name) \<le> 30"
    "tail_byte (trim long_name ! 30)" by code_simp+
  then show ?thesis using name_cut [of long_name] by blast
qed

section \<open>Trees that can be written\<close>

fun printable :: "json \<Rightarrow> bool" where
  "printable (JString s) = utf8 s"
| "printable (JArray js) = list_all printable js"
| "printable (JObject ms) = list_all (\<lambda>(k, v). utf8 k \<and> printable v) ms"
| "printable _ = True"

end
