(* ===== verification/Whot_Application.thy ===== *)
theory Whot_Application
  imports Whot_Engine Whot_AI Whot_WebSocket Whot_Utf8
begin

text \<open>
  \<open>Application\<close>: the running games, and what a message or a lost connection does to them.  The
  state holds the games, their activity times, the WebSocket server with the session registry, the
  random generator of the process and the readings of the two clocks, which are constant during one
  operation.  A handler runs to its end before the next one starts.

  \<open>L\<close> is the JSON library: \<open>lib_parse\<close> and \<open>lib_dump\<close>.  The two repositories exist when the
  database connected (\<open>app_db\<close>); their writing calls are logged in \<open>app_store\<close>.  A handler that
  dereferences a null pointer is \<open>None\<close>.  \<open>dump()\<close> throws for a tree with a string that is not UTF-8, and
  nothing catches it: \<open>app_thrown\<close> marks that it happened.  What a definition computes after the mark
  is set is not executed by the code; a step of the server (\<open>Whot_Server\<close>) has none.
\<close>

record JsonLib =
  lib_parse :: "string \<Rightarrow> json option"
  lib_dump :: "json \<Rightarrow> string"

datatype StoreCall =
    SaveGame GameState
  | DeleteGame string
  | SavePlayer Player
  | UpdateStats string bool int

record Application =
  maxGamesPerServer :: int
  activeGames :: "(string, GameEngine) smap"
  gameActivity :: "(string, int) smap"
  app_ws :: WebSocketServer
  app_db :: bool
  app_store :: "StoreCall list"
  app_rng :: rng
  app_seeds :: "rng list"
  app_steady :: int
  app_wall :: nat
  app_counter :: nat
  app_junk :: nat
  app_thrown :: bool

text \<open>\<open>app_seeds\<close>: the generators the decks to come are seeded with; \<open>app_counter\<close>: the counter of
  \<open>generateGameId\<close>; \<open>app_junk\<close>: what an uninitialised timestamp happens to hold.\<close>

abbreviation app_sessions :: "Application \<Rightarrow> SessionManager" where
  "app_sessions app \<equiv> ws_sessions (app_ws app)"

abbreviation on_registry :: "(SessionManager \<Rightarrow> SessionManager) \<Rightarrow> Application \<Rightarrow> Application" where
  "on_registry f app \<equiv> app\<lparr>app_ws := on_sessions f (app_ws app)\<rparr>"

text \<open>\<open>dumped j\<close>: the tree is made a text.  Trees of constant texts and numbers, which never throw, are not
  mentioned.\<close>

definition dumped :: "json \<Rightarrow> Application \<Rightarrow> Application" where
  "dumped j app = app\<lparr>app_thrown := app_thrown app \<or> \<not> printable j\<rparr>"

definition app_send :: "JsonLib \<Rightarrow> string \<Rightarrow> Message \<Rightarrow> Application \<Rightarrow> Application" where
  "app_send L sid m app =
     (let app1 = (if ws_running (app_ws app) then dumped (message_json m) app else app)
      in app1\<lparr>app_ws := sendMessage (lib_dump L) sid m (app_ws app1)\<rparr>)"

text \<open>A saved state is made a text; the other calls bind their texts as they are.\<close>

definition store :: "StoreCall \<Rightarrow> Application \<Rightarrow> Application" where
  "store call app =
     (if \<not> app_db app then app
      else let app1 = (case call of SaveGame gs \<Rightarrow> dumped (state_toJson gs) app | _ \<Rightarrow> app)
           in app1\<lparr>app_store := app_store app1 @ [call]\<rparr>)"

lemma dumped_frame [simp]:
  "maxGamesPerServer (dumped j app) = maxGamesPerServer app" "activeGames (dumped j app) = activeGames app"
  "gameActivity (dumped j app) = gameActivity app" "app_ws (dumped j app) = app_ws app"
  "app_db (dumped j app) = app_db app" "app_store (dumped j app) = app_store app"
  "app_rng (dumped j app) = app_rng app" "app_seeds (dumped j app) = app_seeds app"
  "app_steady (dumped j app) = app_steady app" "app_wall (dumped j app) = app_wall app"
  "app_counter (dumped j app) = app_counter app" "app_junk (dumped j app) = app_junk app"
  "app_thrown (dumped j app) \<longleftrightarrow> app_thrown app \<or> \<not> printable j"
  by (simp_all add: dumped_def)

section \<open>Games\<close>

definition getGame :: "string \<Rightarrow> Application \<Rightarrow> GameEngine option" where
  "getGame gid app = map_get (activeGames app) gid"

text \<open>Writing through the pointer to a game's engine.\<close>

definition put_engine :: "string \<Rightarrow> GameEngine \<Rightarrow> Application \<Rightarrow> Application" where
  "put_engine gid eng app = app\<lparr>activeGames := map_put gid eng (activeGames app)\<rparr>"

definition touchGameActivity :: "string \<Rightarrow> Application \<Rightarrow> Application" where
  "touchGameActivity gid app =
     (if gid = '''' then app
      else case getGame gid app of
          None \<Rightarrow> app
        | Some _ \<Rightarrow> app\<lparr>gameActivity := map_put gid (app_steady app) (gameActivity app)\<rparr>)"

definition getGameIdByCode :: "string \<Rightarrow> Application \<Rightarrow> string" where
  "getGameIdByCode code app =
     (if code = '''' then ''''
      else case find (\<lambda>(gid, eng). gameCode (eng_state eng) = code) (activeGames app) of
          Some (gid, eng) \<Rightarrow> gid
        | None \<Rightarrow> '''')"

definition getGameCode :: "string \<Rightarrow> Application \<Rightarrow> string" where
  "getGameCode gid app = (case getGame gid app of None \<Rightarrow> '''' | Some eng \<Rightarrow> gameCode (eng_state eng))"

text \<open>\<open>generateGameId\<close>, and the loop that looks for a free code.\<close>

definition generateGameId :: "Application \<Rightarrow> string" where
  "generateGameId app = ''game-'' @ nat_to_string (app_wall app) @ ''-'' @ nat_to_string (app_counter app)"

fun code_loop :: "nat \<Rightarrow> string \<Rightarrow> Application \<Rightarrow> rng \<Rightarrow> string \<times> rng" where
  "code_loop 0 code app r = (code, r)"
| "code_loop (Suc n) code app r =
     (let (code', r') = generateGameCode 6 r
      in if getGameIdByCode code' app = '''' then (code', r') else code_loop n code' app r')"

definition new_code :: "Application \<Rightarrow> rng \<Rightarrow> string \<times> rng" where
  "new_code app r =
     (let (code, r1) = code_loop 20 '''' app r
      in if code = '''' then generateGameCode 6 r1 else (code, r1))"

definition next_seed :: "Application \<Rightarrow> rng \<times> Application" where
  "next_seed app =
     (case app_seeds app of [] \<Rightarrow> ([], app) | s # ss \<Rightarrow> (s, app\<lparr>app_seeds := ss\<rparr>))"

definition createGame :: "GameConfig \<Rightarrow> Application \<Rightarrow> string \<times> Application" where
  "createGame cfg app =
     (let gid = generateGameId app;
          (seed, app1) = next_seed (app\<lparr>app_counter := app_counter app + 1\<rparr>);
          st = state_initialize (state_new cfg gid (int (app_wall app)) seed);
          (code, r) = new_code app1 (app_rng app1);
          app2 = app1\<lparr>app_rng := r\<rparr>;
          st1 = st\<lparr>gameCode := code\<rparr>
      in if length (activeGames app2) \<ge> to_size_t (maxGamesPerServer app2) then ('''', app2)
         else (gid, store (SaveGame st1)
                (put_engine gid (engine_new (app_steady app2) st1)
                  (app2\<lparr>gameActivity := map_put gid (app_steady app2) (gameActivity app2)\<rparr>))))"

definition bot_player :: "int \<Rightarrow> string \<Rightarrow> nat \<Rightarrow> Player" where
  "bot_player now gid i =
     player_new now (''bot-'' @ gid @ ''-'' @ nat_to_string i) (''Bot '' @ nat_to_string (i + 1)) AI_EASY"

definition addBotsToGame :: "string \<Rightarrow> int \<Rightarrow> Application \<Rightarrow> Application" where
  "addBotsToGame gid botCount app =
     (case getGame gid app of
        None \<Rightarrow> app
      | Some eng \<Rightarrow>
          let gs = eng_state eng;
              maxBots = maxPlayers (config gs) - int (getPlayerCount gs);
              n = (if botCount > maxBots then maxBots else botCount);
              gs1 = fold (\<lambda>i. addPlayer (Some (bot_player (app_steady app) gid i))) [0..<nat n] gs
          in if botCount \<le> 0 \<or> maxBots \<le> 0 then app
             else store (SaveGame gs1) (put_engine gid (eng\<lparr>eng_state := gs1\<rparr>) app))"

definition joinGame :: "string \<Rightarrow> string \<Rightarrow> string \<Rightarrow> Application \<Rightarrow> bool \<times> Application" where
  "joinGame gid pid playerName app =
     (case getGame gid app of
        None \<Rightarrow> (False, app)
      | Some eng \<Rightarrow>
          let gs = eng_state eng in
          if phase gs \<noteq> LOBBY then (False, app)
          else if getPlayer pid gs \<noteq> None then (True, app)
          else if getPlayerCount gs \<ge> to_size_t (maxPlayers (config gs)) then (False, app)
          else let name = (if playerName = '''' then pid else playerName);
                   p = player_new (app_steady app) pid name HUMAN;
                   gs1 = addPlayer (Some p) gs;
                   app1 = put_engine gid (eng\<lparr>eng_state := gs1\<rparr>) app;
                   app2 = (case getPlayer pid gs1 of
                             None \<Rightarrow> app1 | Some i \<Rightarrow> store (SavePlayer (players gs1 ! i)) app1)
               in (True, touchGameActivity gid (store (SaveGame gs1) app2)))"

definition removeGame :: "string \<Rightarrow> Application \<Rightarrow> Application" where
  "removeGame gid app =
     on_registry (removeAllSessionsForGame gid)
       (store (DeleteGame gid)
         (app\<lparr>activeGames := map_del gid (activeGames app), gameActivity := map_del gid (gameActivity app)\<rparr>))"

text \<open>The lobbies idle for at least \<open>staleFor\<close> nanoseconds, in the order of the map.\<close>

definition stale_lobbies :: "int \<Rightarrow> Application \<Rightarrow> string list" where
  "stale_lobbies staleFor app =
     map fst (filter (\<lambda>(gid, eng).
         phase (eng_state eng) = LOBBY \<and>
         (case map_get (gameActivity app) gid of
            None \<Rightarrow> False
          | Some t \<Rightarrow> app_steady app - t \<ge> staleFor)) (activeGames app))"

definition kDefaultLobbyStaleSeconds :: int where "kDefaultLobbyStaleSeconds = 1800"

definition remove_stale :: "int \<Rightarrow> Application \<Rightarrow> Application" where
  "remove_stale seconds app = fold removeGame (stale_lobbies (seconds * 1000000000) app) app"

definition cleanupInactiveGames :: "Application \<Rightarrow> Application" where
  "cleanupInactiveGames app = remove_stale kDefaultLobbyStaleSeconds app"

section \<open>Sending the state\<close>

definition state_message :: "JsonLib \<Rightarrow> string \<Rightarrow> string \<Rightarrow> GameState \<Rightarrow> nat \<Rightarrow> Message" where
  \<open>state_message L gid pid gs ts =
     \<lparr>msg_type = MSG_GAME_STATE_UPDATE, msg_playerId = '''', msg_gameId = gid,
      msg_payload = ''{"gameStateJson":'' @ lib_dump L (state_toJsonForPlayer pid gs) @ ''}'',
      msg_timestamp = ts\<rparr>\<close>

definition send_state :: "JsonLib \<Rightarrow> string \<Rightarrow> GameState \<Rightarrow> nat \<Rightarrow> string \<Rightarrow> string \<Rightarrow> Application \<Rightarrow> Application" where
  "send_state L gid gs ts sid pid app =
     app_send L sid (state_message L gid pid gs ts) (dumped (state_toJsonForPlayer pid gs) app)"

definition session_player :: "SessionManager \<Rightarrow> string \<Rightarrow> string" where
  "session_player m sid = (case getSession sid m of Some s \<Rightarrow> sess_playerId s | None \<Rightarrow> '''')"

definition broadcastGameState :: "JsonLib \<Rightarrow> string \<Rightarrow> Application \<Rightarrow> Application" where
  "broadcastGameState L gid app =
     (let app1 = touchGameActivity gid app;
          sids = getSessionsForGame gid (app_sessions app1);
          pending = map (\<lambda>sid. (sid, session_player (app_sessions app1) sid)) sids
      in case getGame gid app1 of
           None \<Rightarrow> app1
         | Some eng \<Rightarrow>
             fold (\<lambda>(sid, pid). send_state L gid (eng_state eng) (app_wall app1) sid pid) pending app1)"

text \<open>
  \<open>leaveGame\<close> takes its game id by reference and reads it again after it has reset a session.
  \<open>gref\<close> is the reference: what it reads in a given state.  A caller with a string of its own
  passes a constant; the disconnection handler passes a field of the session itself.
\<close>

definition leaveGame :: "JsonLib \<Rightarrow> (Application \<Rightarrow> string) \<Rightarrow> string \<Rightarrow> Application \<Rightarrow> bool \<times> Application" where
  "leaveGame L gref pid app =
     (case getGame (gref app) app of
        None \<Rightarrow> (False, app)
      | Some eng \<Rightarrow>
          let app1 = put_engine (gref app) (eng\<lparr>eng_state := removePlayer pid (eng_state eng)\<rparr>) app;
              sid = getSessionIdForPlayer pid (app_sessions app1);
              app2 = (if sid = '''' then app1
                      else on_registry (setPlayerId sid '''') (on_registry (setGameId sid '''') app1))
          in (True, broadcastGameState L (gref app2) app2))"

section \<open>Bots\<close>

definition bot_level :: "PlayerType \<Rightarrow> DifficultyLevel" where
  "bot_level ty = (if ty = AI_MEDIUM then MEDIUM else if ty = AI_HARD then HARD else EASY)"

text \<open>The events of an action and its answer are texts of the state.\<close>

definition answer_dumped :: "ActionResult \<Rightarrow> Application \<Rightarrow> Application" where
  "answer_dumped res app = (case res_newStateJson res of None \<Rightarrow> app | Some j \<Rightarrow> dumped j app)"

definition put_new_round :: "string \<Rightarrow> GameEngine \<Rightarrow> Application \<Rightarrow> Application" where
  "put_new_round gid eng app =
     (let eng1 = startNewRound (app_steady app) eng
      in put_engine gid eng1 (dumped (state_toJson (eng_state eng1)) app))"

definition next_round :: "JsonLib \<Rightarrow> string \<Rightarrow> GameEngine \<Rightarrow> Application \<Rightarrow> Application" where
  "next_round L gid eng app =
     (if phase (eng_state eng) = ROUND_ENDED \<and> \<not> checkGameEnd (eng_state eng)
      then broadcastGameState L gid (put_new_round gid eng app)
      else app)"

text \<open>One pass of the loop, and whether it goes on.\<close>

definition bot_turn :: "JsonLib \<Rightarrow> string \<Rightarrow> Application \<Rightarrow> (bool \<times> Application) option" where
  "bot_turn L gid app =
     (case getGame gid app of
        None \<Rightarrow> Some (False, app)
      | Some eng \<Rightarrow>
          let gs = eng_state eng in
          if phase gs \<noteq> IN_PROGRESS then Some (False, app)
          else case getCurrentPlayer gs of
              None \<Rightarrow> Some (False, app)
            | Some i \<Rightarrow>
                let p = players gs ! i in
                if player_type p = HUMAN then Some (False, app)
                else case decideAction (ai_new (player_id p) (player_name p) (bot_level (player_type p))) gs (app_rng app) of
                    None \<Rightarrow> None
                  | Some (a, r) \<Rightarrow>
                      (case processAction a eng of
                         None \<Rightarrow> None
                       | Some (res, eng1) \<Rightarrow>
                           let app1 = answer_dumped res (put_engine gid eng1 (app\<lparr>app_rng := r\<rparr>))
                           in if \<not> res_success res then Some (False, app1)
                              else Some (True, next_round L gid eng1 (broadcastGameState L gid app1))))"

fun bot_turns :: "JsonLib \<Rightarrow> string \<Rightarrow> nat \<Rightarrow> Application \<Rightarrow> Application option" where
  "bot_turns L gid 0 app = Some app"
| "bot_turns L gid (Suc n) app =
     (case bot_turn L gid app of
        None \<Rightarrow> None
      | Some (go_on, app1) \<Rightarrow> if go_on then bot_turns L gid n app1 else Some app1)"

definition runBotTurnsIfNeeded :: "JsonLib \<Rightarrow> string \<Rightarrow> Application \<Rightarrow> Application option" where
  "runBotTurnsIfNeeded L gid app = bot_turns L gid 50 app"

end
