(* ===== verification/Whot_Handlers.thy ===== *)
theory Whot_Handlers
  imports Whot_Application
begin

text \<open>
  The message handlers of \<open>Application\<close>, and the whole path of a transport event: a connection
  opens, a text arrives, a connection closes, the timer looks for idle sessions.
\<close>

section \<open>Messages\<close>

text \<open>A message leaves out the game or the player when its session knows them.\<close>

definition session_defaults :: "string \<Rightarrow> Message \<Rightarrow> Application \<Rightarrow> string \<times> string" where
  "session_defaults sid m app =
     (case getSession sid (app_sessions app) of
        None \<Rightarrow> (msg_gameId m, msg_playerId m)
      | Some s \<Rightarrow> (if msg_gameId m = '''' then sess_gameId s else msg_gameId m,
                   if msg_playerId m = '''' then sess_playerId s else msg_playerId m))"

definition bind_session :: "string \<Rightarrow> string \<Rightarrow> string \<Rightarrow> Application \<Rightarrow> Application" where
  "bind_session sid gid pid app = on_registry (\<lambda>m. setPlayerId sid pid (setGameId sid gid m)) app"

definition drop_other_sessions :: "string \<Rightarrow> string list \<Rightarrow> SessionManager \<Rightarrow> SessionManager" where
  "drop_other_sessions sid olds m = fold (\<lambda>s. if s \<noteq> sid then destroySession s else id) olds m"

definition join_game_id :: "JoinGamePayload \<Rightarrow> Message \<Rightarrow> Application \<Rightarrow> string" where
  "join_game_id p m app =
     (let gid = (if join_gameId p = '''' then msg_gameId m else join_gameId p)
      in case join_gameCode p of
           Some code \<Rightarrow> if gid = '''' \<and> code \<noteq> '''' then getGameIdByCode code app else gid
         | None \<Rightarrow> gid)"

definition join_name :: "string \<Rightarrow> string" where
  "join_name raw = (let n = sanitizePlayerName raw in if n = '''' then ''Player'' else n)"

text \<open>A player already in the game is attached to the session and gets the state alone.\<close>

definition reattach :: "JsonLib \<Rightarrow> string \<Rightarrow> string \<Rightarrow> string \<Rightarrow> GameState \<Rightarrow> Application \<Rightarrow> Application" where
  "reattach L sid gid pid gs app =
     (let olds = getSessionsForPlayer pid (app_sessions app);
          app1 = bind_session sid gid pid (on_registry (drop_other_sessions sid olds) app)
      in send_state L gid gs (app_wall app1) sid pid (touchGameActivity gid app1))"

definition handleJoinGame :: "JsonLib \<Rightarrow> string \<Rightarrow> Message \<Rightarrow> Application \<Rightarrow> Application" where
  "handleJoinGame L sid m app =
     (let p = joinGame_fromJson (lib_parse L) (msg_payload m);
          gid = join_game_id p m app;
          (uuid, r) = generateUUID (app_rng app);
          (pid, app1) = (if msg_playerId m = '''' then (uuid, app\<lparr>app_rng := r\<rparr>) else (msg_playerId m, app));
          name = join_name (join_playerName p)
      in if gid = '''' then app1
         else case getGame gid app1 of
             None \<Rightarrow> app1
           | Some eng \<Rightarrow>
               (case getPlayer pid (eng_state eng) of
                  Some _ \<Rightarrow> reattach L sid gid pid (eng_state eng) app1
                | None \<Rightarrow>
                    let (joined, app2) = joinGame gid pid name app1
                    in if joined then broadcastGameState L gid (bind_session sid gid pid app2) else app2))"

definition handleLeaveGame :: "JsonLib \<Rightarrow> string \<Rightarrow> Message \<Rightarrow> Application \<Rightarrow> Application" where
  "handleLeaveGame L sid m app =
     (let (gid, pid) = session_defaults sid m app
      in if gid \<noteq> '''' \<and> pid \<noteq> '''' then snd (leaveGame L (\<lambda>_. gid) pid app) else app)"

definition start_error :: "JsonLib \<Rightarrow> string \<Rightarrow> string \<Rightarrow> string \<Rightarrow> string \<Rightarrow> Application \<Rightarrow> Application" where
  "start_error L sid gid pid what app =
     app_send L sid
       \<lparr>msg_type = MSG_ERROR, msg_playerId = pid, msg_gameId = gid,
        msg_payload = lib_dump L (error_json \<lparr>error_errorCode = ''START_GAME'', error_message = what, error_field = None\<rparr>),
        msg_timestamp = app_junk app\<rparr> app"

definition handleStartGame :: "JsonLib \<Rightarrow> string \<Rightarrow> Message \<Rightarrow> Application \<Rightarrow> Application option" where
  "handleStartGame L sid m app =
     (let (gid, pid) = session_defaults sid m app in
      case getGame gid app of
        None \<Rightarrow> Some (start_error L sid gid pid ''Game not found or not in session'' app)
      | Some eng \<Rightarrow>
          let gs = eng_state eng in
          if pid = '''' then Some (start_error L sid gid pid ''Game not found or not in session'' app)
          else if phase gs \<noteq> LOBBY then Some (start_error L sid gid pid ''Game already started'' app)
          else if creatorPlayerId gs \<noteq> pid
          then Some (start_error L sid gid pid ''Only the creator can start the game'' app)
          else if getPlayerCount gs < to_size_t (minPlayers (config gs))
          then Some (start_error L sid gid pid ''Not enough players to start'' app)
          else let eng1 = startNewRound (app_steady app) (engine_startGame eng);
                   app1 = store (SaveGame (eng_state eng1)) (put_new_round gid (engine_startGame eng) app)
               in runBotTurnsIfNeeded L gid (broadcastGameState L gid app1))"

definition action_of_message :: "JsonLib \<Rightarrow> string \<Rightarrow> Message \<Rightarrow> GameAction option" where
  "action_of_message L pid m =
     (let act = (\<lambda>ty idx suit. Some \<lparr>act_type = ty, act_playerId = pid, act_cardIndex = idx,
                    act_chosenSuit = suit, act_chosenDirection = None, act_metadata = ''''\<rparr>);
          pl = playCard_fromJson (lib_parse L) (msg_payload m)
      in case msg_type m of
           MSG_PLAY_CARD \<Rightarrow> act PLAY_CARD (Some (play_cardIndex pl)) (play_chosenSuit pl)
         | MSG_DRAW_CARD \<Rightarrow> act DRAW_CARD None None
         | MSG_DECLARE_LAST_CARD \<Rightarrow> act DECLARE_LAST_CARD None None
         | MSG_DECLARE_CHECK_UP \<Rightarrow> act DECLARE_CHECK_UP None None
         | MSG_CHOOSE_SUIT \<Rightarrow> act CHOOSE_SUIT None (play_chosenSuit pl)
         | _ \<Rightarrow> None)"

definition action_error :: "JsonLib \<Rightarrow> string \<Rightarrow> string \<Rightarrow> string \<Rightarrow> string \<Rightarrow> Application \<Rightarrow> Application" where
  "action_error L sid gid pid what app =
     app_send L sid
       \<lparr>msg_type = MSG_ERROR, msg_playerId = pid, msg_gameId = gid,
        msg_payload = lib_dump L (json_object [(''message'', JString what), (''errorCode'', JString ''invalid_action'')]),
        msg_timestamp = app_wall app\<rparr> app"

text \<open>What follows an accepted action: everybody sees it, the state is saved, a game that has ended
  counts, and a round that has ended is followed by the next one.\<close>

definition store_stats :: "GameState \<Rightarrow> Application \<Rightarrow> Application" where
  "store_stats gs app =
     (if phase gs = GAME_ENDED
      then fold (\<lambda>p. store (UpdateStats (player_id p) (getWinnerId gs = Some (player_id p)) (cumulativeScore p)))
             (players gs) app
      else app)"

definition action_accepted :: "JsonLib \<Rightarrow> string \<Rightarrow> GameEngine \<Rightarrow> Application \<Rightarrow> Application" where
  "action_accepted L gid eng app =
     (let gs = eng_state eng;
          app1 = store_stats gs (store (SaveGame gs) (broadcastGameState L gid app))
      in if phase gs = ROUND_ENDED \<and> \<not> checkGameEnd gs
         then let eng1 = startNewRound (app_steady app1) eng
              in store (SaveGame (eng_state eng1)) (broadcastGameState L gid (put_new_round gid eng app1))
         else app1)"

definition handleGameAction :: "JsonLib \<Rightarrow> string \<Rightarrow> Message \<Rightarrow> Application \<Rightarrow> Application option" where
  "handleGameAction L sid m app =
     (let (gid, pid) = session_defaults sid m app in
      case getGame gid app of
        None \<Rightarrow> Some app
      | Some eng \<Rightarrow>
          if pid = '''' then Some app
          else case action_of_message L pid m of
              None \<Rightarrow> Some app
            | Some a \<Rightarrow>
                (case processAction a eng of
                   None \<Rightarrow> None
                 | Some (res, eng1) \<Rightarrow>
                     let app1 = answer_dumped res (put_engine gid eng1 app)
                     in if \<not> res_success res then Some (action_error L sid gid pid (res_message res) app1)
                        else runBotTurnsIfNeeded L gid (action_accepted L gid eng1 app1)))"

definition handleClientMessage :: "JsonLib \<Rightarrow> string \<Rightarrow> Message \<Rightarrow> Application \<Rightarrow> Application option" where
  "handleClientMessage L sid m app =
     (case msg_type m of
        MSG_JOIN_GAME \<Rightarrow> Some (handleJoinGame L sid m app)
      | MSG_START_GAME \<Rightarrow> handleStartGame L sid m app
      | MSG_LEAVE_GAME \<Rightarrow> Some (handleLeaveGame L sid m app)
      | MSG_PLAY_CARD \<Rightarrow> handleGameAction L sid m app
      | MSG_DRAW_CARD \<Rightarrow> handleGameAction L sid m app
      | MSG_DECLARE_LAST_CARD \<Rightarrow> handleGameAction L sid m app
      | MSG_DECLARE_CHECK_UP \<Rightarrow> handleGameAction L sid m app
      | MSG_CHOOSE_SUIT \<Rightarrow> handleGameAction L sid m app
      | _ \<Rightarrow> Some app)"

section \<open>Transport events\<close>

text \<open>The disconnection handler: the game id is passed as a reference into the session.\<close>

definition handleDisconnection :: "JsonLib \<Rightarrow> string \<Rightarrow> Application \<Rightarrow> Application" where
  "handleDisconnection L sid app =
     (case getSession sid (app_sessions app) of
        None \<Rightarrow> app
      | Some s \<Rightarrow>
          if sess_gameId s = '''' \<or> sess_playerId s = '''' then app
          else snd (leaveGame L
                 (\<lambda>app'. case getSession sid (app_sessions app') of Some s' \<Rightarrow> sess_gameId s' | None \<Rightarrow> '''')
                 (sess_playerId s) app))"

definition connection_opened :: "nat \<Rightarrow> string \<Rightarrow> Application \<Rightarrow> Application option" where
  "connection_opened hdl ip app =
     (case on_open hdl ip (app_steady app) (app_rng app) (app_ws app) of
        None \<Rightarrow> None
      | Some (ws, r) \<Rightarrow> Some (app\<lparr>app_ws := ws, app_rng := r\<rparr>))"

definition text_received :: "JsonLib \<Rightarrow> nat \<Rightarrow> string \<Rightarrow> Application \<Rightarrow> Application option" where
  "text_received L hdl data app =
     (let (sid, ws) = receive hdl (app_steady app) (app_ws app);
          app1 = app\<lparr>app_ws := ws\<rparr>
      in if sid = '''' then Some app1
         else handleClientMessage L sid (deserialize (lib_parse L) (lib_dump L) (app_wall app) data) app1)"

definition connection_closed :: "JsonLib \<Rightarrow> nat \<Rightarrow> Application \<Rightarrow> Application" where
  "connection_closed L hdl app =
     (let (sid, ws) = close_connection hdl (app_ws app);
          app1 = app\<lparr>app_ws := ws\<rparr>
      in if sid = '''' then app1
         else on_registry (destroySession sid) (handleDisconnection L sid app1))"

definition timeouts_checked :: "Application \<Rightarrow> Application" where
  "timeouts_checked app = app\<lparr>app_ws := checkTimeouts (app_steady app) (app_ws app)\<rparr>"

section \<open>Starting the server\<close>

definition app_new :: "int \<Rightarrow> bool \<Rightarrow> int \<Rightarrow> nat \<Rightarrow> nat \<Rightarrow> rng \<Rightarrow> rng list \<Rightarrow> Application" where
  "app_new maxGames db steady wall junk r seeds =
     \<lparr>maxGamesPerServer = maxGames, activeGames = [], gameActivity = [], app_ws = ws_start ws_new,
      app_db = db, app_store = [], app_rng = r, app_seeds = seeds, app_steady = steady, app_wall = wall,
      app_counter = 0, app_junk = junk, app_thrown = False\<rparr>"

text \<open>\<open>recs\<close>: what the repository gives for the active games, the id and the restored state.  Restoring a state
  constructs one, and the constructor takes a number of the counter of \<open>generateGameId\<close>.\<close>

definition put_loaded :: "string \<times> GameState option \<Rightarrow> Application \<Rightarrow> Application" where
  "put_loaded rec app =
     (case rec of
        (gid, None) \<Rightarrow> app
      | (gid, Some gs) \<Rightarrow> put_engine gid (engine_new (app_steady app) gs)
          (app\<lparr>gameActivity := map_put gid (app_steady app) (gameActivity app), app_counter := app_counter app + 1\<rparr>))"

definition loadExistingGames :: "(string \<times> GameState option) list \<Rightarrow> Application \<Rightarrow> Application" where
  "loadExistingGames recs app = (if \<not> app_db app then app else fold put_loaded recs app)"

end
