(* ===== verification/Whot_Database.thy ===== *)
theory Whot_Database
  imports Whot_Text "HOL-Library.Monad_Syntax"
begin

text \<open>
  \<open>Persistence/Database\<close>: the interface of a database and its implementation over SQLite.  The
  functions of the SQLite library are the fields of a record, over types of their own for a database
  handle and a prepared statement; what the program does with their results is the model.  A
  database handle stands for the whole content of the database, so every call that may change it
  returns it.  \<open>sqlite3_close\<close>, \<open>sqlite3_free\<close> and \<open>sqlite3_finalize\<close> give nothing back.
\<close>

datatype SqlParam = SqlText string | SqlInt int

datatype DatabaseType = SQLITE | POSTGRESQL | MYSQL | MEMORY

record DatabaseConfig =
  dbc_type :: DatabaseType
  dbc_host :: string
  dbc_port :: int
  dbc_database :: string
  dbc_username :: string
  dbc_password :: string
  dbc_filepath :: string
  dbc_poolSize :: int

text \<open>The operations the repositories call on a \<open>Database\<close>; \<open>None\<close> is a query that never returns.\<close>

record 'd Database =
  db_isConnected :: "'d \<Rightarrow> bool"
  db_execute :: "string \<Rightarrow> 'd \<Rightarrow> bool \<times> 'd"
  db_queryOne :: "string \<Rightarrow> 'd \<Rightarrow> string option \<times> 'd"
  db_queryMany :: "string \<Rightarrow> 'd \<Rightarrow> (string list \<times> 'd) option"
  db_executeBound :: "string \<Rightarrow> SqlParam list \<Rightarrow> 'd \<Rightarrow> bool \<times> 'd"
  db_queryOneBound :: "string \<Rightarrow> SqlParam list \<Rightarrow> 'd \<Rightarrow> string option \<times> 'd"
  db_queryManyBound :: "string \<Rightarrow> SqlParam list \<Rightarrow> 'd \<Rightarrow> (string list \<times> 'd) option"

section \<open>SQLite\<close>

datatype SqliteCode = SQLITE_OK | SQLITE_ROW | SQLITE_DONE | SQLITE_ERROR int

text \<open>\<open>sqlite3_columns\<close>: the texts of the columns of the current row, \<open>None\<close> for a null.\<close>

record ('h, 's) Sqlite =
  sqlite3_open :: "string \<Rightarrow> SqliteCode \<times> 'h"
  sqlite3_exec :: "'h \<Rightarrow> string \<Rightarrow> SqliteCode \<times> 'h"
  sqlite3_prepare :: "'h \<Rightarrow> string \<Rightarrow> 's option"
  sqlite3_bind :: "'s \<Rightarrow> nat \<Rightarrow> SqlParam \<Rightarrow> SqliteCode \<times> 's"
  sqlite3_step :: "'h \<Rightarrow> 's \<Rightarrow> SqliteCode \<times> 'h \<times> 's"
  sqlite3_columns :: "'s \<Rightarrow> string option list"

record 'h SQLiteDatabase =
  sq_config :: DatabaseConfig
  sq_db :: "'h option"

text \<open>A text is bound up to its first null character.\<close>

definition c_str :: "string \<Rightarrow> string" where
  "c_str s = takeWhile (\<lambda>c. c \<noteq> CHR 0x00) s"

definition plain_text :: "string \<Rightarrow> bool" where
  "plain_text s \<longleftrightarrow> CHR 0x00 \<notin> set s"

lemma c_str_plain [simp]: "plain_text s \<Longrightarrow> c_str s = s"
  unfolding c_str_def plain_text_def by (rule takeWhile_eq_all_conv [THEN iffD2]) blast

fun c_param :: "SqlParam \<Rightarrow> SqlParam" where
  "c_param (SqlText s) = SqlText (c_str s)"
| "c_param (SqlInt n) = SqlInt n"

definition database_create :: "DatabaseConfig \<Rightarrow> 'h SQLiteDatabase option" where
  "database_create cfg = (if dbc_type cfg = SQLITE then Some \<lparr>sq_config = cfg, sq_db = None\<rparr> else None)"

definition sq_connect :: "('h, 's) Sqlite \<Rightarrow> 'h SQLiteDatabase \<Rightarrow> bool \<times> 'h SQLiteDatabase" where
  "sq_connect Q db =
     (if sq_db db \<noteq> None then (True, db)
      else let db1 = (if dbc_filepath (sq_config db) = ''''
                      then db\<lparr>sq_config := (sq_config db)\<lparr>dbc_filepath := '':memory:''\<rparr>\<rparr> else db);
               (rc, h) = sqlite3_open Q (dbc_filepath (sq_config db1))
           in if rc = SQLITE_OK then (True, db1\<lparr>sq_db := Some h\<rparr>) else (False, db1))"

definition sq_disconnect :: "'h SQLiteDatabase \<Rightarrow> 'h SQLiteDatabase" where
  "sq_disconnect db = db\<lparr>sq_db := None\<rparr>"

definition sq_isConnected :: "'h SQLiteDatabase \<Rightarrow> bool" where
  "sq_isConnected db \<longleftrightarrow> sq_db db \<noteq> None"

definition sq_execute :: "('h, 's) Sqlite \<Rightarrow> string \<Rightarrow> 'h SQLiteDatabase \<Rightarrow> bool \<times> 'h SQLiteDatabase" where
  "sq_execute Q query db =
     (case sq_db db of
        None \<Rightarrow> (False, db)
      | Some h \<Rightarrow> let (rc, h1) = sqlite3_exec Q h query in (rc = SQLITE_OK, db\<lparr>sq_db := Some h1\<rparr>))"

text \<open>The loop over the parameters, numbered from \<open>i + 1\<close>; a failing binding ends the call.\<close>

fun bind_loop :: "('h, 's) Sqlite \<Rightarrow> nat \<Rightarrow> SqlParam list \<Rightarrow> 's \<Rightarrow> 's option" where
  "bind_loop Q i [] st = Some st"
| "bind_loop Q i (p # ps) st =
     (let (rc, st1) = sqlite3_bind Q st (i + 1) (c_param p)
      in if rc = SQLITE_OK then bind_loop Q (i + 1) ps st1 else None)"

definition prepare_bound :: "('h, 's) Sqlite \<Rightarrow> string \<Rightarrow> SqlParam list \<Rightarrow> 'h \<Rightarrow> 's option" where
  "prepare_bound Q sql ps h =
     (case sqlite3_prepare Q h sql of None \<Rightarrow> None | Some st \<Rightarrow> bind_loop Q 0 ps st)"

text \<open>The first column of the current row.\<close>

definition column_text :: "('h, 's) Sqlite \<Rightarrow> 's \<Rightarrow> string option" where
  "column_text Q st = hd (sqlite3_columns Q st)"

definition has_row :: "('h, 's) Sqlite \<Rightarrow> SqliteCode \<Rightarrow> 's \<Rightarrow> bool" where
  "has_row Q rc st \<longleftrightarrow> rc = SQLITE_ROW \<and> sqlite3_columns Q st \<noteq> []"

definition first_row :: "('h, 's) Sqlite \<Rightarrow> 'h \<Rightarrow> 's \<Rightarrow> string option \<times> 'h" where
  "first_row Q h st =
     (let (rc, h1, st1) = sqlite3_step Q h st
      in (if has_row Q rc st1 then column_text Q st1 else None, h1))"

partial_function (option) rows_loop ::
    "('h, 's) Sqlite \<Rightarrow> 'h \<Rightarrow> 's \<Rightarrow> string list \<Rightarrow> (string list \<times> 'h) option" where
  "rows_loop Q h st out =
     (let (rc, h1, st1) = sqlite3_step Q h st
      in if has_row Q rc st1
         then rows_loop Q h1 st1 (out @ [case column_text Q st1 of Some t \<Rightarrow> t | None \<Rightarrow> ''''])
         else Some (out, h1))"

definition sq_executeBound ::
    "('h, 's) Sqlite \<Rightarrow> string \<Rightarrow> SqlParam list \<Rightarrow> 'h SQLiteDatabase \<Rightarrow> bool \<times> 'h SQLiteDatabase" where
  "sq_executeBound Q sql ps db =
     (case sq_db db of
        None \<Rightarrow> (False, db)
      | Some h \<Rightarrow>
          (case prepare_bound Q sql ps h of
             None \<Rightarrow> (False, db)
           | Some st \<Rightarrow>
               let (rc, h1, st1) = sqlite3_step Q h st
               in (rc = SQLITE_DONE \<or> rc = SQLITE_ROW \<or> rc = SQLITE_OK, db\<lparr>sq_db := Some h1\<rparr>)))"

definition sq_queryOneBound ::
    "('h, 's) Sqlite \<Rightarrow> string \<Rightarrow> SqlParam list \<Rightarrow> 'h SQLiteDatabase \<Rightarrow> string option \<times> 'h SQLiteDatabase" where
  "sq_queryOneBound Q sql ps db =
     (case sq_db db of
        None \<Rightarrow> (None, db)
      | Some h \<Rightarrow>
          (case prepare_bound Q sql ps h of
             None \<Rightarrow> (None, db)
           | Some st \<Rightarrow> let (r, h1) = first_row Q h st in (r, db\<lparr>sq_db := Some h1\<rparr>)))"

definition sq_queryManyBound ::
    "('h, 's) Sqlite \<Rightarrow> string \<Rightarrow> SqlParam list \<Rightarrow> 'h SQLiteDatabase \<Rightarrow>
     (string list \<times> 'h SQLiteDatabase) option" where
  "sq_queryManyBound Q sql ps db =
     (case sq_db db of
        None \<Rightarrow> Some ([], db)
      | Some h \<Rightarrow>
          (case prepare_bound Q sql ps h of
             None \<Rightarrow> Some ([], db)
           | Some st \<Rightarrow> map_option (\<lambda>(rows, h1). (rows, db\<lparr>sq_db := Some h1\<rparr>)) (rows_loop Q h st [])))"

text \<open>The calls without parameters prepare the statement and bind nothing.\<close>

definition sq_queryOne ::
    "('h, 's) Sqlite \<Rightarrow> string \<Rightarrow> 'h SQLiteDatabase \<Rightarrow> string option \<times> 'h SQLiteDatabase" where
  "sq_queryOne Q query db =
     (case sq_db db of
        None \<Rightarrow> (None, db)
      | Some h \<Rightarrow>
          (case sqlite3_prepare Q h query of
             None \<Rightarrow> (None, db)
           | Some st \<Rightarrow> let (r, h1) = first_row Q h st in (r, db\<lparr>sq_db := Some h1\<rparr>)))"

definition sq_queryMany ::
    "('h, 's) Sqlite \<Rightarrow> string \<Rightarrow> 'h SQLiteDatabase \<Rightarrow> (string list \<times> 'h SQLiteDatabase) option" where
  "sq_queryMany Q query db =
     (case sq_db db of
        None \<Rightarrow> Some ([], db)
      | Some h \<Rightarrow>
          (case sqlite3_prepare Q h query of
             None \<Rightarrow> Some ([], db)
           | Some st \<Rightarrow> map_option (\<lambda>(rows, h1). (rows, db\<lparr>sq_db := Some h1\<rparr>)) (rows_loop Q h st [])))"


section \<open>Transactions and schema\<close>

definition beginTransaction :: "('h, 's) Sqlite \<Rightarrow> 'h SQLiteDatabase \<Rightarrow> 'h SQLiteDatabase" where
  "beginTransaction Q db = snd (sq_execute Q ''BEGIN TRANSACTION'' db)"

definition commit :: "('h, 's) Sqlite \<Rightarrow> 'h SQLiteDatabase \<Rightarrow> 'h SQLiteDatabase" where
  "commit Q db = snd (sq_execute Q ''COMMIT'' db)"

definition rollback :: "('h, 's) Sqlite \<Rightarrow> 'h SQLiteDatabase \<Rightarrow> 'h SQLiteDatabase" where
  "rollback Q db = snd (sq_execute Q ''ROLLBACK'' db)"

text \<open>The five texts of the schema, up to the line breaks and the indentation of the source.\<close>

definition schema_texts :: "string list" where
  "schema_texts =
     [''CREATE TABLE IF NOT EXISTS schema_version (version INTEGER PRIMARY KEY); '' @
        ''INSERT OR IGNORE INTO schema_version (version) VALUES (1);'',
      ''CREATE TABLE IF NOT EXISTS games ( game_id TEXT PRIMARY KEY, game_state TEXT, '' @
        ''rule_variant TEXT, created_at INTEGER, updated_at INTEGER, status TEXT )'',
      ''CREATE TABLE IF NOT EXISTS players ( player_id TEXT PRIMARY KEY, player_name TEXT, '' @
        ''created_at INTEGER )'',
      ''CREATE TABLE IF NOT EXISTS player_stats ( player_id TEXT PRIMARY KEY, '' @
        ''total_games INTEGER DEFAULT 0, games_won INTEGER DEFAULT 0, total_score INTEGER DEFAULT 0, '' @
        ''last_played INTEGER, FOREIGN KEY(player_id) REFERENCES players(player_id) )'',
      ''CREATE TABLE IF NOT EXISTS game_players ( game_id TEXT, player_id TEXT, '' @
        ''PRIMARY KEY(game_id, player_id), FOREIGN KEY(game_id) REFERENCES games(game_id), '' @
        ''FOREIGN KEY(player_id) REFERENCES players(player_id) )'']"

definition initializeSchema :: "('h, 's) Sqlite \<Rightarrow> 'h SQLiteDatabase \<Rightarrow> 'h SQLiteDatabase" where
  "initializeSchema Q db = fold (\<lambda>sql db. snd (sq_execute Q sql db)) schema_texts db"

text \<open>\<open>stoi\<close> throws on a version that is no number.\<close>

definition getCurrentSchemaVersion :: "('h, 's) Sqlite \<Rightarrow> 'h SQLiteDatabase \<Rightarrow> (int \<times> 'h SQLiteDatabase) option" where
  "getCurrentSchemaVersion Q db =
     (let (r, db1) = sq_queryOne Q ''SELECT version FROM schema_version LIMIT 1'' db
      in case r of None \<Rightarrow> Some (0, db1) | Some t \<Rightarrow> map_option (\<lambda>n. (n, db1)) (stoi t))"

definition migrate :: "('h, 's) Sqlite \<Rightarrow> int \<Rightarrow> 'h SQLiteDatabase \<Rightarrow> 'h SQLiteDatabase option" where
  "migrate Q toVersion db =
     map_option (\<lambda>(v, db1). if v < toVersion then initializeSchema Q db1 else db1) (getCurrentSchemaVersion Q db)"

text \<open>The virtual functions of the class, for the repositories.\<close>

definition sqlite_database :: "('h, 's) Sqlite \<Rightarrow> 'h SQLiteDatabase Database" where
  "sqlite_database Q =
     \<lparr>db_isConnected = sq_isConnected, db_execute = sq_execute Q, db_queryOne = sq_queryOne Q,
      db_queryMany = sq_queryMany Q, db_executeBound = sq_executeBound Q,
      db_queryOneBound = sq_queryOneBound Q, db_queryManyBound = sq_queryManyBound Q\<rparr>"

section \<open>What the loop over the rows returns\<close>

text \<open>The documented behaviour of a prepared statement: it has a finite list of rows, each a list of columns,
  and every step moves to the next row until there is none.  (A step that fails counts as the end.)\<close>

type_synonym ('h, 's) cursor = "'h \<Rightarrow> 's \<Rightarrow> string option list list"

definition result_set :: "('h, 's) Sqlite \<Rightarrow> ('h, 's) cursor \<Rightarrow> bool" where
  "result_set Q rows_of \<longleftrightarrow>
     (\<forall>h st. case rows_of h st of
        [] \<Rightarrow> fst (sqlite3_step Q h st) \<noteq> SQLITE_ROW
      | r # rs \<Rightarrow> \<exists>h1 st1. sqlite3_step Q h st = (SQLITE_ROW, h1, st1) \<and> sqlite3_columns Q st1 = r \<and> rows_of h1 st1 = rs)"

text \<open>The text taken of a row, an empty one for a null.\<close>

definition text_of_row :: "string option list \<Rightarrow> string" where
  "text_of_row r = (case hd r of Some t \<Rightarrow> t | None \<Rightarrow> '''')"

lemma rows_loop_result:
  assumes "result_set Q rows_of"
  shows "\<exists>h'. rows_loop Q h st out = Some (out @ map text_of_row (takeWhile (\<lambda>r. r \<noteq> []) (rows_of h st)), h')"
proof (induction "rows_of h st" arbitrary: h st out)
  case Nil
  then have "fst (sqlite3_step Q h st) \<noteq> SQLITE_ROW"
    using assms [unfolded result_set_def, rule_format, of h st] by (simp flip: Nil)
  then show ?case
    by (subst rows_loop.simps) (simp add: has_row_def split_beta Let_def flip: Nil)
next
  case (Cons r rs)
  then obtain h1 st1 where step: "sqlite3_step Q h st = (SQLITE_ROW, h1, st1)" "sqlite3_columns Q st1 = r" "rs = rows_of h1 st1"
    using assms [unfolded result_set_def, rule_format, of h st] by (auto simp flip: Cons.hyps(2))
  show ?case
    using Cons.hyps(1) [OF step(3), of "out @ [text_of_row r]"]
    by (subst rows_loop.simps)
      (cases "r = []", simp_all add: step(1,2) has_row_def column_text_def text_of_row_def flip: Cons.hyps(2) step(3))
qed

lemma first_row_result:
  assumes "result_set Q rows_of"
  shows "fst (first_row Q h st) = (case rows_of h st of (t # cols) # rs \<Rightarrow> t | _ \<Rightarrow> None)"
  using assms [unfolded result_set_def, rule_format, of h st]
  by (auto simp: first_row_def has_row_def column_text_def split_beta Let_def split: list.splits)

end
