(* ===== verification/Whot_PlayerRepo.thy ===== *)
theory Whot_PlayerRepo
  imports Whot_Database Whot_Player Whot_Messages Complex_Main
begin

text \<open>
  \<open>Persistence/PlayerRepository\<close> over any \<open>Database\<close>: the names and the statistics of the players.
  The share of games won is the exact quotient where the code has a double.
\<close>

record PlayerStats =
  st_playerId :: string
  st_playerName :: string
  st_totalGames :: int
  st_gamesWon :: int
  st_totalScore :: int
  st_winRate :: rat
  st_lastPlayed :: int
  st_createdAt :: int

definition stats_new :: "string \<Rightarrow> PlayerStats" where
  "stats_new pid = \<lparr>st_playerId = pid, st_playerName = '''', st_totalGames = 0, st_gamesWon = 0,
     st_totalScore = 0, st_winRate = 0, st_lastPlayed = 0, st_createdAt = 0\<rparr>"

section \<open>The statements\<close>

definition sql_save_player :: string where
  "sql_save_player = ''INSERT OR REPLACE INTO players (player_id, player_name, created_at)'' @ '' VALUES (?, ?, ?)''"

definition sql_save_stats :: string where
  "sql_save_stats = ''INSERT OR REPLACE INTO player_stats'' @
     '' (player_id, total_games, games_won, total_score, last_played)'' @ '' VALUES (?, ?, ?, ?, ?)''"

definition sql_player_name :: string where
  "sql_player_name = ''SELECT player_name FROM players WHERE player_id = ? LIMIT 1''"

definition sql_stats_name :: string where
  "sql_stats_name = ''SELECT player_name FROM players WHERE player_id = ?''"

definition sql_total_games :: string where
  "sql_total_games = ''SELECT total_games FROM player_stats WHERE player_id = ? LIMIT 1''"

definition sql_games_won :: string where
  "sql_games_won = ''SELECT games_won FROM player_stats WHERE player_id = ? LIMIT 1''"

definition sql_total_score :: string where
  "sql_total_score = ''SELECT total_score FROM player_stats WHERE player_id = ? LIMIT 1''"

definition sql_last_played :: string where
  "sql_last_played = ''SELECT last_played FROM player_stats WHERE player_id = ? LIMIT 1''"

definition sql_delete_stats :: string where
  "sql_delete_stats = ''DELETE FROM player_stats WHERE player_id = ?''"

definition sql_delete_player :: string where
  "sql_delete_player = ''DELETE FROM players WHERE player_id = ?''"

definition sql_leaderboard :: string where
  "sql_leaderboard = ''SELECT player_id FROM player_stats'' @
     '' ORDER BY games_won DESC, total_score DESC LIMIT ?''"

definition sql_find_player :: string where
  "sql_find_player = ''SELECT player_id FROM players WHERE player_name = ? LIMIT 1''"

definition sql_search_players :: string where
  "sql_search_players = ''SELECT player_id FROM players WHERE player_name LIKE ? LIMIT 50''"

section \<open>Saving\<close>

definition save_stats :: "'d Database \<Rightarrow> string \<Rightarrow> int \<Rightarrow> int \<Rightarrow> int \<Rightarrow> int \<Rightarrow> 'd \<Rightarrow> 'd" where
  "save_stats D pid games won score lp d =
     snd (db_executeBound D sql_save_stats [SqlText pid, SqlInt games, SqlInt won, SqlInt score, SqlInt lp] d)"

definition savePlayer :: "'d Database \<Rightarrow> int \<Rightarrow> Player \<Rightarrow> 'd option \<Rightarrow> bool \<times> 'd option" where
  "savePlayer D now p repo =
     (case repo of
        None \<Rightarrow> (False, repo)
      | Some d \<Rightarrow>
          if \<not> db_isConnected D d then (False, repo)
          else let (ok, d1) = db_executeBound D sql_save_player
                     [SqlText (player_id p), SqlText (player_name p), SqlInt now] d
               in if \<not> ok then (False, Some d1)
                  else (True, Some (save_stats D (player_id p) (gamesPlayed p) (gamesWon p) (cumulativeScore p) now d1)))"

definition updatePlayer :: "'d Database \<Rightarrow> int \<Rightarrow> Player \<Rightarrow> 'd option \<Rightarrow> bool \<times> 'd option" where
  "updatePlayer D now p repo = savePlayer D now p repo"

definition deletePlayer :: "'d Database \<Rightarrow> string \<Rightarrow> 'd option \<Rightarrow> bool \<times> 'd option" where
  "deletePlayer D pid repo =
     (case repo of
        None \<Rightarrow> (False, repo)
      | Some d \<Rightarrow>
          let d1 = snd (db_executeBound D sql_delete_stats [SqlText pid] d);
              (ok, d2) = db_executeBound D sql_delete_player [SqlText pid] d1
          in (ok, Some d2))"

section \<open>Reading\<close>

text \<open>\<open>if (text) field = stoi(*text)\<close> inside a \<open>try\<close>.\<close>

definition read_number :: "string option \<Rightarrow> (int \<Rightarrow> 'r \<Rightarrow> 'r) \<Rightarrow> 'r \<Rightarrow> 'r option" where
  "read_number text upd r =
     (case text of None \<Rightarrow> Some r | Some s \<Rightarrow> map_option (\<lambda>n. upd n r) (stoi s))"

definition loadPlayer :: "'d Database \<Rightarrow> int \<Rightarrow> string \<Rightarrow> 'd option \<Rightarrow> Player option \<times> 'd option" where
  "loadPlayer D clock pid repo =
     (case repo of
        None \<Rightarrow> (None, repo)
      | Some d \<Rightarrow>
          if \<not> db_isConnected D d then (None, repo)
          else let (name, d1) = db_queryOneBound D sql_player_name [SqlText pid] d
               in case name of
                    None \<Rightarrow> (None, Some d1)
                  | Some n \<Rightarrow>
                      let (games, d2) = db_queryOneBound D sql_total_games [SqlText pid] d1;
                          (won, d3) = db_queryOneBound D sql_games_won [SqlText pid] d2;
                          (score, d4) = db_queryOneBound D sql_total_score [SqlText pid] d3
                      in (Some (try_steps
                            [read_number games (\<lambda>v p. p\<lparr>gamesPlayed := v\<rparr>),
                             read_number won (\<lambda>v p. p\<lparr>gamesWon := v\<rparr>),
                             read_number score (\<lambda>v p. p\<lparr>cumulativeScore := v\<rparr>)]
                            (player_new clock pid n HUMAN)), Some d4))"

definition win_rate :: "PlayerStats \<Rightarrow> PlayerStats option" where
  "win_rate s =
     Some (if st_totalGames s > 0
           then s\<lparr>st_winRate := of_int (st_gamesWon s) / of_int (st_totalGames s)\<rparr> else s)"

definition getPlayerStats :: "'d Database \<Rightarrow> string \<Rightarrow> 'd option \<Rightarrow> PlayerStats \<times> 'd option" where
  "getPlayerStats D pid repo =
     (case repo of
        None \<Rightarrow> (stats_new pid, repo)
      | Some d \<Rightarrow>
          let (name, d1) = db_queryOneBound D sql_stats_name [SqlText pid] d;
              s = (case name of None \<Rightarrow> stats_new pid | Some n \<Rightarrow> (stats_new pid)\<lparr>st_playerName := n\<rparr>);
              (games, d2) = db_queryOneBound D sql_total_games [SqlText pid] d1;
              (won, d3) = db_queryOneBound D sql_games_won [SqlText pid] d2;
              (score, d4) = db_queryOneBound D sql_total_score [SqlText pid] d3;
              (lastp, d5) = db_queryOneBound D sql_last_played [SqlText pid] d4
          in (try_steps
                [read_number games (\<lambda>v s. s\<lparr>st_totalGames := v\<rparr>),
                 read_number won (\<lambda>v s. s\<lparr>st_gamesWon := v\<rparr>),
                 read_number score (\<lambda>v s. s\<lparr>st_totalScore := v\<rparr>),
                 win_rate,
                 \<lambda>s. case lastp of None \<Rightarrow> Some s | Some t \<Rightarrow> map_option (\<lambda>v. s\<lparr>st_lastPlayed := v\<rparr>) (stoll t)]
                s, Some d5))"

definition updateStats :: "'d Database \<Rightarrow> int \<Rightarrow> string \<Rightarrow> bool \<Rightarrow> int \<Rightarrow> 'd option \<Rightarrow> 'd option" where
  "updateStats D now pid won score repo =
     (case repo of
        None \<Rightarrow> repo
      | Some d \<Rightarrow>
          let (s, repo1) = getPlayerStats D pid repo
          in map_option (save_stats D pid (st_totalGames s + 1)
                (if won then st_gamesWon s + 1 else st_gamesWon s) (st_totalScore s + score) now) repo1)"

section \<open>Lists of players\<close>

fun stats_of :: "'d Database \<Rightarrow> string list \<Rightarrow> 'd option \<Rightarrow> PlayerStats list \<times> 'd option" where
  "stats_of D [] repo = ([], repo)"
| "stats_of D (pid # pids) repo =
     (let (s, repo1) = getPlayerStats D pid repo;
          (rest, repo2) = stats_of D pids repo1
      in (s # rest, repo2))"

definition getLeaderboard :: "'d Database \<Rightarrow> int \<Rightarrow> 'd option \<Rightarrow> (PlayerStats list \<times> 'd option) option" where
  "getLeaderboard D limit repo =
     (case repo of
        None \<Rightarrow> Some ([], repo)
      | Some d \<Rightarrow>
          do { (pids, d1) \<leftarrow> db_queryManyBound D sql_leaderboard [SqlInt limit] d;
               Some (stats_of D pids (Some d1)) })"

definition findPlayerByName :: "'d Database \<Rightarrow> string \<Rightarrow> 'd option \<Rightarrow> string option \<times> 'd option" where
  "findPlayerByName D name repo =
     (case repo of
        None \<Rightarrow> (None, repo)
      | Some d \<Rightarrow> let (r, d1) = db_queryOneBound D sql_find_player [SqlText name] d in (r, Some d1))"

definition searchPlayers :: "'d Database \<Rightarrow> string \<Rightarrow> 'd option \<Rightarrow> (PlayerStats list \<times> 'd option) option" where
  "searchPlayers D query repo =
     (case repo of
        None \<Rightarrow> Some ([], repo)
      | Some d \<Rightarrow>
          do { (pids, d1) \<leftarrow> db_queryManyBound D sql_search_players [SqlText (''%'' @ query @ ''%'')] d;
               Some (stats_of D pids (Some d1)) })"

text \<open>\<open>value\<close> with a default throws only for a tree that is no object or a member of the wrong kind.\<close>

definition value_field :: "json \<Rightarrow> string \<Rightarrow> (json \<Rightarrow> 'a option) \<Rightarrow> 'a \<Rightarrow> ('a \<Rightarrow> 'r \<Rightarrow> 'r) \<Rightarrow> 'r \<Rightarrow> 'r option" where
  "value_field j k get dflt upd r = map_option (\<lambda>v. upd v r) (json_value get j k dflt)"

definition resultToStats :: "(string \<Rightarrow> json option) \<Rightarrow> string \<Rightarrow> PlayerStats" where
  "resultToStats parse text =
     read_with parse text
       (\<lambda>j. [value_field j ''playerId'' get_string '''' (\<lambda>v s. s\<lparr>st_playerId := v\<rparr>),
             value_field j ''playerName'' get_string '''' (\<lambda>v s. s\<lparr>st_playerName := v\<rparr>),
             value_field j ''totalGames'' get_int 0 (\<lambda>v s. s\<lparr>st_totalGames := v\<rparr>),
             value_field j ''gamesWon'' get_int 0 (\<lambda>v s. s\<lparr>st_gamesWon := v\<rparr>),
             value_field j ''totalScore'' get_int 0 (\<lambda>v s. s\<lparr>st_totalScore := v\<rparr>),
             win_rate])
       (stats_new '''')"

section \<open>What the statements do\<close>

text \<open>
  The documented behaviour of the statements on the two tables of the players, for statements that
  succeed: \<open>N\<close> gives the name of an id, \<open>S\<close> its numbers (games, won, score, last played).  An integer
  column is read as its decimal text.
\<close>

type_synonym numbers = "int \<times> int \<times> int \<times> int"

definition column_of :: "(numbers \<Rightarrow> int) \<Rightarrow> numbers option \<Rightarrow> string option" where
  "column_of f n = map_option (\<lambda>x. int_to_string (f x)) n"

text \<open>Numbers that fit their types.\<close>

definition numbers_fit :: "numbers \<Rightarrow> bool" where
  "numbers_fit n \<longleftrightarrow> (case n of (a, b, c, t) \<Rightarrow>
     int32 a \<and> int32 b \<and> int32 c \<and> - (2 ^ 63) \<le> t \<and> t < 2 ^ 63)"

definition player_tables ::
    "'d Database \<Rightarrow> ('d \<Rightarrow> string \<Rightarrow> string option) \<Rightarrow> ('d \<Rightarrow> string \<Rightarrow> numbers option) \<Rightarrow> bool" where
  "player_tables D N S \<longleftrightarrow>
     (\<forall>d p n t. db_isConnected D d \<and> plain_text p \<and> plain_text n \<longrightarrow>
        (let (ok, d1) = db_executeBound D sql_save_player [SqlText p, SqlText n, SqlInt t] d
         in ok \<and> db_isConnected D d1 \<and> N d1 = (N d)(p \<mapsto> n) \<and> S d1 = S d)) \<and>
     (\<forall>d p a b c t. db_isConnected D d \<and> plain_text p \<and> numbers_fit (a, b, c, t) \<longrightarrow>
        (let d1 = save_stats D p a b c t d
         in db_isConnected D d1 \<and> N d1 = N d \<and> S d1 = (S d)(p \<mapsto> (a, b, c, t)))) \<and>
     (\<forall>d p. db_isConnected D d \<and> plain_text p \<longrightarrow>
        db_queryOneBound D sql_player_name [SqlText p] d = (N d p, d) \<and>
        db_queryOneBound D sql_stats_name [SqlText p] d = (N d p, d) \<and>
        db_queryOneBound D sql_total_games [SqlText p] d = (column_of (\<lambda>(a, b, c, t). a) (S d p), d) \<and>
        db_queryOneBound D sql_games_won [SqlText p] d = (column_of (\<lambda>(a, b, c, t). b) (S d p), d) \<and>
        db_queryOneBound D sql_total_score [SqlText p] d = (column_of (\<lambda>(a, b, c, t). c) (S d p), d) \<and>
        db_queryOneBound D sql_last_played [SqlText p] d = (column_of (\<lambda>(a, b, c, t). t) (S d p), d))"

lemma player_tables_save:
  assumes "player_tables D N S" "db_isConnected D d" "plain_text p" "plain_text n"
  shows "\<exists>d1. db_executeBound D sql_save_player [SqlText p, SqlText n, SqlInt t] d = (True, d1) \<and>
      db_isConnected D d1 \<and> N d1 = (N d)(p \<mapsto> n) \<and> S d1 = S d"
  using conjunct1 [OF assms(1) [unfolded player_tables_def], rule_format, of d p n t] assms(2-4)
  by (cases "db_executeBound D sql_save_player [SqlText p, SqlText n, SqlInt t] d") simp

lemma player_tables_stats:
  assumes "player_tables D N S" "db_isConnected D d" "plain_text p" "numbers_fit (a, b, c, t)"
  shows "db_isConnected D (save_stats D p a b c t d) \<and> N (save_stats D p a b c t d) = N d \<and>
      S (save_stats D p a b c t d) = (S d)(p \<mapsto> (a, b, c, t))"
  using conjunct1 [OF conjunct2 [OF assms(1) [unfolded player_tables_def]]] assms(2-4)
  by (simp only: Let_def)

lemma player_tables_reads:
  assumes "player_tables D N S" "db_isConnected D d" "plain_text p"
  shows "db_queryOneBound D sql_player_name [SqlText p] d = (N d p, d)"
    "db_queryOneBound D sql_stats_name [SqlText p] d = (N d p, d)"
    "db_queryOneBound D sql_total_games [SqlText p] d = (column_of (\<lambda>(a, b, c, t). a) (S d p), d)"
    "db_queryOneBound D sql_games_won [SqlText p] d = (column_of (\<lambda>(a, b, c, t). b) (S d p), d)"
    "db_queryOneBound D sql_total_score [SqlText p] d = (column_of (\<lambda>(a, b, c, t). c) (S d p), d)"
    "db_queryOneBound D sql_last_played [SqlText p] d = (column_of (\<lambda>(a, b, c, t). t) (S d p), d)"
  using conjunct2 [OF conjunct2 [OF assms(1) [unfolded player_tables_def]]] assms(2,3) by blast+

lemma read_number_column:
  "int32 (f x) \<Longrightarrow> read_number (column_of f (Some x)) upd r = Some (upd (f x) r)"
  by (simp add: read_number_def column_of_def int32_def stoi_int_to_string to_int32_def)

end
