(* ===== verification/Whot_Api.thy ===== *)
theory Whot_Api
  imports Whot_Handlers Whot_Http Whot_PlayerRepo
begin

text \<open>
  The HTTP interface of \<open>Application\<close>: its routes and the handler of each.  The ranking of the
  players is read from the database by \<open>getLeaderboard\<close>; \<open>board\<close> gives its result for a limit.
\<close>

section \<open>Reading a body\<close>

record CreateRequest =
  cr_config :: GameConfig
  cr_botCount :: int

definition create_steps :: "json \<Rightarrow> (CreateRequest \<Rightarrow> CreateRequest option) list" where
  "create_steps j =
     [read_field j ''minPlayers'' get_int (\<lambda>n r. r\<lparr>cr_config := (cr_config r)\<lparr>minPlayers := n\<rparr>\<rparr>),
      read_field j ''maxPlayers'' get_int (\<lambda>n r. r\<lparr>cr_config := (cr_config r)\<lparr>maxPlayers := n\<rparr>\<rparr>),
      read_field j ''startingCards'' get_int (\<lambda>n r. r\<lparr>cr_config := (cr_config r)\<lparr>startingCards := n\<rparr>\<rparr>),
      read_field j ''botCount'' get_int (\<lambda>n r. r\<lparr>cr_botCount := n\<rparr>)]"

definition body_with :: "JsonLib \<Rightarrow> string \<Rightarrow> (json \<Rightarrow> ('r \<Rightarrow> 'r option) list) \<Rightarrow> 'r \<Rightarrow> 'r" where
  "body_with L body steps r = (if body = '''' then r else read_with (lib_parse L) body steps r)"

definition create_request :: "JsonLib \<Rightarrow> string \<Rightarrow> CreateRequest" where
  "create_request L body =
     (let r = body_with L body create_steps \<lparr>cr_config = default_config, cr_botCount = 0\<rparr>;
          r1 = (if cr_botCount r < 0 then r\<lparr>cr_botCount := 0\<rparr> else r)
      in if cr_botCount r1 \<ge> maxPlayers (cr_config r1)
         then r1\<lparr>cr_botCount := maxPlayers (cr_config r1) - 1\<rparr> else r1)"

definition or_player :: "string \<Rightarrow> string" where
  "or_player n = (if n = '''' then ''Player'' else n)"

definition body_name :: "JsonLib \<Rightarrow> string \<Rightarrow> string" where
  "body_name L body =
     or_player (body_with L body
       (\<lambda>j. [read_field j ''playerName'' get_string (\<lambda>s _. sanitizePlayerName s)]) ''Player'')"

text \<open>The code and the name of a request to join by code.\<close>

definition body_code_name :: "JsonLib \<Rightarrow> string \<Rightarrow> string \<times> string" where
  "body_code_name L body =
     (let (code, name) = body_with L body
            (\<lambda>j. [read_field j ''gameCode'' get_string (\<lambda>s (code, name). (normalizeGameCode s, name)),
                  read_field j ''playerName'' get_string (\<lambda>s (code, name). (code, sanitizePlayerName s))])
            ('''', ''Player'')
      in (code, or_player name))"

section \<open>Handlers\<close>

definition game_summary :: "string \<Rightarrow> GameState \<Rightarrow> json" where
  "game_summary gid gs =
     json_object
      [(''gameId'', JString gid), (''phase'', JInt (phase_int (phase gs))),
       (''playerCount'', JInt (int (getPlayerCount gs))), (''maxPlayers'', JInt (maxPlayers (config gs))),
       (''joinable'', JBool (phase gs = LOBBY \<and> getPlayerCount gs < to_size_t (maxPlayers (config gs))))]"

text \<open>An answer that is made of a tree.\<close>

definition json_answer :: "JsonLib \<Rightarrow> int \<Rightarrow> json \<Rightarrow> Application \<Rightarrow> HttpResponse \<times> Application" where
  "json_answer L code j app = (resp_json code (lib_dump L j), dumped j app)"

definition handleGetGames :: "JsonLib \<Rightarrow> Application \<Rightarrow> HttpResponse \<times> Application" where
  "handleGetGames L app =
     json_answer L 200 (JArray (map (\<lambda>(gid, eng). game_summary gid (eng_state eng)) (activeGames app))) app"

definition handleCreateGame :: "JsonLib \<Rightarrow> HttpRequest \<Rightarrow> Application \<Rightarrow> HttpResponse \<times> Application" where
  \<open>handleCreateGame L req app =
     (let cr = create_request L (req_body req);
          (gid, app1) = createGame (cr_config cr) app
      in if gid = '''' then (resp_json 503 ''{"error":"Could not create game"}'', app1)
         else let (pid, r) = generateUUID (app_rng app1);
                  name = body_name L (req_body req);
                  (joined, app2) = joinGame gid pid name (app1\<lparr>app_rng := r\<rparr>)
              in if \<not> joined then (resp_json 500 ''{"error":"Could not join game"}'', app2)
                 else let app3 = (if cr_botCount cr > 0 then addBotsToGame gid (cr_botCount cr) app2 else app2);
                          code = (case getGame gid app3 of
                                    None \<Rightarrow> [] | Some eng \<Rightarrow> [(''gameCode'', JString (gameCode (eng_state eng)))])
                      in json_answer L 201
                           (json_object ([(''gameId'', JString gid), (''playerId'', JString pid)] @ code)) app3)\<close>

definition handleGetGame :: "JsonLib \<Rightarrow> string \<Rightarrow> Application \<Rightarrow> HttpResponse \<times> Application" where
  \<open>handleGetGame L gid app =
     (case getGame gid app of
        None \<Rightarrow> (resp_notFound ''{"error":"Game not found"}'', app)
      | Some eng \<Rightarrow> json_answer L 200 (state_toJson (eng_state eng)) app)\<close>

definition joined_response :: "JsonLib \<Rightarrow> string \<Rightarrow> string \<Rightarrow> Application \<Rightarrow> HttpResponse \<times> Application" where
  \<open>joined_response L gid name app =
     (let (pid, r) = generateUUID (app_rng app);
          (joined, app1) = joinGame gid pid name (app\<lparr>app_rng := r\<rparr>)
      in if \<not> joined then (resp_json 400 ''{"error":"Cannot join game"}'', app1)
         else json_answer L 200 (json_object [(''gameId'', JString gid), (''playerId'', JString pid)]) app1)\<close>

definition handleJoinGameHttp :: "JsonLib \<Rightarrow> string \<Rightarrow> HttpRequest \<Rightarrow> Application \<Rightarrow> HttpResponse \<times> Application" where
  "handleJoinGameHttp L gid req app = joined_response L gid (body_name L (req_body req)) app"

definition handleJoinByCode :: "JsonLib \<Rightarrow> HttpRequest \<Rightarrow> Application \<Rightarrow> HttpResponse \<times> Application" where
  \<open>handleJoinByCode L req app =
     (let (code, name) = body_code_name L (req_body req)
      in if code = '''' then (resp_json 400 ''{"error":"gameCode required"}'', app)
         else if \<not> isValidGameCode code then (resp_json 400 ''{"error":"Invalid game code format"}'', app)
         else let gid = getGameIdByCode code app
              in if gid = '''' then (resp_json 404 ''{"error":"Game not found"}'', app)
                 else joined_response L gid name app)\<close>

text \<open>\<open>std::stoi\<close> of a query parameter inside a \<open>try\<close>: the default stays when it throws.\<close>

definition query_int :: "HttpRequest \<Rightarrow> string \<Rightarrow> int \<Rightarrow> int" where
  "query_int req k d =
     (case map_get (req_queryParams req) k of
        None \<Rightarrow> d
      | Some s \<Rightarrow> (case stoi s of None \<Rightarrow> d | Some n \<Rightarrow> n))"

definition max_idle :: "HttpRequest \<Rightarrow> int" where
  "max_idle req = (let n = query_int req ''maxIdleSeconds'' kDefaultLobbyStaleSeconds in if n < 60 then 60 else n)"

definition handleCleanupStaleLobbies :: "JsonLib \<Rightarrow> HttpRequest \<Rightarrow> Application \<Rightarrow> HttpResponse \<times> Application" where
  "handleCleanupStaleLobbies L req app =
     (let removed = stale_lobbies (max_idle req * 1000000000) app
      in json_answer L 200
           (json_object
             [(''removedCount'', JInt (int (length removed))),
              (''removedGameIds'', JArray (map JString removed)),
              (''maxIdleSeconds'', JInt (max_idle req))])
           (remove_stale (max_idle req) app))"

definition leaderboard_limit :: "HttpRequest \<Rightarrow> int" where
  "leaderboard_limit req =
     (let n = query_int req ''limit'' 100; n1 = (if n < 1 then 1 else n) in if n1 > 100 then 100 else n1)"

definition leaderboard_entry :: "PlayerStats \<Rightarrow> json" where
  "leaderboard_entry s =
     json_object [(''playerId'', JString (st_playerId s)), (''playerName'', JString (st_playerName s)),
       (''totalGames'', JInt (st_totalGames s)), (''gamesWon'', JInt (st_gamesWon s)),
       (''totalScore'', JInt (st_totalScore s)), (''winRate'', JReal (st_winRate s))]"

definition handleLeaderboard :: "JsonLib \<Rightarrow> (int \<Rightarrow> PlayerStats list) \<Rightarrow> HttpRequest \<Rightarrow> Application \<Rightarrow>
    HttpResponse \<times> Application" where
  "handleLeaderboard L board req app =
     json_answer L 200 (JArray (if app_db app then map leaderboard_entry (board (leaderboard_limit req)) else [])) app"

lemma json_answer_pair [simp]:
  "fst (json_answer L code j app) = resp_json code (lib_dump L j)" "snd (json_answer L code j app) = dumped j app"
  by (simp_all add: json_answer_def)

text \<open>The requests that only ask.\<close>

lemma queries_state [simp]:
  "snd (handleGetGames L app) = dumped (JArray (map (\<lambda>(gid, eng). game_summary gid (eng_state eng)) (activeGames app))) app"
  "snd (handleGetGame L gid app) = (case getGame gid app of None \<Rightarrow> app | Some eng \<Rightarrow> dumped (state_toJson (eng_state eng)) app)"
  "snd (handleLeaderboard L board req app) =
     dumped (JArray (if app_db app then map leaderboard_entry (board (leaderboard_limit req)) else [])) app"
  by (simp_all add: handleGetGames_def handleGetGame_def handleLeaderboard_def split: option.split)

section \<open>Routes\<close>

datatype Route =
  R_GetGames | R_CreateGame | R_Health | R_GetGame | R_Join | R_JoinByCode | R_Cleanup | R_Leaderboard

definition api_server :: "string \<Rightarrow> Route HttpServer" where
  "api_server staticPath =
     addRoute GET ''/api/leaderboard'' R_Leaderboard
      (addRoute POST ''/api/games/cleanup-stale'' R_Cleanup
       (addRoute POST ''/api/games/join'' R_JoinByCode
        (addPatternRoute POST ''/api/games/:id/join'' R_Join
         (addPatternRoute GET ''/api/games/:id'' R_GetGame
          (addRoute GET ''/api/health'' R_Health
           (addRoute POST ''/api/games'' R_CreateGame
            (addRoute GET ''/api/games'' R_GetGames
             (setStaticRoot staticPath http_new))))))))"

fun api_call ::
    "JsonLib \<Rightarrow> (int \<Rightarrow> PlayerStats list) \<Rightarrow> Route \<Rightarrow> HttpRequest \<Rightarrow> Application \<Rightarrow> HttpResponse \<times> Application" where
  "api_call L board R_GetGames req app = handleGetGames L app"
| "api_call L board R_CreateGame req app = handleCreateGame L req app"
| \<open>api_call L board R_Health req app = (resp_json 200 ''{"status":"ok"}'', app)\<close>
| "api_call L board R_GetGame req app =
     (case map_get (req_pathParams req) ''id'' of
        None \<Rightarrow> (resp_notFound '''', app)
      | Some gid \<Rightarrow> handleGetGame L gid app)"
| "api_call L board R_Join req app =
     (case map_get (req_pathParams req) ''id'' of
        None \<Rightarrow> (resp_notFound '''', app)
      | Some gid \<Rightarrow> handleJoinGameHttp L gid req app)"
| "api_call L board R_JoinByCode req app = handleJoinByCode L req app"
| "api_call L board R_Cleanup req app = handleCleanupStaleLobbies L req app"
| "api_call L board R_Leaderboard req app = handleLeaderboard L board req app"

text \<open>One connection to the HTTP port, from the bytes received to the text sent.\<close>

definition api_connection ::
    "JsonLib \<Rightarrow> (int \<Rightarrow> PlayerStats list) \<Rightarrow> (string \<Rightarrow> string option) \<Rightarrow> string \<Rightarrow> string \<Rightarrow> Application \<Rightarrow>
     string option \<times> Application" where
  "api_connection L board fs staticPath buf app =
     serve_connection (api_call L board) fs (api_server staticPath) buf app"

end
