(* ===== verification/Whot_Badge.thy ===== *)
theory Whot_Badge
  imports Whot_EngineInv
begin

text \<open>
  What a game keeps from its lobby: its id, its code, its creator, its configuration and the ids of
  its players in their order, beside their names.  No operation of the engine changes any of it; only the application
  does, when players join and leave.
\<close>

type_synonym badge = "string \<times> string \<times> string \<times> GameConfig \<times> string list"

definition badge :: "GameState \<Rightarrow> badge" where
  "badge gs = (gameId gs, gameCode gs, creatorPlayerId gs, config gs, map player_id (players gs))"

definition seat_names :: "GameState \<Rightarrow> string list" where
  "seat_names gs = map player_name (players gs)"

lemma badge_update [simp]:
  "badge (gs\<lparr>activePickCount := x0\<rparr>) = badge gs"
  "seat_names (gs\<lparr>activePickCount := x0\<rparr>) = seat_names gs"
  "badge (gs\<lparr>demandedSuit := x1\<rparr>) = badge gs"
  "seat_names (gs\<lparr>demandedSuit := x1\<rparr>) = seat_names gs"
  "badge (gs\<lparr>callCard := x2\<rparr>) = badge gs"
  "seat_names (gs\<lparr>callCard := x2\<rparr>) = seat_names gs"
  "badge (gs\<lparr>currentPlayerIndex := x3\<rparr>) = badge gs"
  "seat_names (gs\<lparr>currentPlayerIndex := x3\<rparr>) = seat_names gs"
  "badge (gs\<lparr>direction := x4\<rparr>) = badge gs"
  "seat_names (gs\<lparr>direction := x4\<rparr>) = seat_names gs"
  "badge (gs\<lparr>phase := x5\<rparr>) = badge gs"
  "seat_names (gs\<lparr>phase := x5\<rparr>) = seat_names gs"
  "badge (gs\<lparr>deck := x6\<rparr>) = badge gs"
  "seat_names (gs\<lparr>deck := x6\<rparr>) = seat_names gs"
  "badge (gs\<lparr>discardPile := x7\<rparr>) = badge gs"
  "seat_names (gs\<lparr>discardPile := x7\<rparr>) = seat_names gs"
  by (simp_all add: badge_def seat_names_def)

lemma badge_modify:
  "(\<And>p. player_id (f p) = player_id p) \<Longrightarrow> badge (modify_player i f gs) = badge gs"
  by (simp add: badge_def modify_player_def map_update_same)

lemma names_modify:
  "(\<And>p. player_name (f p) = player_name p) \<Longrightarrow> seat_names (modify_player i f gs) = seat_names gs"
  by (simp add: seat_names_def modify_player_def map_update_same)

lemma badge_advance [simp]: "badge (advanceTurn gs) = badge gs"
  "seat_names (advanceTurn gs) = seat_names gs" "badge (skipNextPlayer gs) = badge gs"
  "seat_names (skipNextPlayer gs) = seat_names gs"
  "badge (reverseDirection gs) = badge gs"
  "seat_names (reverseDirection gs) = seat_names gs"
  by (simp_all add: advanceTurn_def skipNextPlayer_def reverseDirection_def)

lemma badge_setters [simp]:
  "badge (setCallCard c gs) = badge gs"
  "seat_names (setCallCard c gs) = seat_names gs" "badge (setActivePickCount n gs) = badge gs"
  "seat_names (setActivePickCount n gs) = seat_names gs"
  "badge (resetActivePickCount gs) = badge gs"
  "seat_names (resetActivePickCount gs) = seat_names gs" "badge (setDemandedSuit s gs) = badge gs"
  "seat_names (setDemandedSuit s gs) = seat_names gs"
  "badge (clearDemandedSuit gs) = badge gs"
  "seat_names (clearDemandedSuit gs) = seat_names gs" "badge (setPhase ph gs) = badge gs"
  "seat_names (setPhase ph gs) = seat_names gs"
  "badge (state_endRound gs) = badge gs"
  "seat_names (state_endRound gs) = seat_names gs" "badge (state_initialize gs) = badge gs"
  "seat_names (state_initialize gs) = seat_names gs"
  "badge (addToDiscardPile co gs) = badge gs"
  "seat_names (addToDiscardPile co gs) = seat_names gs"
  by (simp_all add: whot_defs state_initialize_def addToDiscardPile_def badge_def seat_names_def split: option.split)

lemma badge_reshuffle [simp]: "badge (reshuffleDiscardPile gs) = badge gs"
  "seat_names (reshuffleDiscardPile gs) = seat_names gs"
  by (simp_all add: reshuffleDiscardPile_def split: option.split)

lemma badge_draw_for [simp]: "badge (draw_for i gs) = badge gs"
  "seat_names (draw_for i gs) = seat_names gs"
  by (simp_all add: draw_for_def Let_def split_beta badge_modify names_modify give_card_def split: option.split)

lemma badge_fold_draw [simp]: "badge (fold draw_for ks gs) = badge gs"
  "seat_names (fold draw_for ks gs) = seat_names gs"
  by (induction ks arbitrary: gs) simp_all

lemma badge_deal [simp]: "badge (deal_round gs) = badge gs"
  "seat_names (deal_round gs) = seat_names gs" "badge ((deal_round ^^ n) gs) = badge gs"
  "seat_names ((deal_round ^^ n) gs) = seat_names gs"
proof -
  have deal: "badge (deal_round gs) = badge gs \<and> seat_names (deal_round gs) = seat_names gs" for gs
    by (simp add: deal_round_def)
  then show "badge (deal_round gs) = badge gs" "seat_names (deal_round gs) = seat_names gs" by simp_all
  show "badge ((deal_round ^^ n) gs) = badge gs" "seat_names ((deal_round ^^ n) gs) = seat_names gs"
    by (induction n) (simp_all add: deal)
qed

lemma badge_flip [simp]: "badge (flip_call_card gs) = badge gs"
  "seat_names (flip_call_card gs) = seat_names gs"
  by (simp_all add: flip_call_card_def Let_def split_beta split: option.split)

lemma badge_startRound [simp]: "badge (state_startRound gs) = badge gs"
  "seat_names (state_startRound gs) = seat_names gs"
  by (simp_all add: state_startRound_def badge_def seat_names_def resetTurnFlags_def o_def)

lemma badge_special [simp]: "badge (special_state c i gs) = badge gs"
  "seat_names (special_state c i gs) = seat_names gs"
  by (cases "getValue c"; simp_all add: special_state_def)+

lemma badge_put [simp]: "badge (put_card i idx c gs) = badge gs"
  "seat_names (put_card i idx c gs) = seat_names gs"
  by (simp_all add: put_card_def badge_modify names_modify take_from_hand_def)

lemma badge_score [simp]: "badge (score_round gs) = badge gs" "seat_names (score_round gs) = seat_names gs"
proof -
  have fold: "badge (fold (\<lambda>k. modify_player k score_player) ks gs) = badge gs \<and>
      seat_names (fold (\<lambda>k. modify_player k score_player) ks gs) = seat_names gs" for ks gs
    by (induction ks arbitrary: gs)
      (simp_all add: badge_modify names_modify score_player_def incrementGamesPlayed_def addToScore_def)
  have "badge (credit_winner gs) = badge gs \<and> seat_names (credit_winner gs) = seat_names gs"
    by (simp add: credit_winner_def badge_modify names_modify incrementGamesWon_def split: option.split)
  then show "badge (score_round gs) = badge gs" "seat_names (score_round gs) = seat_names gs"
    by (simp_all add: score_round_def Let_def fold)
qed

lemma badge_penalty [simp]: "badge (penalty_draw i n gs) = badge gs"
  "seat_names (penalty_draw i n gs) = seat_names gs"
  by (simp_all add: penalty_draw_def draw_cards_def Let_def split_beta badge_modify names_modify)

lemma process_badge:
  assumes "processAction a eng = Some (r, eng')"
  shows "badge (eng_state eng') = badge (eng_state eng) \<and> seat_names (eng_state eng') = seat_names (eng_state eng)"
  using assms
proof (cases rule: processAction_cases)
  case (play idx i)
  then show ?thesis by (simp add: after_play_state Let_def)
next
  case (draw i)
  then show ?thesis by (simp add: handleDrawCard_state split: option.split)
next
  case declares
  then show ?thesis
    by (simp add: handleDeclaration_state badge_modify names_modify declare_flags_def split: option.split)
next
  case (suit s)
  then show ?thesis by (simp add: handleSuitChoice_state [OF suit(4,2)] Let_def)
qed simp

lemmas badge_process = process_badge [THEN conjunct1] and names_process = process_badge [THEN conjunct2]

lemma badge_newRound [simp]: "badge (eng_state (startNewRound now eng)) = badge (eng_state eng)"
  "seat_names (eng_state (startNewRound now eng)) = seat_names (eng_state eng)"
  by (simp_all add: startNewRound_def Let_def dealt_state_def)

lemma badge_startGame [simp]: "badge (eng_state (engine_startGame eng)) = badge (eng_state eng)"
  "seat_names (eng_state (engine_startGame eng)) = seat_names (eng_state eng)"
  by (simp_all add: engine_startGame_def)

end
