(* ===== verification/Whot_AppInv.thy ===== *)
theory Whot_AppInv
  imports Whot_Api Whot_Badge
begin

text \<open>
  What every event of the server keeps.  \<open>lobby_law\<close> is the interface: a law on a game's badge that
  holds of a new game and survives a player joining and leaving holds of every game in every state
  the server reaches.
\<close>

section \<open>What the helpers leave alone\<close>

lemma app_send_frame [simp]:
  "activeGames (app_send L sid m app) = activeGames app" "gameActivity (app_send L sid m app) = gameActivity app"
  "app_sessions (app_send L sid m app) = app_sessions app" "app_store (app_send L sid m app) = app_store app"
  "app_rng (app_send L sid m app) = app_rng app" "app_steady (app_send L sid m app) = app_steady app"
  "app_db (app_send L sid m app) = app_db app" "app_wall (app_send L sid m app) = app_wall app"
  "maxGamesPerServer (app_send L sid m app) = maxGamesPerServer app"
  "app_counter (app_send L sid m app) = app_counter app"
  by (simp_all add: app_send_def Let_def)

lemma store_frame [simp]:
  "activeGames (store c app) = activeGames app" "gameActivity (store c app) = gameActivity app"
  "app_ws (store c app) = app_ws app" "app_rng (store c app) = app_rng app"
  "app_steady (store c app) = app_steady app" "app_db (store c app) = app_db app"
  "app_wall (store c app) = app_wall app" "maxGamesPerServer (store c app) = maxGamesPerServer app"
  "app_counter (store c app) = app_counter app"
  by (simp_all add: store_def Let_def split: StoreCall.split)

lemma touch_frame [simp]:
  "activeGames (touchGameActivity gid app) = activeGames app"
  "app_ws (touchGameActivity gid app) = app_ws app" "app_store (touchGameActivity gid app) = app_store app"
  "app_rng (touchGameActivity gid app) = app_rng app" "app_steady (touchGameActivity gid app) = app_steady app"
  "app_db (touchGameActivity gid app) = app_db app" "app_wall (touchGameActivity gid app) = app_wall app"
  "maxGamesPerServer (touchGameActivity gid app) = maxGamesPerServer app"
  "app_counter (touchGameActivity gid app) = app_counter app"
  by (simp_all add: touchGameActivity_def split: option.split)

lemma send_state_frame [simp]:
  "activeGames (send_state L gid gs ts sid pid app) = activeGames app"
  "gameActivity (send_state L gid gs ts sid pid app) = gameActivity app"
  "app_sessions (send_state L gid gs ts sid pid app) = app_sessions app"
  "app_store (send_state L gid gs ts sid pid app) = app_store app"
  "app_rng (send_state L gid gs ts sid pid app) = app_rng app"
  "app_steady (send_state L gid gs ts sid pid app) = app_steady app"
  "app_wall (send_state L gid gs ts sid pid app) = app_wall app"
  "app_db (send_state L gid gs ts sid pid app) = app_db app"
  "maxGamesPerServer (send_state L gid gs ts sid pid app) = maxGamesPerServer app"
  "app_counter (send_state L gid gs ts sid pid app) = app_counter app"
  by (simp_all add: send_state_def)

lemma fold_send_frame [simp]:
  "activeGames (fold (\<lambda>(sid, pid). send_state L gid gs ts sid pid) ps app) = activeGames app"
  "gameActivity (fold (\<lambda>(sid, pid). send_state L gid gs ts sid pid) ps app) = gameActivity app"
  "app_sessions (fold (\<lambda>(sid, pid). send_state L gid gs ts sid pid) ps app) = app_sessions app"
  "app_store (fold (\<lambda>(sid, pid). send_state L gid gs ts sid pid) ps app) = app_store app"
  "app_rng (fold (\<lambda>(sid, pid). send_state L gid gs ts sid pid) ps app) = app_rng app"
  "app_steady (fold (\<lambda>(sid, pid). send_state L gid gs ts sid pid) ps app) = app_steady app"
  "app_wall (fold (\<lambda>(sid, pid). send_state L gid gs ts sid pid) ps app) = app_wall app"
  "app_db (fold (\<lambda>(sid, pid). send_state L gid gs ts sid pid) ps app) = app_db app"
  "maxGamesPerServer (fold (\<lambda>(sid, pid). send_state L gid gs ts sid pid) ps app) = maxGamesPerServer app"
  "app_counter (fold (\<lambda>(sid, pid). send_state L gid gs ts sid pid) ps app) = app_counter app"
  by (induction ps arbitrary: app) (simp_all add: split_beta)

lemma broadcast_frame [simp]:
  "activeGames (broadcastGameState L gid app) = activeGames app"
  "gameActivity (broadcastGameState L gid app) = gameActivity (touchGameActivity gid app)"
  "app_sessions (broadcastGameState L gid app) = app_sessions app"
  "app_store (broadcastGameState L gid app) = app_store app"
  "app_rng (broadcastGameState L gid app) = app_rng app"
  "app_steady (broadcastGameState L gid app) = app_steady app"
  "app_wall (broadcastGameState L gid app) = app_wall app"
  "app_db (broadcastGameState L gid app) = app_db app"
  "maxGamesPerServer (broadcastGameState L gid app) = maxGamesPerServer app"
  by (simp_all add: broadcastGameState_def Let_def split: option.split)

lemma activeGames_put [simp]: "activeGames (put_engine gid eng app) = map_put gid eng (activeGames app)"
  by (simp add: put_engine_def)

lemma answer_dumped_frame [simp]:
  "activeGames (answer_dumped res app) = activeGames app"
  "gameActivity (answer_dumped res app) = gameActivity app"
  "app_sessions (answer_dumped res app) = app_sessions app"
  "app_store (answer_dumped res app) = app_store app"
  "app_rng (answer_dumped res app) = app_rng app"
  "app_steady (answer_dumped res app) = app_steady app"
  "app_wall (answer_dumped res app) = app_wall app"
  "app_db (answer_dumped res app) = app_db app"
  "maxGamesPerServer (answer_dumped res app) = maxGamesPerServer app"
  "app_counter (answer_dumped res app) = app_counter app"
  by (simp_all add: answer_dumped_def split: option.split)

lemma put_new_round_frame [simp]:
  "activeGames (put_new_round gid eng app) = map_put gid (startNewRound (app_steady app) eng) (activeGames app)"
  "gameActivity (put_new_round gid eng app) = gameActivity app"
  "app_sessions (put_new_round gid eng app) = app_sessions app"
  "app_store (put_new_round gid eng app) = app_store app"
  "app_rng (put_new_round gid eng app) = app_rng app"
  "app_steady (put_new_round gid eng app) = app_steady app"
  "app_wall (put_new_round gid eng app) = app_wall app"
  "app_db (put_new_round gid eng app) = app_db app"
  "maxGamesPerServer (put_new_round gid eng app) = maxGamesPerServer app"
  "app_counter (put_new_round gid eng app) = app_counter app"
  by (simp_all add: put_new_round_def put_engine_def Let_def)

lemma getGame_dumped [simp]:
  "getGame gid (dumped j app) = getGame gid app" "getGame gid (answer_dumped res app) = getGame gid app"
  by (simp_all add: getGame_def)

section \<open>A law on the badge of every game\<close>

definition all_games :: "(string \<Rightarrow> badge \<Rightarrow> bool) \<Rightarrow> (string, GameEngine) smap \<Rightarrow> bool" where
  "all_games law games \<longleftrightarrow>
     map_wf games \<and> (\<forall>gid eng. map_get games gid = Some eng \<longrightarrow> law gid (badge (eng_state eng)))"

lemma all_games_put: "all_games law games \<Longrightarrow> law gid (badge (eng_state eng)) \<Longrightarrow> all_games law (map_put gid eng games)"
  by (auto simp: all_games_def get_put wf_put split: if_splits)

lemma all_games_del: "all_games law games \<Longrightarrow> all_games law (map_del gid games)"
  by (auto simp: all_games_def get_del wf_del split: if_splits)

lemma all_games_get: "all_games law games \<Longrightarrow> map_get games gid = Some eng \<Longrightarrow> law gid (badge (eng_state eng))"
  by (simp add: all_games_def)

text \<open>Putting back an engine whose game keeps its badge.\<close>

lemma all_games_same:
  "all_games law games \<Longrightarrow> map_get games gid = Some eng \<Longrightarrow> badge (eng_state eng') = badge (eng_state eng) \<Longrightarrow>
   all_games law (map_put gid eng' games)"
  by (simp add: all_games_put all_games_get)

section \<open>Bots\<close>

lemma next_round_all_games:
  assumes "all_games law (activeGames app)" "getGame gid app = Some eng"
  shows "all_games law (activeGames (next_round L gid eng app))"
  using assms by (simp add: next_round_def all_games_same getGame_def)

lemma all_games_wf: "all_games law games \<Longrightarrow> map_wf games"
  by (simp add: all_games_def)

lemma bot_turn_cases:
  assumes "bot_turn L gid app = Some (go_on, app')"
  obtains (stop) "\<not> go_on" "app' = app"
  | (moves) eng i a r res eng1 where "getGame gid app = Some eng" "phase (eng_state eng) = IN_PROGRESS"
      "getCurrentPlayer (eng_state eng) = Some i" "player_type (players (eng_state eng) ! i) \<noteq> HUMAN"
      "decideAction (ai_new (player_id (players (eng_state eng) ! i)) (player_name (players (eng_state eng) ! i))
         (bot_level (player_type (players (eng_state eng) ! i)))) (eng_state eng) (app_rng app) = Some (a, r)"
      "processAction a eng = Some (res, eng1)" "go_on = res_success res"
      "app' = (let app1 = answer_dumped res (put_engine gid eng1 (app\<lparr>app_rng := r\<rparr>))
         in if res_success res then next_round L gid eng1 (broadcastGameState L gid app1) else app1)"
  using assms unfolding bot_turn_def Let_def by (auto split: option.splits if_splits prod.splits)

lemma bot_turn_all_games:
  assumes "all_games law (activeGames app)" "bot_turn L gid app = Some (go_on, app')"
  shows "all_games law (activeGames app')"
  using assms(2)
proof (cases rule: bot_turn_cases)
  case (moves eng i a r res eng1)
  let ?app1 = "answer_dumped res (put_engine gid eng1 (app\<lparr>app_rng := r\<rparr>))"
  have all1: "all_games law (activeGames ?app1)"
    using all_games_same [OF assms(1) _ badge_process [OF moves(6)]] moves(1) by (simp add: getGame_def)
  moreover have "getGame gid (broadcastGameState L gid ?app1) = Some eng1"
    using assms(1) by (simp add: getGame_def get_put all_games_wf)
  ultimately show ?thesis using moves(8) by (simp add: next_round_all_games Let_def)
qed (use assms in simp)

lemma bot_turns_all_games:
  "all_games law (activeGames app) \<Longrightarrow> bot_turns L gid n app = Some app' \<Longrightarrow> all_games law (activeGames app')"
proof (induction n arbitrary: app)
  case (Suc n)
  from Suc.prems(2) obtain go_on app1 where turn: "bot_turn L gid app = Some (go_on, app1)"
      "(if go_on then bot_turns L gid n app1 else Some app1) = Some app'"
    by (auto split: option.splits)
  then show ?case
    using Suc.IH [of app1] bot_turn_all_games [OF Suc.prems(1) turn(1)] by (cases go_on) simp_all
qed simp

lemma runBotTurns_all_games:
  "all_games law (activeGames app) \<Longrightarrow> runBotTurnsIfNeeded L gid app = Some app' \<Longrightarrow>
   all_games law (activeGames app')"
  unfolding runBotTurnsIfNeeded_def by (rule bot_turns_all_games)

end
