(* ===== verification/Whot_LobbyLaw.thy ===== *)
theory Whot_LobbyLaw
  imports Whot_AppInv
begin

text \<open>
  The interface \<open>lobby_law\<close>: a law about the badge of a game that holds of a new game and survives
  a player joining or leaving.  Inside it, every handler and every event of the server keeps the
  law for all games.
\<close>

section \<open>Badges after the operations of the application\<close>

lemma badge_removePlayer:
  "badge gs = (i, code, cr, cfg, ids) \<Longrightarrow>
   badge (removePlayer pid gs) = (i, code, cr, cfg, filter (\<lambda>x. x \<noteq> pid) ids)"
  by (auto simp: badge_def removePlayer_def filter_map o_def)

lemma badge_addPlayer:
  "badge gs = (i, code, cr, cfg, ids) \<Longrightarrow>
   badge (addPlayer (Some p) gs) =
     (if length ids < to_size_t (maxPlayers cfg)
      then (i, code, if ids = [] then player_id p else cr, cfg, ids @ [player_id p])
      else (i, code, cr, cfg, ids))"
  by (auto simp: badge_def addPlayer_def Let_def)

lemma getPlayer_None_badge:
  "badge gs = (i, code, cr, cfg, ids) \<Longrightarrow> getPlayer pid gs = None \<longleftrightarrow> pid \<notin> set ids"
  by (auto simp: badge_def getPlayer_def)

lemma badge_new:
  "badge ((state_initialize (state_new cfg gid now seed))\<lparr>gameCode := code\<rparr>) = (gid, code, '''', cfg, [])"
  by (simp add: badge_def state_initialize_def state_new_def)

lemma code_loop_shape:
  "0 < n \<Longrightarrow> length (fst (code_loop n code app r)) = 6 \<and> set (fst (code_loop n code app r)) \<subseteq> set code_chars"
proof (induction n arbitrary: code r)
  case (Suc n)
  show ?case
  proof (cases "getGameIdByCode (fst (generateGameCode 6 r)) app = '''' \<or> n = 0")
    case True
    then show ?thesis
      using pick_chars_set [of code_chars 6 r]
      by (auto simp: generateGameCode_def split_beta Let_def code_chars_def)
  next
    case False
    then show ?thesis using Suc.IH by (simp add: split_beta Let_def)
  qed
qed simp

lemma new_code_shape: "length (fst (new_code app r)) = 6 \<and> set (fst (new_code app r)) \<subseteq> set code_chars"
  using code_loop_shape [of 20 "''''" app r] by (auto simp: new_code_def split_beta Let_def)

section \<open>Ids\<close>

text \<open>The ids of bots are told apart by their numbers, and from a generated player id.\<close>

lemma nat_to_string_inj: "nat_to_string m = nat_to_string n \<longleftrightarrow> m = n"
  by (metis digits_value_nat_to_string of_nat_eq_iff)

lemma bot_player_id: "player_id (bot_player now gid k) = ''bot-'' @ gid @ ''-'' @ nat_to_string k"
  by (simp add: bot_player_def player_new_def)

lemma bot_player_inj: "player_id (bot_player now gid j) = player_id (bot_player now' gid k) \<longleftrightarrow> j = k"
  by (simp add: bot_player_id nat_to_string_inj)

lemma uuid_not_bot: "fst (generateUUID r) \<noteq> player_id (bot_player now gid k)"
proof -
  have shape: "fst (generateUUID r) ! 1 = fst (pick_chars hex_chars 8 r) ! 1"
    by (simp add: generateUUID_def split_beta Let_def nth_append)
  moreover have "set (fst (pick_chars hex_chars 8 r)) \<subseteq> set hex_chars"
    by (rule pick_chars_set) (simp add: hex_chars_def)
  then have "fst (pick_chars hex_chars 8 r) ! 1 \<in> set hex_chars"
    using nth_mem [of 1 "fst (pick_chars hex_chars 8 r)"] by auto
  ultimately have "fst (generateUUID r) ! 1 \<noteq> CHR ''o''" by (auto simp: hex_chars_def)
  then show ?thesis by (auto simp: bot_player_id)
qed

section \<open>The outcomes of a handler\<close>

lemma handleStartGame_cases:
  assumes "handleStartGame L sid m app = Some app'"
  obtains (refused) gid pid what where "(gid, pid) = session_defaults sid m app"
      "app' = start_error L sid gid pid what app"
  | (started) gid pid eng eng1 where "(gid, pid) = session_defaults sid m app" "pid \<noteq> ''''"
      "getGame gid app = Some eng" "phase (eng_state eng) = LOBBY" "creatorPlayerId (eng_state eng) = pid"
      "to_size_t (minPlayers (config (eng_state eng))) \<le> getPlayerCount (eng_state eng)"
      "eng1 = startNewRound (app_steady app) (engine_startGame eng)"
      "badge (eng_state eng1) = badge (eng_state eng)"
      "runBotTurnsIfNeeded L gid (broadcastGameState L gid (store (SaveGame (eng_state eng1)) (put_new_round gid (engine_startGame eng) app)))
         = Some app'"
proof -
  obtain gid pid where d: "session_defaults sid m app = (gid, pid)" by (cases "session_defaults sid m app")
  show ?thesis
  proof (cases "\<exists>what. app' = start_error L sid gid pid what app")
    case True
    then show ?thesis using refused d by auto
  next
    case False
    then show ?thesis
      using assms d started
      by (auto simp: handleStartGame_def Let_def not_less split: option.splits if_splits)
  qed
qed

lemma handleGameAction_cases:
  assumes "handleGameAction L sid m app = Some app'"
  obtains (ignored) "app' = app"
  | (refused) gid pid eng a res eng1 where "(gid, pid) = session_defaults sid m app"
      "getGame gid app = Some eng" "pid \<noteq> ''''" "action_of_message L pid m = Some a"
      "processAction a eng = Some (res, eng1)" "\<not> res_success res"
      "app' = action_error L sid gid pid (res_message res) (answer_dumped res (put_engine gid eng1 app))"
  | (accepted) gid pid eng a res eng1 where "(gid, pid) = session_defaults sid m app"
      "getGame gid app = Some eng" "pid \<noteq> ''''" "action_of_message L pid m = Some a"
      "processAction a eng = Some (res, eng1)" "res_success res"
      "runBotTurnsIfNeeded L gid (action_accepted L gid eng1 (answer_dumped res (put_engine gid eng1 app))) = Some app'"
proof -
  obtain gid pid where d: "session_defaults sid m app = (gid, pid)" by (cases "session_defaults sid m app")
  show ?thesis
  proof (cases "app' = app")
    case False
    then obtain eng a res eng1 where *: "getGame gid app = Some eng" "pid \<noteq> ''''"
        "action_of_message L pid m = Some a" "processAction a eng = Some (res, eng1)"
        "(let app1 = answer_dumped res (put_engine gid eng1 app)
          in if \<not> res_success res then Some (action_error L sid gid pid (res_message res) app1)
             else runBotTurnsIfNeeded L gid (action_accepted L gid eng1 app1)) = Some app'"
      using assms d by (auto simp: handleGameAction_def split: option.splits if_splits prod.splits)
    show ?thesis
      by (cases "res_success res")
        (use * d refused [of gid pid eng a res eng1] accepted [of gid pid eng a res eng1] in
          \<open>simp_all add: Let_def\<close>)
  qed (rule ignored)
qed

lemma store_stats_games [simp]:
  "activeGames (store_stats gs app) = activeGames app" "app_steady (store_stats gs app) = app_steady app"
proof -
  have "activeGames (fold (\<lambda>p. store (f p)) ps app) = activeGames app \<and>
      app_steady (fold (\<lambda>p. store (f p)) ps app) = app_steady app" for f and ps :: "Player list"
    by (induction ps arbitrary: app) simp_all
  then show "activeGames (store_stats gs app) = activeGames app" "app_steady (store_stats gs app) = app_steady app"
    by (simp_all add: store_stats_def)
qed

lemma bind_session_games [simp]: "activeGames (bind_session sid gid pid app) = activeGames app"
  by (simp add: bind_session_def)

section \<open>The interface\<close>

locale lobby_law =
  fixes law :: "string \<Rightarrow> badge \<Rightarrow> bool"
  assumes law_new: "length code = 6 \<Longrightarrow> set code \<subseteq> set code_chars \<Longrightarrow> law gid (gid, code, '''', cfg, [])"
    and law_join: "law gid (i, code, cr, cfg, ids) \<Longrightarrow> pid \<notin> set ids \<Longrightarrow>
        length ids < to_size_t (maxPlayers cfg) \<Longrightarrow>
        law gid (i, code, if ids = [] then pid else cr, cfg, ids @ [pid])"
    and law_leave: "law gid (i, code, cr, cfg, ids) \<Longrightarrow>
        law gid (i, code, cr, cfg, filter (\<lambda>x. x \<noteq> pid) ids)"
begin

lemma law_addPlayer:
  assumes "law gid (badge gs)" "getPlayer (player_id p) gs = None"
  shows "law gid (badge (addPlayer (Some p) gs))"
proof -
  obtain i code cr cfg ids where b: "badge gs = (i, code, cr, cfg, ids)" by (cases "badge gs")
  show ?thesis
    using assms law_join [of gid i code cr cfg ids "player_id p"]
    unfolding badge_addPlayer [OF b] getPlayer_None_badge [OF b] b by auto
qed

lemma law_removePlayer: "law gid (badge gs) \<Longrightarrow> law gid (badge (removePlayer pid gs))"
proof -
  obtain i code cr cfg ids where b: "badge gs = (i, code, cr, cfg, ids)" by (cases "badge gs")
  show "law gid (badge gs) \<Longrightarrow> law gid (badge (removePlayer pid gs))"
    unfolding badge_removePlayer [OF b] unfolding b by (rule law_leave)
qed

lemma createGame_law:
  assumes "all_games law (activeGames app)"
  shows "all_games law (activeGames (snd (createGame cfg app)))"
proof -
  have seed: "activeGames (snd (next_seed app')) = activeGames app'" for app'
    by (simp add: next_seed_def split: list.split)
  show ?thesis
    using assms seed law_new [OF new_code_shape [THEN conjunct1] new_code_shape [THEN conjunct2]]
    by (simp add: createGame_def split_beta Let_def engine_new_def badge_new all_games_put)
qed

lemma joinGame_law:
  assumes "all_games law (activeGames app)"
  shows "all_games law (activeGames (snd (joinGame gid pid name app)))"
proof (cases "getGame gid app")
  case (Some eng)
  have "law gid (badge (eng_state eng))" using assms Some by (simp add: getGame_def all_games_get)
  then have "getPlayer pid (eng_state eng) = None \<Longrightarrow>
      law gid (badge (addPlayer (Some (player_new (app_steady app) pid nm HUMAN)) (eng_state eng)))" for nm
    by (intro law_addPlayer) (simp_all add: player_new_def)
  then show ?thesis
    using assms Some by (auto simp: joinGame_def Let_def all_games_put split: option.split)
qed (use assms in \<open>simp add: joinGame_def\<close>)

lemma leaveGame_law:
  assumes "all_games law (activeGames app)"
  shows "all_games law (activeGames (snd (leaveGame L gref pid app)))"
proof (cases "getGame (gref app) app")
  case (Some eng)
  have "law (gref app) (badge (removePlayer pid (eng_state eng)))"
    using assms Some by (intro law_removePlayer) (simp add: getGame_def all_games_get)
  then show ?thesis using assms Some by (simp add: leaveGame_def Let_def all_games_put)
qed (use assms in \<open>simp add: leaveGame_def\<close>)

lemma fold_bots_law:
  assumes "law gid (badge gs)" "\<forall>k \<in> {j..<n}. getPlayer (player_id (bot_player now gid k)) gs = None"
  shows "law gid (badge (fold (\<lambda>k. addPlayer (Some (bot_player now gid k))) [j..<n] gs))"
  using assms
proof (induction "n - j" arbitrary: j gs)
  case (Suc d)
  then have j: "j < n" "[j..<n] = j # [Suc j..<n]" by (simp_all add: upt_conv_Cons)
  let ?gs1 = "addPlayer (Some (bot_player now gid j)) gs"
  have "getPlayer (player_id (bot_player now gid k)) ?gs1 = None" if "k \<in> {Suc j..<n}" for k
    using that Suc.prems(2) by (auto simp: getPlayer_def addPlayer_def Let_def bot_player_inj split: if_splits)
  moreover have "law gid (badge ?gs1)" using Suc.prems j by (intro law_addPlayer) auto
  ultimately show ?case using Suc.hyps j(2) by simp
qed simp

lemma addBots_law:
  assumes "all_games law (activeGames app)" "getGame gid app = Some eng"
    "\<forall>k. getPlayer (player_id (bot_player (app_steady app) gid k)) (eng_state eng) = None"
  shows "all_games law (activeGames (addBotsToGame gid n app))"
proof -
  have "law gid (badge (eng_state eng))" using assms(1,2) by (simp add: getGame_def all_games_get)
  then have "law gid (badge (fold (\<lambda>k. addPlayer (Some (bot_player (app_steady app) gid k))) [0..<j] (eng_state eng)))" for j
    using assms(3) by (intro fold_bots_law) auto
  then show ?thesis using assms(1,2) by (simp add: addBotsToGame_def Let_def all_games_put)
qed

lemma removeGame_law: "all_games law (activeGames app) \<Longrightarrow> all_games law (activeGames (removeGame gid app))"
  by (simp add: removeGame_def all_games_del)

lemma remove_stale_law: "all_games law (activeGames app) \<Longrightarrow> all_games law (activeGames (remove_stale n app))"
  unfolding remove_stale_def by (rule fold_invariant_set) (simp_all add: removeGame_law)

lemma handleJoinGame_law:
  assumes "all_games law (activeGames app)"
  shows "all_games law (activeGames (handleJoinGame L sid m app))"
  using assms
  by (auto simp: handleJoinGame_def reattach_def Let_def split_beta joinGame_law split: option.split)

lemma handleStartGame_law:
  assumes "all_games law (activeGames app)" "handleStartGame L sid m app = Some app'"
  shows "all_games law (activeGames app')"
  using assms(2)
proof (cases rule: handleStartGame_cases)
  case (refused gid pid what)
  then show ?thesis using assms(1) by (simp add: start_error_def)
next
  case (started gid pid eng eng1)
  have "all_games law (activeGames (put_engine gid eng1 app))"
    using assms(1) started(3,8) by (simp add: getGame_def all_games_same)
  then show ?thesis using runBotTurns_all_games [OF _ started(9)] started(7) by simp
qed

lemma action_accepted_law:
  assumes "all_games law (activeGames app)" "getGame gid app = Some eng"
  shows "all_games law (activeGames (action_accepted L gid eng app))"
  using assms by (simp add: action_accepted_def Let_def all_games_same getGame_def)

lemma handleGameAction_law:
  assumes "all_games law (activeGames app)" "handleGameAction L sid m app = Some app'"
  shows "all_games law (activeGames app')"
  using assms(2)
proof (cases rule: handleGameAction_cases)
  case (refused gid pid eng a res eng1)
  then show ?thesis
    using assms(1) by (simp add: action_error_def getGame_def all_games_same badge_process)
next
  case (accepted gid pid eng a res eng1)
  have "all_games law (activeGames (put_engine gid eng1 app))"
    using assms(1) accepted(2,5) by (simp add: getGame_def all_games_same badge_process)
  moreover have "getGame gid (put_engine gid eng1 app) = Some eng1"
    using assms(1) by (simp add: getGame_def get_put all_games_wf)
  ultimately show ?thesis using runBotTurns_all_games [OF action_accepted_law accepted(7)] by simp
qed (use assms(1) in simp)

end

end
