(* ===== verification/Whot_Server.thy ===== *)
theory Whot_Server
  imports Whot_LobbyLaw
begin

text \<open>
  The running server as a transition system: its events are a connection that opens, a text that
  arrives, a connection that closes, the sweep of the timer, a request on the HTTP port, and time
  passing.  An event that does not return (an exception, a loop for a session id that finds none)
  is no step: an exception of the HTTP side ends the process, and one of the WebSocket side its loop.
\<close>

inductive server_step ::
    "JsonLib \<Rightarrow> (int \<Rightarrow> PlayerStats list) \<Rightarrow> (string \<Rightarrow> string option) \<Rightarrow> string \<Rightarrow> Application \<Rightarrow> Application \<Rightarrow> bool"
  for L board fs path where
  opened: "connection_opened hdl ip app = Some app' \<Longrightarrow> server_step L board fs path app app'"
| received: "text_received L hdl data app = Some app' \<Longrightarrow> \<not> app_thrown app' \<Longrightarrow>
    server_step L board fs path app app'"
| closed: "\<not> app_thrown (connection_closed L hdl app) \<Longrightarrow>
    server_step L board fs path app (connection_closed L hdl app)"
| swept: "server_step L board fs path app (timeouts_checked app)"
| requested: "\<not> app_thrown (snd (api_connection L board fs path buf app)) \<Longrightarrow>
    server_step L board fs path app (snd (api_connection L board fs path buf app))"
| ticked: "app_steady app \<le> s \<Longrightarrow>
    server_step L board fs path app (app\<lparr>app_steady := s, app_wall := w, app_junk := j\<rparr>)"

inductive server_runs ::
    "JsonLib \<Rightarrow> (int \<Rightarrow> PlayerStats list) \<Rightarrow> (string \<Rightarrow> string option) \<Rightarrow> string \<Rightarrow> Application \<Rightarrow> Application \<Rightarrow> bool"
  for L board fs path where
  none: "server_runs L board fs path app app"
| next_step: "server_runs L board fs path app app1 \<Longrightarrow> server_step L board fs path app1 app2 \<Longrightarrow>
    server_runs L board fs path app app2"

section \<open>Requests\<close>

lemma serve_connection_state:
  "snd (serve_connection call fs srv buf s) = s \<or>
   (\<exists>h req. snd (serve_connection call fs srv buf s) = snd (call h req s))"
  by (auto simp: serve_connection_def handleRequest_def Let_def split_beta split: option.split)

lemma api_connection_cases:
  obtains (idle) "snd (api_connection L board fs path buf app) = app"
  | (called) h req where "snd (api_connection L board fs path buf app) = snd (api_call L board h req app)"
  using serve_connection_state [of "api_call L board" fs "api_server path" buf app]
  unfolding api_connection_def by blast

text \<open>What a message leads to.\<close>

lemma handleClientMessage_cases:
  assumes "handleClientMessage L sid m app = Some app'"
  obtains (joins) "app' = handleJoinGame L sid m app"
  | (starts) "handleStartGame L sid m app = Some app'"
  | (left) "app' = handleLeaveGame L sid m app"
  | (acts) "handleGameAction L sid m app = Some app'"
  | (other) "app' = app"
  using assms by (cases "msg_type m") (simp_all add: handleClientMessage_def)

section \<open>Every event keeps a law\<close>

context lobby_law
begin

lemma handleClientMessage_law:
  assumes "all_games law (activeGames app)" "handleClientMessage L sid m app = Some app'"
  shows "all_games law (activeGames app')"
  using assms(2)
proof (cases rule: handleClientMessage_cases)
  case left
  then show ?thesis using assms(1) by (simp add: handleLeaveGame_def Let_def split_beta leaveGame_law)
qed (use assms(1) handleStartGame_law handleGameAction_law handleJoinGame_law in blast)+

lemma text_received_law:
  assumes "all_games law (activeGames app)" "text_received L hdl data app = Some app'"
  shows "all_games law (activeGames app')"
proof -
  obtain sid ws where r: "receive hdl (app_steady app) (app_ws app) = (sid, ws)"
    by (cases "receive hdl (app_steady app) (app_ws app)")
  have "all_games law (activeGames (app\<lparr>app_ws := ws\<rparr>))" using assms(1) by simp
  then show ?thesis
    using assms(2) r handleClientMessage_law [of "app\<lparr>app_ws := ws\<rparr>"]
    by (cases "sid = ''''") (auto simp: text_received_def Let_def)
qed

lemma connection_closed_law:
  assumes "all_games law (activeGames app)"
  shows "all_games law (activeGames (connection_closed L hdl app))"
  using assms
  by (simp add: connection_closed_def handleDisconnection_def Let_def split_beta leaveGame_law split: option.split)

lemma createGame_game:
  "all_games law (activeGames app) \<Longrightarrow> createGame cfg app = (gid, app1) \<Longrightarrow> gid \<noteq> '''' \<Longrightarrow>
   \<exists>eng. getGame gid app1 = Some eng \<and> players (eng_state eng) = []"
  using all_games_wf [of law "activeGames app"]
  by (auto simp: createGame_def Let_def split_beta getGame_def get_put engine_new_def state_new_def
      state_initialize_def next_seed_def split: if_splits list.splits)

lemma joinGame_first:
  assumes "all_games law (activeGames app)" "getGame gid app = Some eng" "players (eng_state eng) = []"
    "joinGame gid pid name app = (True, app1)"
  shows "\<exists>eng1. getGame gid app1 = Some eng1 \<and> map player_id (players (eng_state eng1)) = [pid]"
  using assms all_games_wf [OF assms(1)]
  by (auto simp: joinGame_def Let_def getGame_def get_put addPlayer_def getPlayer_def getPlayerCount_def
      player_new_def split: if_splits)

lemma handleCreateGame_law:
  assumes "all_games law (activeGames app)"
  shows "all_games law (activeGames (snd (handleCreateGame L req app)))"
proof -
  let ?cr = "create_request L (req_body req)"
  obtain gid app1 where c: "createGame (cr_config ?cr) app = (gid, app1)" by (cases "createGame (cr_config ?cr) app")
  then have a1: "all_games law (activeGames app1)" using createGame_law [OF assms, of "cr_config ?cr"] by simp
  obtain pid r where u: "generateUUID (app_rng app1) = (pid, r)" by (cases "generateUUID (app_rng app1)")
  let ?appr = "app1\<lparr>app_rng := r\<rparr>"
  let ?name = "body_name L (req_body req)"
  obtain joined app2 where j: "joinGame gid pid ?name ?appr = (joined, app2)" by (cases "joinGame gid pid ?name ?appr")
  then have a2: "all_games law (activeGames app2)" using joinGame_law [of ?appr gid pid ?name] a1 by simp
  have bots: "all_games law (activeGames (addBotsToGame gid n app2))" if new: "gid \<noteq> ''''" "joined" for n
  proof -
    obtain eng where eng: "getGame gid ?appr = Some eng" "players (eng_state eng) = []"
      using createGame_game [OF assms(1) c new(1)] by (auto simp: getGame_def)
    obtain eng1 where eng1: "getGame gid app2 = Some eng1" "map player_id (players (eng_state eng1)) = [pid]"
      using joinGame_first [of ?appr gid eng pid ?name app2] a1 eng j new(2) by auto
    have "getPlayer (player_id (bot_player now gid k)) (eng_state eng1) = None" for now k
      using eng1(2) uuid_not_bot [of "app_rng app1" now gid k] u by (auto simp: getPlayer_def)
    then show ?thesis using addBots_law [OF a2 eng1(1)] by blast
  qed
  show ?thesis
    using a1 a2 bots c u j by (simp add: handleCreateGame_def Let_def split_beta)
qed

lemma api_call_law:
  assumes "all_games law (activeGames app)"
  shows "all_games law (activeGames (snd (api_call L board h req app)))"
proof -
  have joined: "all_games law (activeGames (snd (joined_response L gid name app)))" for gid name
    using assms by (simp add: joined_response_def Let_def split_beta joinGame_law)
  show ?thesis
    by (cases h)
      (use assms joined in \<open>simp_all add: handleCreateGame_law handleJoinGameHttp_def handleJoinByCode_def
         handleCleanupStaleLobbies_def remove_stale_law Let_def split_beta split: option.split\<close>)
qed

lemma server_step_law:
  assumes "server_step L board fs path app app'" "all_games law (activeGames app)"
  shows "all_games law (activeGames app')"
  using assms
proof (cases rule: server_step.cases)
  case (opened hdl ip)
  then show ?thesis using assms(2) by (auto simp: connection_opened_def split: option.splits)
next
  case (received hdl data)
  then show ?thesis using text_received_law assms(2) by blast
next
  case (requested buf)
  then show ?thesis
    using assms(2) api_call_law
    by (cases rule: api_connection_cases [of L board fs path buf app]) auto
qed (auto simp: connection_closed_law timeouts_checked_def)

theorem server_runs_law:
  "server_runs L board fs path app app' \<Longrightarrow> all_games law (activeGames app) \<Longrightarrow> all_games law (activeGames app')"
  by (induction rule: server_runs.induct) (auto intro: server_step_law)

end

end
