(* ===== verification/Whot_SessionLaw.thy ===== *)
theory Whot_SessionLaw
  imports Whot_Server Whot_SessionProps
begin

text \<open>
  The interface \<open>session_law\<close>: a law about single sessions that holds of a new session and survives
  the changes of its player, its game and its activity at the times that fit.  Inside it, every
  handler and every event of the server keeps the law for all registered sessions.
\<close>

section \<open>Operations that leave the registry alone\<close>

lemma joinGame_sessions [simp]: "app_sessions (snd (joinGame gid pid name app)) = app_sessions app"
  by (simp add: joinGame_def Let_def put_engine_def split: option.split)

lemma next_round_sessions [simp]: "app_sessions (next_round L gid eng app) = app_sessions app"
  by (simp add: next_round_def put_engine_def)

lemma bot_turns_sessions: "bot_turns L gid n app = Some app' \<Longrightarrow> app_sessions app' = app_sessions app"
proof (induction n arbitrary: app)
  case (Suc n)
  from Suc.prems obtain go_on app1 where turn: "bot_turn L gid app = Some (go_on, app1)"
      "(if go_on then bot_turns L gid n app1 else Some app1) = Some app'"
    by (auto split: option.splits)
  from turn(1) have "app_sessions app1 = app_sessions app"
    by (cases rule: bot_turn_cases) (simp_all add: Let_def put_engine_def)
  then show ?case using Suc.IH [of app1] turn(2) by (cases go_on) simp_all
qed simp

lemma runBotTurns_sessions: "runBotTurnsIfNeeded L gid app = Some app' \<Longrightarrow> app_sessions app' = app_sessions app"
  unfolding runBotTurnsIfNeeded_def by (rule bot_turns_sessions)

lemma store_stats_sessions [simp]: "app_sessions (store_stats gs app) = app_sessions app"
proof -
  have "app_sessions (fold (\<lambda>p. store (f p)) ps app) = app_sessions app" for f and ps :: "Player list"
    by (induction ps arbitrary: app) simp_all
  then show ?thesis by (simp add: store_stats_def)
qed

lemma action_accepted_sessions [simp]: "app_sessions (action_accepted L gid eng app) = app_sessions app"
  by (simp add: action_accepted_def Let_def put_engine_def)

lemma createGame_sessions [simp]: "app_sessions (snd (createGame cfg app)) = app_sessions app"
  by (simp add: createGame_def Let_def split_beta put_engine_def next_seed_def split: list.split)

lemma addBots_sessions [simp]: "app_sessions (addBotsToGame gid n app) = app_sessions app"
  by (simp add: addBotsToGame_def Let_def put_engine_def split: option.split)

lemma closeSessions_sessions: "ws_sessions (fold closeSession sids ws) = ws_sessions ws"
  by (induction sids arbitrary: ws) simp_all

section \<open>A law about sessions\<close>

definition all_sessions :: "(string \<Rightarrow> Session \<Rightarrow> bool) \<Rightarrow> SessionManager \<Rightarrow> bool" where
  "all_sessions good m \<longleftrightarrow> map_wf m \<and> (\<forall>k s. map_get m k = Some s \<longrightarrow> good k s)"

lemma all_sessions_put: "all_sessions good m \<Longrightarrow> good k s \<Longrightarrow> all_sessions good (map_put k s m)"
  by (auto simp: all_sessions_def get_put wf_put split: if_splits)

lemma all_sessions_modify:
  "all_sessions good m \<Longrightarrow> (\<And>s. good k s \<Longrightarrow> good k (f s)) \<Longrightarrow> all_sessions good (map_modify k f m)"
  by (auto simp: map_modify_def all_sessions_def intro!: all_sessions_put [unfolded all_sessions_def] split: option.split)

lemma all_sessions_filter: "all_sessions good m \<Longrightarrow> all_sessions good (filter P m)"
  by (auto simp: all_sessions_def wf_filter get_Some)

locale session_law =
  fixes good :: "string \<Rightarrow> Session \<Rightarrow> bool"
    and fits :: "int \<Rightarrow> bool"
  assumes fresh: "fits now \<Longrightarrow> good sid \<lparr>sess_sessionId = sid, sess_playerId = '''', sess_gameId = '''',
      sess_lastActivity = now, sess_ipAddress = ip, sess_metadata = [], sess_authenticated = False\<rparr>"
    and bound: "good sid s \<Longrightarrow> good sid (s\<lparr>sess_playerId := pid\<rparr>)" "good sid s \<Longrightarrow> good sid (s\<lparr>sess_gameId := gid\<rparr>)"
    and heard: "fits now \<Longrightarrow> good sid s \<Longrightarrow> good sid (s\<lparr>sess_lastActivity := now\<rparr>)"
begin

abbreviation lawful :: "Application \<Rightarrow> bool" where
  "lawful app \<equiv> all_sessions good (app_sessions app)"

lemma bind_lawful: "lawful app \<Longrightarrow> lawful (bind_session sid gid pid app)"
  by (simp add: bind_session_def session_defs all_sessions_modify bound)

lemma leaveGame_lawful: "lawful app \<Longrightarrow> lawful (snd (leaveGame L gref pid app))"
  by (simp add: leaveGame_def Let_def put_engine_def session_defs all_sessions_modify bound split: option.split)

lemma handleClientMessage_lawful:
  assumes "handleClientMessage L sid m app = Some app'" "lawful app"
  shows "lawful app'"
  using assms(1)
proof (cases rule: handleClientMessage_cases)
  case joins
  have drop: "all_sessions good (drop_other_sessions sid olds mgr)" if "all_sessions good mgr" for olds mgr
    unfolding drop_other_sessions_def
    by (rule fold_invariant_set [where P = "all_sessions good"])
      (use that in \<open>simp_all add: destroySession_def map_del_def all_sessions_filter\<close>)
  show ?thesis
    unfolding joins using assms(2)
    by (simp add: handleJoinGame_def reattach_def Let_def split_beta bind_lawful drop split: option.split)
next
  case starts
  then show ?thesis
    by (cases rule: handleStartGame_cases)
      (use assms(2) runBotTurns_sessions in \<open>auto simp: start_error_def put_engine_def\<close>)
next
  case left
  then show ?thesis using assms(2) by (simp add: handleLeaveGame_def Let_def split_beta leaveGame_lawful)
next
  case acts
  then show ?thesis
    by (cases rule: handleGameAction_cases)
      (use assms(2) runBotTurns_sessions in \<open>auto simp: action_error_def put_engine_def\<close>)
qed (use assms(2) in simp)

lemma connection_opened_lawful:
  assumes "connection_opened hdl ip app = Some app'" "lawful app" "fits (app_steady app)"
  shows "lawful app'"
proof -
  obtain sid m r where c: "createSession ip (app_steady app) (app_sessions app) (app_rng app) = Some (sid, m, r)"
      "app_sessions app' = m"
    using assms(1) by (auto simp: connection_opened_def on_open_def Let_def split: option.splits)
  let ?s = "\<lparr>sess_sessionId = sid, sess_playerId = '''', sess_gameId = '''', sess_lastActivity = app_steady app,
     sess_ipAddress = ip, sess_metadata = [], sess_authenticated = False\<rparr>"
  have "app_sessions app' = map_put sid ?s (app_sessions app)"
    using c by (auto simp: createSession_def split: option.splits prod.splits)
  then show ?thesis using all_sessions_put [OF assms(2), of sid ?s] fresh [OF assms(3)] by simp
qed

lemma text_received_lawful:
  assumes "text_received L hdl data app = Some app'" "lawful app" "fits (app_steady app)"
  shows "lawful app'"
proof -
  obtain sid ws where r: "receive hdl (app_steady app) (app_ws app) = (sid, ws)"
    by (cases "receive hdl (app_steady app) (app_ws app)")
  have "lawful (app\<lparr>app_ws := ws\<rparr>)"
    using r assms(2) heard [OF assms(3)]
    by (auto simp: receive_def updateActivity_def all_sessions_modify split: option.splits if_splits)
  then show ?thesis
    using assms(1) r handleClientMessage_lawful [of L sid _ "app\<lparr>app_ws := ws\<rparr>" app']
    by (cases "sid = ''''") (auto simp: text_received_def Let_def)
qed

lemma connection_closed_lawful: "lawful app \<Longrightarrow> lawful (connection_closed L hdl app)"
proof -
  have "ws_sessions (snd (close_connection hdl ws)) = ws_sessions ws" for ws
    by (simp add: close_connection_def split: option.split)
  then show "lawful app \<Longrightarrow> ?thesis"
    by (simp add: connection_closed_def handleDisconnection_def Let_def split_beta destroySession_def map_del_def
        all_sessions_filter leaveGame_lawful split: option.split)
qed

lemma timeouts_lawful: "lawful app \<Longrightarrow> lawful (timeouts_checked app)"
  by (simp add: timeouts_checked_def checkTimeouts_def closeSessions_sessions removeExpiredSessions_def
      map_del_if_def all_sessions_filter Let_def)

lemma api_call_lawful:
  assumes "lawful app"
  shows "lawful (snd (api_call L board h req app))"
proof -
  have joined: "app_sessions (snd (joined_response L gid name app)) = app_sessions app" for gid name
    by (simp add: joined_response_def Let_def split_beta)
  have removed: "lawful (remove_stale n app)" for n
    unfolding remove_stale_def
    by (rule fold_invariant_set [where P = lawful])
      (use assms in \<open>simp_all add: removeGame_def removeAllSessionsForGame_def map_del_if_def all_sessions_filter\<close>)
  have created: "app_sessions (snd (handleCreateGame L req app)) = app_sessions app"
    by (simp add: handleCreateGame_def Let_def split_beta)
  show ?thesis
    by (cases h)
      (use assms joined removed created in \<open>simp_all add: handleJoinGameHttp_def handleJoinByCode_def
         handleCleanupStaleLobbies_def Let_def split_beta split: option.split\<close>)
qed

lemma server_step_lawful:
  assumes "server_step L board fs path app app'" "lawful app" "fits (app_steady app)"
  shows "lawful app'"
  using assms(1)
proof (cases rule: server_step.cases)
  case (requested buf)
  then show ?thesis
    using assms(2) api_call_lawful
    by (cases rule: api_connection_cases [of L board fs path buf app]) auto
qed (use assms connection_opened_lawful text_received_lawful connection_closed_lawful timeouts_lawful in auto)

end

section \<open>A session is stored under its own id\<close>

interpretation own_session: session_law "\<lambda>sid s. sess_sessionId s = sid" "\<lambda>now. True"
  by unfold_locales simp_all

lemma sessions_ok_law: "sessions_ok m \<longleftrightarrow> all_sessions (\<lambda>sid s. sess_sessionId s = sid) m"
  by (simp add: sessions_ok_get all_sessions_def)

end
