(* ===== verification/Whot_Exceptions.thy ===== *)
theory Whot_Exceptions
  imports Whot_SessionLaw
begin

text \<open>
  Exceptions: \<open>dump()\<close> throws for a text that is not UTF-8, and no handler catches it.  The only such texts
  that get into the server are names of players: \<open>sanitizePlayerName\<close> cuts a name after thirty bytes, inside
  a character if need be.
\<close>

section \<open>Texts of the server's own making\<close>

lemma utf8_literal: "list_all (\<lambda>c. code_of c < 128) s \<Longrightarrow> utf8 s"
  by (simp add: utf8_ascii list_all_iff)

lemma utf8_digits: "utf8 (nat_to_string n)"
  using nat_to_string_digits [of n] by (intro utf8_ascii) (auto simp: is_digit_def)

lemma pick_chars_ascii: "list_all (\<lambda>c. code_of c < 128) cs \<Longrightarrow> cs \<noteq> [] \<Longrightarrow> list_all (\<lambda>c. code_of c < 128) (fst (pick_chars cs n r))"
  using pick_chars_set [of cs n r] by (auto simp: list_all_iff)

lemma ascii_sets: "list_all (\<lambda>c. code_of c < 128) code_chars" "list_all (\<lambda>c. code_of c < 128) hex_chars"
  by (simp_all add: code_chars_def hex_chars_def)

lemma utf8_code: "set code \<subseteq> set code_chars \<Longrightarrow> utf8 code"
  using ascii_sets(1) by (intro utf8_literal) (auto simp: list_all_iff)

lemma utf8_uuid: "utf8 (fst (generateUUID r))"
  using pick_chars_ascii [OF ascii_sets(2)]
  by (intro utf8_literal) (simp add: generateUUID_def split_beta Let_def hex_chars_def)

lemma utf8_game_id: "utf8 (generateGameId app)"
  by (simp add: generateGameId_def utf8_ascii_Cons utf8_append utf8_digits)

lemma utf8_bot: "utf8 gid \<Longrightarrow> utf8 (player_id (bot_player now gid k)) \<and> utf8 (player_name (bot_player now gid k))"
  by (simp add: bot_player_def player_new_def utf8_ascii_Cons utf8_append utf8_digits)

section \<open>Texts of a state\<close>

text \<open>A name cut inside a character.\<close>

definition cut_name :: "string \<Rightarrow> bool" where
  "cut_name n \<longleftrightarrow> \<not> utf8 n \<and> length n = 30 \<and> (\<exists>raw. utf8 raw \<and> take 30 raw = n)"

lemma sanitized_name: "utf8 raw \<Longrightarrow> utf8 (sanitizePlayerName raw) \<or> cut_name (sanitizePlayerName raw)"
  using utf8_trim [of raw]
  by (auto simp: cut_name_def sanitizePlayerName_def kMaxPlayerNameLength_def Let_def)

definition fine_state :: "GameState \<Rightarrow> bool" where
  "fine_state gs \<longleftrightarrow>
     utf8 (gameId gs) \<and> utf8 (gameCode gs) \<and> utf8 (creatorPlayerId gs) \<and>
     list_all (\<lambda>p. utf8 (player_id p) \<and> (utf8 (player_name p) \<or> cut_name (player_name p))) (players gs)"

definition clean :: "GameState \<Rightarrow> bool" where
  "clean gs \<longleftrightarrow> list_all utf8 (seat_names gs)"

lemma fine_cong:
  assumes "badge gs = badge gs'" "seat_names gs = seat_names gs'"
  shows "fine_state gs = fine_state gs'"
proof -
  have fine: "fine_state gs \<longleftrightarrow> utf8 (gameId gs) \<and> utf8 (gameCode gs) \<and> utf8 (creatorPlayerId gs) \<and>
      list_all utf8 (map player_id (players gs)) \<and> list_all (\<lambda>n. utf8 n \<or> cut_name n) (seat_names gs)" for gs
    by (auto simp: fine_state_def seat_names_def list_all_iff)
  show ?thesis unfolding fine using assms by (simp add: badge_def)
qed

lemma clean_cong: "seat_names gs = seat_names gs' \<Longrightarrow> clean gs = clean gs'"
  by (simp add: clean_def)

lemma printable_card: "printable (card_toJson c)"
proof -
  have "utf8 (suitToString s)" "utf8 (cardValueToString v)" for s v
    by (cases s; simp add: utf8_ascii_Cons) (simp add: cardValueToString_def int_to_string_def utf8_ascii_Cons utf8_digits)
  then show ?thesis by (simp add: card_toJson_def utf8_ascii_Cons)
qed

lemma printable_player: "printable (player_toJson p) \<longleftrightarrow> utf8 (player_id p) \<and> utf8 (player_name p)"
  by (simp add: player_toJson_def utf8_ascii_Cons hand_toJson_def list_all_iff printable_card)

lemma printable_hidden: "printable (hidden_player_json p) \<longleftrightarrow> utf8 (player_id p) \<and> utf8 (player_name p)"
  by (simp add: hidden_player_json_def player_toJson_def utf8_ascii_Cons)

lemma printable_opt: "list_all (\<lambda>(k, v). utf8 k \<and> printable v) (opt_member k f x) \<longleftrightarrow>
    (case x of None \<Rightarrow> True | Some v \<Rightarrow> utf8 k \<and> printable (f v))"
  by (simp add: opt_member_def split: option.split)

text \<open>Of a state whose other texts are fine, a text can be made exactly when its names are.\<close>

lemma printable_with:
  assumes "fine_state gs" "list_all (\<lambda>j. printable j) ps \<longleftrightarrow> clean gs"
  shows "printable (state_json_with ps gs) \<longleftrightarrow> clean gs"
proof -
  have suit: "utf8 (suitToString s)" for s by (cases s) (simp_all add: utf8_ascii_Cons)
  have "utf8 w" if win: "getWinnerId gs = Some w" for w
  proof -
    obtain i where "i < length (players gs)" "w = player_id (players gs ! i)"
      using win find_index_lt by (auto simp: getWinnerId_def)
    then show ?thesis using assms(1) by (simp add: fine_state_def list_all_length)
  qed
  then show ?thesis
    using assms suit
    by (simp add: state_json_with_def printable_opt fine_state_def direction_string_def utf8_ascii_Cons printable_card
        split: option.split)
qed

lemma printable_state:
  assumes "fine_state gs"
  shows "printable (state_toJson gs) \<longleftrightarrow> clean gs" "printable (state_toJsonForPlayer viewer gs) \<longleftrightarrow> clean gs"
proof -
  have "printable (if player_id p = viewer then player_toJson p else hidden_player_json p) = printable (player_toJson p)" for p
    by (simp add: printable_player printable_hidden)
  moreover have "list_all (\<lambda>p. printable (player_toJson p)) (players gs) \<longleftrightarrow> clean gs"
    using assms by (auto simp: printable_player clean_def seat_names_def fine_state_def list_all_iff)
  ultimately show "printable (state_toJson gs) \<longleftrightarrow> clean gs" "printable (state_toJsonForPlayer viewer gs) \<longleftrightarrow> clean gs"
    unfolding state_toJson_def state_toJsonForPlayer_def
    by (simp_all add: printable_with [OF assms] list.pred_map o_def)
qed
section \<open>Sound states of the server\<close>

text \<open>What the JSON library promises: \<open>parse()\<close> accepts only UTF-8, and \<open>dump()\<close> writes UTF-8.\<close>

definition lib_ok :: "JsonLib \<Rightarrow> bool" where
  "lib_ok L \<longleftrightarrow> (\<forall>s j. lib_parse L s = Some j \<longrightarrow> printable j) \<and> (\<forall>j. printable j \<longrightarrow> utf8 (lib_dump L j))"

definition fine_app :: "Application \<Rightarrow> bool" where
  "fine_app app \<longleftrightarrow>
     map_wf (activeGames app) \<and>
     (\<forall>gid eng. map_get (activeGames app) gid = Some eng \<longrightarrow> utf8 gid \<and> fine_state (eng_state eng)) \<and>
     all_sessions (\<lambda>sid s. utf8 (sess_gameId s) \<and> utf8 (sess_playerId s)) (app_sessions app)"

definition dirty :: "Application \<Rightarrow> bool" where
  "dirty app \<longleftrightarrow> (\<exists>gid eng. map_get (activeGames app) gid = Some eng \<and> \<not> clean (eng_state eng))"

text \<open>Every text but a name is fine, and when something was thrown, a name is to blame.\<close>

definition sound :: "Application \<Rightarrow> bool" where
  "sound app \<longleftrightarrow> fine_app app \<and> (app_thrown app \<longrightarrow> dirty app)"

text \<open>A state with the texts of one of the games.\<close>

definition shown :: "GameState \<Rightarrow> Application \<Rightarrow> bool" where
  "shown gs app \<longleftrightarrow> (\<exists>gid eng. map_get (activeGames app) gid = Some eng \<and>
     badge gs = badge (eng_state eng) \<and> seat_names gs = seat_names (eng_state eng))"

lemma sound_cong:
  "activeGames app' = activeGames app \<Longrightarrow> app_sessions app' = app_sessions app \<Longrightarrow> app_thrown app' = app_thrown app \<Longrightarrow>
   sound app' = sound app"
  by (simp add: sound_def fine_app_def dirty_def)

lemma shown_cong: "activeGames app' = activeGames app \<Longrightarrow> shown gs app' = shown gs app"
  by (simp add: shown_def)

lemma thrown_frame [simp]:
  "app_thrown (put_engine gid eng app) = app_thrown app" "app_thrown (touchGameActivity gid app) = app_thrown app"
  by (simp_all add: put_engine_def touchGameActivity_def split: option.split)

lemma sound_update [simp]:
  "sound (touchGameActivity gid app) = sound app" "sound (app\<lparr>app_rng := r\<rparr>) = sound app"
  "sound (app\<lparr>gameActivity := t\<rparr>) = sound app" "sound (app\<lparr>app_counter := n\<rparr>) = sound app"
  "sound (app\<lparr>app_seeds := ss\<rparr>) = sound app" "sound (app\<lparr>app_store := cs\<rparr>) = sound app"
  "sound (app\<lparr>app_steady := t0, app_wall := w, app_junk := k\<rparr>) = sound app"
  by (rule sound_cong; simp)+

lemma shown_game: "getGame gid app = Some eng \<Longrightarrow> shown (eng_state eng) app"
  by (auto simp: shown_def getGame_def)

lemma shown_printable:
  assumes "sound app" "shown gs app" "\<not> dirty app"
  shows "printable (state_toJson gs)" "printable (state_toJsonForPlayer viewer gs)"
proof -
  obtain gid eng where g: "map_get (activeGames app) gid = Some eng" "badge gs = badge (eng_state eng)"
    "seat_names gs = seat_names (eng_state eng)" using assms(2) by (auto simp: shown_def)
  have "fine_state (eng_state eng)" "clean (eng_state eng)"
    using g(1) assms(1,3) by (auto simp: sound_def fine_app_def dirty_def)
  then have "fine_state gs" "clean gs" using fine_cong [OF g(2,3)] clean_cong [OF g(3)] by simp_all
  then show "printable (state_toJson gs)" "printable (state_toJsonForPlayer viewer gs)"
    by (simp_all add: printable_state)
qed

lemma sound_dumped: "sound app \<Longrightarrow> (\<not> dirty app \<Longrightarrow> printable j) \<Longrightarrow> sound (dumped j app)"
  by (auto simp: sound_def fine_app_def dirty_def)

lemma sound_dumped_state: "sound app \<Longrightarrow> shown gs app \<Longrightarrow> sound (dumped (state_toJson gs) app)"
  by (rule sound_dumped) (simp_all add: shown_printable)

section \<open>Sending and saving\<close>

lemma sound_send:
  assumes "sound app" "utf8 (msg_playerId m)" "utf8 (msg_gameId m)" "\<not> dirty app \<Longrightarrow> utf8 (msg_payload m)"
  shows "sound (app_send L sid m app)"
proof -
  have "sound (dumped (message_json m) app)"
    by (rule sound_dumped) (use assms in \<open>simp_all add: message_json_def json_object_def utf8_ascii_Cons\<close>)
  then have "sound (if ws_running (app_ws app) then dumped (message_json m) app else app)" using assms(1) by simp
  then show ?thesis by (subst sound_cong) (auto simp: app_send_def Let_def)
qed

lemma sound_send_state:
  assumes "lib_ok L" "sound app" "shown gs app" "utf8 gid"
  shows "sound (send_state L gid gs ts sid pid app)"
proof -
  have "sound (dumped (state_toJsonForPlayer pid gs) app)"
    using assms(2,3) by (intro sound_dumped) (simp_all add: shown_printable)
  moreover have "utf8 (lib_dump L (state_toJsonForPlayer pid gs))" if "\<not> dirty app"
    using that assms shown_printable by (auto simp: lib_ok_def)
  ultimately show ?thesis
    unfolding send_state_def using assms(4)
    by (intro sound_send) (simp_all add: state_message_def utf8_ascii_Cons utf8_append dirty_def)
qed

lemma sound_broadcast:
  assumes "lib_ok L" "sound app" "utf8 gid"
  shows "sound (broadcastGameState L gid app)"
proof -
  have "sound (fold (\<lambda>(sid, pid). send_state L gid gs ts sid pid) ps app')" if "sound app'" "shown gs app'" for gs ts ps app'
    using that
  proof (induction ps arbitrary: app')
    case (Cons p ps)
    have "sound (send_state L gid gs ts (fst p) (snd p) app')"
      by (rule sound_send_state [OF assms(1) Cons.prems assms(3)])
    moreover have "shown gs (send_state L gid gs ts (fst p) (snd p) app')"
      using Cons.prems(2) by (simp add: shown_def)
    ultimately show ?case using Cons.IH by (simp add: split_beta)
  qed simp
  then show ?thesis
    using assms(2) shown_game by (auto simp: broadcastGameState_def Let_def split: option.split)
qed

lemma sound_put_same:
  assumes "sound app" "getGame gid app = Some eng" "badge (eng_state eng') = badge (eng_state eng)"
    "seat_names (eng_state eng') = seat_names (eng_state eng)"
  shows "sound (put_engine gid eng' app)" "getGame gid (put_engine gid eng' app) = Some eng'"
proof -
  have wf: "map_wf (activeGames app)" using assms(1) by (simp add: sound_def fine_app_def)
  then show "getGame gid (put_engine gid eng' app) = Some eng'" by (simp add: getGame_def get_put)
  have "fine_state (eng_state eng') = fine_state (eng_state eng)" "clean (eng_state eng') = clean (eng_state eng)"
    using assms(3,4) fine_cong clean_cong by blast+
  moreover have "dirty (put_engine gid eng' app)" if d: "dirty app"
  proof -
    obtain g e where e: "map_get (activeGames app) g = Some e" "\<not> clean (eng_state e)"
      using d by (auto simp: dirty_def)
    show ?thesis unfolding dirty_def
      by (intro exI [of _ g] exI [of _ "if gid = g then eng' else e"])
        (use e calculation(2) assms(2) wf in \<open>auto simp: get_put getGame_def\<close>)
  qed
  moreover have "fine_app (put_engine gid eng' app)"
    using assms(1,2) wf calculation(1) by (simp add: sound_def fine_app_def get_put wf_put getGame_def put_engine_def)
  ultimately show "sound (put_engine gid eng' app)" using assms(1) by (simp add: sound_def)
qed

lemma sound_save: "sound app \<Longrightarrow> shown gs app \<Longrightarrow> sound (store (SaveGame gs) app)"
  by (simp add: store_def sound_dumped_state Let_def)

lemma sound_store: "sound app \<Longrightarrow> (\<And>gs. call = SaveGame gs \<Longrightarrow> shown gs app) \<Longrightarrow> sound (store call app)"
  by (cases call) (simp_all add: sound_save, simp_all add: store_def Let_def)

lemma getGame_frame [simp]:
  "getGame gid (store c app) = getGame gid app" "getGame gid (broadcastGameState L gid' app) = getGame gid app"
  "getGame gid (app_send L sid m app) = getGame gid app"
  by (simp_all add: getGame_def)

lemma sound_answer: "sound app \<Longrightarrow> (\<And>j. res_newStateJson res = Some j \<Longrightarrow> \<not> dirty app \<Longrightarrow> printable j) \<Longrightarrow> sound (answer_dumped res app)"
  by (auto simp: answer_dumped_def sound_dumped split: option.split)
section \<open>Moves and rounds\<close>

lemma sound_new_round:
  assumes "sound app" "getGame gid app = Some eng0" "badge (eng_state eng) = badge (eng_state eng0)"
    "seat_names (eng_state eng) = seat_names (eng_state eng0)"
  shows "sound (put_new_round gid eng app)"
    "getGame gid (put_new_round gid eng app) = Some (startNewRound (app_steady app) eng)"
proof -
  let ?eng1 = "startNewRound (app_steady app) eng"
  have "shown (eng_state ?eng1) app" using assms(2-4) by (auto simp: shown_def getGame_def)
  then have "sound (dumped (state_toJson (eng_state ?eng1)) app)" by (rule sound_dumped_state [OF assms(1)])
  from sound_put_same [OF this, of gid eng0 ?eng1] assms(2-4)
  show "sound (put_new_round gid eng app)" "getGame gid (put_new_round gid eng app) = Some ?eng1"
    by (simp_all add: put_new_round_def Let_def)
qed

lemma process_answer:
  assumes "processAction a eng = Some (res, eng1)" "res_newStateJson res = Some j"
  shows "\<exists>gs. j = state_toJson gs \<and> badge gs = badge (eng_state eng) \<and> seat_names gs = seat_names (eng_state eng)"
  using assms(1)
proof (cases rule: processAction_cases)
  case rejected
  then show ?thesis using assms(2) by (simp add: res_fail_def)
next
  case (play idx i)
  then show ?thesis
    using assms(2) by (intro exI [of _ "eng_state (play_core i idx eng)"]) (simp add: res_ok_def Let_def)
next
  case (draw i)
  then show ?thesis
    using assms(2) by (auto simp: handleDrawCard_def res_fail_def res_ok_def Let_def split: option.splits)
next
  case declares
  then show ?thesis
    using assms(2) process_badge [OF assms(1)]
    by (intro exI [of _ "eng_state eng1"]) (auto simp: handleDeclaration_def res_ok_def Let_def)
next
  case (suit s)
  then show ?thesis
    using assms(2) process_badge [OF assms(1)]
    by (intro exI [of _ "eng_state eng1"]) (auto simp: handleSuitChoice_def res_ok_def Let_def)
qed

lemma sound_moved:
  assumes "sound app" "getGame gid app = Some eng" "processAction a eng = Some (res, eng1)"
  shows "sound (answer_dumped res (put_engine gid eng1 app))"
    "getGame gid (answer_dumped res (put_engine gid eng1 app)) = Some eng1"
proof -
  note put = sound_put_same [OF assms(1,2), of eng1] process_badge [OF assms(3)]
  have shown: "shown (eng_state eng1) (put_engine gid eng1 app)" using put by (intro shown_game [where gid = gid]) simp
  have "printable j" if new: "res_newStateJson res = Some j" "\<not> dirty (put_engine gid eng1 app)" for j
  proof -
    obtain gs where gs: "j = state_toJson gs" "badge gs = badge (eng_state eng)" "seat_names gs = seat_names (eng_state eng)"
      using process_answer [OF assms(3) new(1)] by blast
    then have "shown gs (put_engine gid eng1 app)" using shown put(3) by (simp add: shown_def)
    then show ?thesis using shown_printable [OF _ _ new(2)] put gs(1) by simp
  qed
  then show "sound (answer_dumped res (put_engine gid eng1 app))" using put by (intro sound_answer) simp_all
  show "getGame gid (answer_dumped res (put_engine gid eng1 app)) = Some eng1" using put by simp
qed

lemma sound_next_round:
  assumes "lib_ok L" "sound app" "getGame gid app = Some eng" "utf8 gid"
  shows "sound (next_round L gid eng app)"
  using assms sound_new_round [OF assms(2,3)] by (simp add: next_round_def sound_broadcast)

lemma fine_key: "sound app \<Longrightarrow> getGame gid app = Some eng \<Longrightarrow> utf8 gid"
  by (auto simp: sound_def fine_app_def getGame_def)

lemma sound_bot_turn:
  assumes "lib_ok L" "sound app" "bot_turn L gid app = Some (go_on, app')"
  shows "sound app'"
  using assms(3)
proof (cases rule: bot_turn_cases)
  case (moves eng i a r res eng1)
  let ?app1 = "answer_dumped res (put_engine gid eng1 (app\<lparr>app_rng := r\<rparr>))"
  have key: "utf8 gid" using fine_key [OF assms(2) moves(1)] .
  have game: "getGame gid (app\<lparr>app_rng := r\<rparr>) = Some eng" using moves(1) by (simp add: getGame_def)
  note moved = sound_moved [OF _ game moves(6)]
  have "sound (app\<lparr>app_rng := r\<rparr>)" using assms(2) by simp
  note moved = moved [OF this]
  have "sound (next_round L gid eng1 (broadcastGameState L gid ?app1))"
    using moved key by (intro sound_next_round sound_broadcast assms(1)) simp_all
  then show ?thesis using moves(8) moved(1) by (simp add: Let_def)
qed (use assms(2) in simp)

lemma sound_bot_turns: "lib_ok L \<Longrightarrow> sound app \<Longrightarrow> bot_turns L gid n app = Some app' \<Longrightarrow> sound app'"
proof (induction n arbitrary: app)
  case (Suc n)
  from Suc.prems(3) obtain go_on app1 where turn: "bot_turn L gid app = Some (go_on, app1)"
      "(if go_on then bot_turns L gid n app1 else Some app1) = Some app'"
    by (auto split: option.splits)
  then show ?case
    using Suc.IH [of app1] Suc.prems(1) sound_bot_turn [OF Suc.prems(1,2) turn(1)] by (cases go_on) simp_all
qed simp

section \<open>What clients send\<close>

definition keeps :: "('r \<Rightarrow> bool) \<Rightarrow> ('r \<Rightarrow> 'r option) \<Rightarrow> bool" where
  "keeps P f \<longleftrightarrow> (\<forall>r r'. P r \<longrightarrow> f r = Some r' \<longrightarrow> P r')"

lemma try_steps_keep: "list_all (keeps P) steps \<Longrightarrow> P r \<Longrightarrow> P (try_steps steps r)"
  by (induction steps arbitrary: r) (simp_all add: keeps_def split: option.split)

lemma read_with_keep:
  assumes "lib_ok L" "P r" "\<And>j. printable j \<Longrightarrow> list_all (keeps P) (steps j)"
  shows "P (read_with (lib_parse L) text steps r)"
  using assms by (auto simp: read_with_def lib_ok_def intro: try_steps_keep split: option.split)

lemma printable_find: "printable j \<Longrightarrow> json_find j k = Some v \<Longrightarrow> printable v"
  by (cases j) (auto simp: list_all_iff dest!: map_of_SomeD)

lemma printable_string: "printable v \<Longrightarrow> get_string v = Some s \<Longrightarrow> utf8 s"
  by (cases v) simp_all

lemma keeps_string:
  assumes "printable j" "\<And>r s. P r \<Longrightarrow> utf8 s \<Longrightarrow> P (upd s r)"
  shows "keeps P (read_field j k get_string upd)"
proof (cases "json_find j k")
  case (Some v)
  have "utf8 s" if "get_string v = Some s" for s using printable_string [OF printable_find [OF assms(1) Some] that] .
  then show ?thesis using Some assms(2) by (auto simp: keeps_def read_field_def)
qed (simp add: keeps_def read_field_def)

lemma deserialize_utf8:
  assumes "lib_ok L"
  shows "utf8 (msg_playerId (deserialize (lib_parse L) dump now data)) \<and>
    utf8 (msg_gameId (deserialize (lib_parse L) dump now data))"
  unfolding deserialize_def
  by (rule read_with_keep [where P = "\<lambda>m. utf8 (msg_playerId m) \<and> utf8 (msg_gameId m)", OF assms])
    (auto simp: message_steps_def intro!: keeps_string,
      auto simp: keeps_def read_field_def split: option.splits)

lemma join_payload_utf8:
  assumes "lib_ok L"
  shows "utf8 (join_gameId (joinGame_fromJson (lib_parse L) s)) \<and> utf8 (join_playerName (joinGame_fromJson (lib_parse L) s))"
  unfolding joinGame_fromJson_def
  by (rule read_with_keep [where P = "\<lambda>p. utf8 (join_gameId p) \<and> utf8 (join_playerName p)", OF assms])
    (auto simp: joinGame_steps_def intro!: keeps_string)

definition fine_name :: "string \<Rightarrow> bool" where
  "fine_name n \<longleftrightarrow> utf8 n \<or> cut_name n"

lemma sanitized_fine: "utf8 raw \<Longrightarrow> fine_name (sanitizePlayerName raw)"
  using sanitized_name by (simp add: fine_name_def)

lemma fine_name_Player [simp]: "fine_name ''Player''"
  by (simp add: fine_name_def utf8_ascii_Cons)

lemma join_name_fine: "utf8 raw \<Longrightarrow> fine_name (join_name raw)"
  using sanitized_fine by (simp add: join_name_def Let_def)

lemma body_name_fine: "lib_ok L \<Longrightarrow> fine_name (body_name L body)"
  by (auto simp: body_name_def body_with_def or_player_def sanitized_fine
      intro!: read_with_keep [where P = fine_name] keeps_string)

lemma body_code_name_fine:
  assumes "lib_ok L"
  shows "fine_name (snd (body_code_name L body))"
proof -
  have "fine_name (snd (body_with L body
      (\<lambda>j. [read_field j ''gameCode'' get_string (\<lambda>s (code, name). (normalizeGameCode s, name)),
            read_field j ''playerName'' get_string (\<lambda>s (code, name). (code, sanitizePlayerName s))])
      ('''', ''Player'')))"
    unfolding body_with_def
    by (auto simp: sanitized_fine assms intro!: read_with_keep [where P = "\<lambda>n. fine_name (snd n)"] keeps_string)
  then show ?thesis by (simp add: body_code_name_def or_player_def split_beta Let_def)
qed

section \<open>Sessions\<close>

lemma sound_registry:
  assumes "sound app"
    "all_sessions (\<lambda>sid s. utf8 (sess_gameId s) \<and> utf8 (sess_playerId s)) (f (app_sessions app))"
  shows "sound (on_registry f app)"
  using assms by (simp add: sound_def fine_app_def dirty_def)

lemma sound_sessions: "sound app \<Longrightarrow> all_sessions (\<lambda>sid s. utf8 (sess_gameId s) \<and> utf8 (sess_playerId s)) (app_sessions app)"
  by (simp add: sound_def fine_app_def)

lemma sound_bind: "sound app \<Longrightarrow> utf8 gid \<Longrightarrow> utf8 pid \<Longrightarrow> sound (bind_session sid gid pid app)"
  unfolding bind_session_def
  by (rule sound_registry) (auto simp: session_defs dest!: sound_sessions intro!: all_sessions_modify)

lemma sound_defaults:
  assumes "sound app" "session_defaults sid m app = (gid, pid)" "utf8 (msg_gameId m)" "utf8 (msg_playerId m)"
  shows "utf8 gid" "utf8 pid"
  using assms sound_sessions [OF assms(1)]
  by (auto simp: session_defaults_def session_defs all_sessions_def split: option.splits if_splits)

section \<open>Handlers\<close>

lemma sound_error:
  assumes "lib_ok L" "sound app" "utf8 gid" "utf8 pid" "printable j"
  shows "sound (app_send L sid \<lparr>msg_type = t, msg_playerId = pid, msg_gameId = gid, msg_payload = lib_dump L j,
    msg_timestamp = ts\<rparr> app)"
  using assms by (intro sound_send) (simp_all add: lib_ok_def)

lemma sound_start_error:
  "lib_ok L \<Longrightarrow> sound app \<Longrightarrow> utf8 gid \<Longrightarrow> utf8 pid \<Longrightarrow> utf8 what \<Longrightarrow> sound (start_error L sid gid pid what app)"
  unfolding start_error_def
  by (rule sound_error) (simp_all add: error_json_def json_object_def opt_member_of_def utf8_ascii_Cons)

lemma sound_action_error:
  "lib_ok L \<Longrightarrow> sound app \<Longrightarrow> utf8 gid \<Longrightarrow> utf8 pid \<Longrightarrow> utf8 what \<Longrightarrow> sound (action_error L sid gid pid what app)"
  unfolding action_error_def
  by (rule sound_error) (simp_all add: json_object_def utf8_ascii_Cons)

lemma sound_handleStartGame:
  assumes "lib_ok L" "sound app" "utf8 (msg_gameId m)" "utf8 (msg_playerId m)" "handleStartGame L sid m app = Some app'"
  shows "sound app'"
proof -
  obtain gid pid where d: "session_defaults sid m app = (gid, pid)" by (cases "session_defaults sid m app")
  note ids = sound_defaults [OF assms(2) d assms(3,4)]
  have err: "sound (start_error L sid gid pid what app)" if "utf8 what" for what
    using sound_start_error [OF assms(1,2) ids that] .
  show ?thesis
  proof (cases "getGame gid app")
    case None
    then show ?thesis using assms(5) d err by (auto simp: handleStartGame_def utf8_ascii_Cons)
  next
    case (Some eng)
    let ?app1 = "put_new_round gid (engine_startGame eng) app"
    have round: "sound ?app1" "getGame gid ?app1 = Some (startNewRound (app_steady app) (engine_startGame eng))"
      using sound_new_round [OF assms(2) Some, of "engine_startGame eng"] by simp_all
    then have "sound (broadcastGameState L gid (store (SaveGame (eng_state (startNewRound (app_steady app) (engine_startGame eng)))) ?app1))"
      by (intro sound_broadcast sound_save assms(1) ids(1) shown_game [where gid = gid]) simp_all
    then show ?thesis
      using assms(1,5) d Some err sound_bot_turns
      by (auto simp: handleStartGame_def runBotTurnsIfNeeded_def utf8_ascii_Cons Let_def split: if_splits)
  qed
qed

lemma process_message: "processAction a eng = Some (res, eng1) \<Longrightarrow> utf8 (res_message res)"
  by (erule processAction_cases)
    (auto simp: res_fail_def res_ok_def handleDrawCard_def handleDeclaration_def handleSuitChoice_def
      utf8_ascii_Cons Let_def split: option.splits)

lemma sound_store_stats: "sound app \<Longrightarrow> sound (store_stats gs app)"
  unfolding store_stats_def by (auto intro!: fold_invariant_set [where P = sound] sound_store)

lemma sound_action_accepted:
  assumes "lib_ok L" "sound app" "getGame gid app = Some eng" "utf8 gid"
  shows "sound (action_accepted L gid eng app)"
proof -
  let ?app1 = "store_stats (eng_state eng) (store (SaveGame (eng_state eng)) (broadcastGameState L gid app))"
  have "sound (store (SaveGame (eng_state eng)) (broadcastGameState L gid app))"
    using assms by (intro sound_save sound_broadcast shown_game [where gid = gid]) simp_all
  then have s1: "sound ?app1" by (rule sound_store_stats)
  have g1: "getGame gid ?app1 = Some eng" using assms(3) by (simp add: getGame_def)
  have s2: "sound (put_new_round gid eng ?app1)" "getGame gid (put_new_round gid eng ?app1) = Some (startNewRound (app_steady ?app1) eng)"
    using sound_new_round [OF s1 g1] by simp_all
  have "sound (store (SaveGame (eng_state (startNewRound (app_steady ?app1) eng)))
      (broadcastGameState L gid (put_new_round gid eng ?app1)))"
    using s2 assms(1,4) by (intro sound_save sound_broadcast shown_game [where gid = gid]) simp_all
  then show ?thesis using s1 by (simp add: action_accepted_def Let_def)
qed

lemma sound_handleGameAction:
  assumes "lib_ok L" "sound app" "utf8 (msg_gameId m)" "utf8 (msg_playerId m)" "handleGameAction L sid m app = Some app'"
  shows "sound app'"
  using assms(5)
proof (cases rule: handleGameAction_cases)
  case (refused gid pid eng a res eng1)
  note ids = sound_defaults [OF assms(2) refused(1) [symmetric] assms(3,4)]
  show ?thesis
    unfolding refused(7)
    by (rule sound_action_error [OF assms(1) sound_moved(1) [OF assms(2) refused(2,5)] ids process_message [OF refused(5)]])
next
  case (accepted gid pid eng a res eng1)
  note ids = sound_defaults [OF assms(2) accepted(1) [symmetric] assms(3,4)]
  note moved = sound_moved [OF assms(2) accepted(2,5)]
  show ?thesis
    using sound_bot_turns [OF assms(1) sound_action_accepted [OF assms(1) moved ids(1)]] accepted(7)
    by (simp add: runBotTurnsIfNeeded_def)
qed (use assms(2) in simp)

section \<open>Joining and leaving\<close>

lemma sound_fine: "fine_app app \<Longrightarrow> \<not> app_thrown app \<Longrightarrow> sound app"
  by (simp add: sound_def)

lemma fine_put:
  "fine_app app \<Longrightarrow> utf8 gid \<Longrightarrow> fine_state (eng_state eng) \<Longrightarrow> fine_app (put_engine gid eng app)"
  by (auto simp: fine_app_def put_engine_def get_put wf_put)

lemma sound_put:
  assumes "sound app" "getGame gid app = Some eng" "fine_state (eng_state eng')"
    "\<not> clean (eng_state eng) \<Longrightarrow> \<not> clean (eng_state eng')"
  shows "sound (put_engine gid eng' app)"
proof -
  have wf: "map_wf (activeGames app)" using assms(1) by (simp add: sound_def fine_app_def)
  have "dirty (put_engine gid eng' app)" if d: "dirty app"
  proof -
    obtain g e where e: "map_get (activeGames app) g = Some e" "\<not> clean (eng_state e)"
      using d by (auto simp: dirty_def)
    show ?thesis unfolding dirty_def
      by (intro exI [of _ g] exI [of _ "if gid = g then eng' else e"])
        (use e assms(2,4) wf in \<open>auto simp: get_put getGame_def\<close>)
  qed
  moreover have "fine_app (put_engine gid eng' app)"
    using assms(1,3) fine_key [OF assms(1,2)] by (simp add: sound_def fine_put)
  ultimately show ?thesis using assms(1) by (simp add: sound_def)
qed

lemma put_get: "sound app \<Longrightarrow> getGame gid (put_engine gid eng app) = Some eng"
  by (simp add: sound_def fine_app_def getGame_def get_put)

lemma sound_state: "sound app \<Longrightarrow> getGame gid app = Some eng \<Longrightarrow> fine_state (eng_state eng)"
  by (auto simp: sound_def fine_app_def getGame_def)

lemma fine_addPlayer:
  "fine_state gs \<Longrightarrow> utf8 (player_id p) \<Longrightarrow> fine_name (player_name p) \<Longrightarrow> fine_state (addPlayer (Some p) gs)"
  by (auto simp: fine_state_def fine_name_def addPlayer_def Let_def)

lemma unclean_addPlayer: "\<not> clean gs \<Longrightarrow> \<not> clean (addPlayer (Some p) gs)"
  by (auto simp: clean_def seat_names_def addPlayer_def Let_def)

lemma sound_joinGame:
  assumes "sound app" "utf8 pid" "fine_name name"
  shows "sound (snd (joinGame gid pid name app))"
proof (cases "getGame gid app")
  case (Some eng)
  let ?nm = "if name = '''' then pid else name"
  let ?gs = "addPlayer (Some (player_new (app_steady app) pid ?nm HUMAN)) (eng_state eng)"
  let ?app1 = "put_engine gid (eng\<lparr>eng_state := ?gs\<rparr>) app"
  let ?app2 = "case getPlayer pid ?gs of None \<Rightarrow> ?app1 | Some i \<Rightarrow> store (SavePlayer (players ?gs ! i)) ?app1"
  have "fine_name ?nm" using assms(2,3) by (simp add: fine_name_def)
  then have "fine_state ?gs"
    using sound_state [OF assms(1) Some] assms(2) by (intro fine_addPlayer) (simp_all add: player_new_def)
  then have s1: "sound ?app1" using sound_put [OF assms(1) Some] unclean_addPlayer by simp
  then have s2: "sound ?app2" by (auto split: option.split intro: sound_store)
  have "getGame gid ?app2 = Some (eng\<lparr>eng_state := ?gs\<rparr>)"
    using put_get [OF assms(1)] by (auto split: option.split)
  then have "sound (store (SaveGame ?gs) ?app2)"
    using s2 shown_game [of gid ?app2] by (intro sound_save) simp_all
  then show ?thesis using Some assms(1) by (simp add: joinGame_def Let_def del: option.case_distrib)
qed (use assms(1) in \<open>simp add: joinGame_def\<close>)

lemma sound_addBots:
  assumes "sound app"
  shows "sound (addBotsToGame gid n app)"
proof (cases "getGame gid app")
  case (Some eng)
  have bot: "fine_state (addPlayer (Some (bot_player now gid k)) gs)" if "fine_state gs" for now k gs
    using that utf8_bot [OF fine_key [OF assms Some]] by (intro fine_addPlayer) (simp_all add: fine_name_def)
  have fine: "fine_state (fold (\<lambda>k. addPlayer (Some (bot_player now gid k))) ks (eng_state eng))" for now ks
    by (rule fold_invariant_set [where P = fine_state]) (use bot sound_state [OF assms Some] in simp_all)
  have unclean: "\<not> clean (eng_state eng) \<Longrightarrow> \<not> clean (fold (\<lambda>k. addPlayer (Some (bot_player now gid k))) ks (eng_state eng))" for now ks
    by (rule fold_invariant_set [where P = "\<lambda>gs. \<not> clean gs"]) (use unclean_addPlayer in simp_all)
  have "sound (store (SaveGame gs) (put_engine gid (eng\<lparr>eng_state := gs\<rparr>) app))"
    if "fine_state gs" "\<not> clean (eng_state eng) \<Longrightarrow> \<not> clean gs" for gs
    using sound_put [OF assms Some, of "eng\<lparr>eng_state := gs\<rparr>"] that put_get [OF assms, of gid "eng\<lparr>eng_state := gs\<rparr>"]
      shown_game [of gid "put_engine gid (eng\<lparr>eng_state := gs\<rparr>) app"]
    by (intro sound_save) simp_all
  then show ?thesis using Some assms fine unclean by (simp add: addBotsToGame_def Let_def)
qed (use assms in \<open>simp add: addBotsToGame_def\<close>)

lemma next_seed_sound: "fine_app (snd (next_seed app)) = fine_app app" "app_thrown (snd (next_seed app)) = app_thrown app"
  by (simp_all add: next_seed_def fine_app_def split: list.split)

lemma fine_new: "fine_state ((state_initialize (state_new cfg (generateGameId app) now seed))\<lparr>gameCode := fst (new_code app' r)\<rparr>)"
  using utf8_code [OF new_code_shape [THEN conjunct2]]
  by (simp add: fine_state_def state_initialize_def state_new_def utf8_game_id)

lemma sound_createGame:
  assumes "sound app" "\<not> app_thrown app"
  shows "sound (snd (createGame cfg app)) \<and> \<not> app_thrown (snd (createGame cfg app))"
proof -
  let ?gid = "generateGameId app" and ?app0 = "app\<lparr>app_counter := app_counter app + 1\<rparr>"
  obtain seed app1 where n: "next_seed ?app0 = (seed, app1)" by (cases "next_seed ?app0")
  obtain code r where c: "new_code app1 (app_rng app1) = (code, r)" by (cases "new_code app1 (app_rng app1)")
  let ?st = "(state_initialize (state_new cfg ?gid (int (app_wall app)) seed))\<lparr>gameCode := code\<rparr>"
  let ?app2 = "app1\<lparr>app_rng := r\<rparr>"
  let ?app3 = "put_engine ?gid (engine_new (app_steady ?app2) ?st)
    (?app2\<lparr>gameActivity := map_put ?gid (app_steady ?app2) (gameActivity ?app2)\<rparr>)"
  have st: "fine_state ?st" using fine_new [where app' = app1 and r = "app_rng app1"] c by simp
  have "fine_app ?app0" using assms(1) by (simp add: sound_def fine_app_def)
  then have "fine_app app1" "\<not> app_thrown app1" using next_seed_sound [of ?app0] n assms(2) by simp_all
  then have a2: "fine_app (?app2\<lparr>gameActivity := t\<rparr>)" "fine_app ?app2" "\<not> app_thrown ?app2" for t
    by (simp_all add: fine_app_def)
  then have a3: "fine_app ?app3" "\<not> app_thrown ?app3"
    using st by (simp_all add: utf8_game_id engine_new_def fine_put)
  have "printable (state_toJson ?st)"
    using st by (simp add: printable_state clean_def seat_names_def state_initialize_def state_new_def)
  moreover have "createGame cfg app =
      (if length (activeGames ?app2) \<ge> to_size_t (maxGamesPerServer ?app2) then ('''', ?app2)
       else (?gid, store (SaveGame ?st) ?app3))"
    using n c by (simp add: createGame_def Let_def)
  ultimately show ?thesis
    using a2 a3 by (auto simp: store_def Let_def intro!: sound_fine) (simp_all add: fine_app_def)
qed

lemma fine_removePlayer: "fine_state gs \<Longrightarrow> fine_state (removePlayer pid gs)"
  by (auto simp: fine_state_def removePlayer_def list_all_iff)

lemma sound_leaveGame:
  assumes "lib_ok L" "sound app" "\<not> app_thrown app" "\<And>a. sound a \<Longrightarrow> utf8 (gref a)"
  shows "sound (snd (leaveGame L gref pid app))"
proof (cases "getGame (gref app) app")
  case (Some eng)
  let ?app1 = "put_engine (gref app) (eng\<lparr>eng_state := removePlayer pid (eng_state eng)\<rparr>) app"
  have "fine_app ?app1"
    using assms(2) sound_state [OF assms(2) Some] fine_key [OF assms(2) Some]
    by (intro fine_put) (simp_all add: sound_def fine_removePlayer)
  then have s1: "sound ?app1" using assms(3) by (intro sound_fine) simp_all
  have s2: "sound (on_registry (setPlayerId sid '''') (on_registry (setGameId sid '''') ?app1))" for sid
    using sound_bind [OF s1, of "''''" "''''" sid] by (simp add: bind_session_def)
  show ?thesis
    using Some s1 s2 assms(1,4) by (auto simp: leaveGame_def Let_def intro!: sound_broadcast)
qed (use assms(2) in \<open>simp add: leaveGame_def\<close>)

lemma sound_code: "sound app \<Longrightarrow> utf8 (getGameIdByCode code app)"
proof -
  assume "sound app"
  then have "\<forall>(gid, eng) \<in> set (activeGames app). utf8 gid" by (auto simp: sound_def fine_app_def get_Some)
  moreover have "x \<in> set xs" if "find P xs = Some x" for P x and xs :: "(string \<times> GameEngine) list"
    using that by (auto simp: find_Some_iff)
  ultimately show ?thesis by (fastforce simp: getGameIdByCode_def split: option.split)
qed

lemma sound_handleJoinGame:
  assumes "lib_ok L" "sound app" "utf8 (msg_gameId m)" "utf8 (msg_playerId m)"
  shows "sound (handleJoinGame L sid m app)"
proof -
  let ?p = "joinGame_fromJson (lib_parse L) (msg_payload m)"
  let ?gid = "join_game_id ?p m app" and ?name = "join_name (join_playerName ?p)"
  note payload = join_payload_utf8 [OF assms(1), of "msg_payload m"]
  have gid: "utf8 ?gid"
    using payload assms(2,3) sound_code [OF assms(2)] by (auto simp: join_game_id_def Let_def split: option.split)
  have name: "fine_name ?name" using payload join_name_fine by blast
  have drop: "all_sessions P (drop_other_sessions sid olds mgr)" if "all_sessions P mgr" for P olds mgr
    unfolding drop_other_sessions_def
    by (rule fold_invariant_set [where P = "all_sessions P"])
      (use that in \<open>simp_all add: destroySession_def map_del_def all_sessions_filter\<close>)
  have again: "sound (reattach L sid ?gid pid (eng_state eng) app1)"
    if pid: "utf8 pid" and s1: "sound app1" and game: "getGame ?gid app1 = Some eng" for pid app1 eng
  proof -
    let ?app2 = "bind_session sid ?gid pid (on_registry (drop_other_sessions sid (getSessionsForPlayer pid (app_sessions app1))) app1)"
    have "sound ?app2" by (intro sound_bind sound_registry s1 drop sound_sessions [OF s1] gid pid)
    moreover have "shown (eng_state eng) ?app2"
      using shown_game [OF game] by (simp add: shown_def bind_session_def)
    ultimately have "sound (send_state L ?gid (eng_state eng) (app_wall ?app2) sid pid (touchGameActivity ?gid ?app2))"
      by (intro sound_send_state assms(1) gid) (simp_all add: shown_def)
    then show ?thesis by (simp add: reattach_def Let_def)
  qed
  have seat: "sound (if joined then broadcastGameState L ?gid (bind_session sid ?gid pid app2) else app2)"
    if "joinGame ?gid pid ?name app1 = (joined, app2)" "utf8 pid" "sound app1" for pid app1 joined app2
    using sound_joinGame [OF that(3,2) name, of ?gid] that(1,2) gid assms(1) by (simp add: sound_broadcast sound_bind)
  define rest where "rest pid app1 =
     (if ?gid = '''' then app1
      else case getGame ?gid app1 of
          None \<Rightarrow> app1
        | Some eng \<Rightarrow>
            (case getPlayer pid (eng_state eng) of
               Some _ \<Rightarrow> reattach L sid ?gid pid (eng_state eng) app1
             | None \<Rightarrow> let (joined, app2) = joinGame ?gid pid ?name app1
                 in if joined then broadcastGameState L ?gid (bind_session sid ?gid pid app2) else app2))" for pid app1
  have "sound (rest pid app1)" if "utf8 pid" "sound app1" for pid app1
    using that again seat [OF prod.collapse [symmetric]] by (simp add: rest_def split_beta Let_def split: option.split)
  moreover have "handleJoinGame L sid m app =
      (if msg_playerId m = '''' then rest (fst (generateUUID (app_rng app))) (app\<lparr>app_rng := snd (generateUUID (app_rng app))\<rparr>)
       else rest (msg_playerId m) app)"
    by (cases "generateUUID (app_rng app)"; cases "msg_playerId m = ''''") (simp_all add: handleJoinGame_def rest_def Let_def)
  ultimately show ?thesis using utf8_uuid assms(2,4) by simp
qed

lemma sound_handleClientMessage:
  assumes "lib_ok L" "sound app" "\<not> app_thrown app" "utf8 (msg_gameId m)" "utf8 (msg_playerId m)"
    "handleClientMessage L sid m app = Some app'"
  shows "sound app'"
  using assms(6)
proof (cases rule: handleClientMessage_cases)
  case left
  obtain gid pid where d: "session_defaults sid m app = (gid, pid)" by (cases "session_defaults sid m app")
  show ?thesis
    using left assms(2) sound_leaveGame [OF assms(1-3), of "\<lambda>_. gid"] sound_defaults [OF assms(2) d assms(4,5)] d
    by (simp add: handleLeaveGame_def Let_def)
qed (use assms sound_handleJoinGame sound_handleStartGame sound_handleGameAction in blast)+

section \<open>Events\<close>

lemma sound_text_received:
  assumes "lib_ok L" "sound app" "\<not> app_thrown app" "text_received L hdl data app = Some app'"
  shows "sound app'"
proof -
  obtain sid ws where r: "receive hdl (app_steady app) (app_ws app) = (sid, ws)"
    by (cases "receive hdl (app_steady app) (app_ws app)")
  have "all_sessions (\<lambda>sid s. utf8 (sess_gameId s) \<and> utf8 (sess_playerId s)) (ws_sessions ws)"
    using r sound_sessions [OF assms(2)]
    by (auto simp: receive_def updateActivity_def all_sessions_modify split: option.splits if_splits)
  then have "sound (app\<lparr>app_ws := ws\<rparr>)" using assms(2) by (simp add: sound_def fine_app_def dirty_def)
  then show ?thesis
    using assms(3,4) r deserialize_utf8 [OF assms(1), of "lib_dump L" "app_wall app" data]
      sound_handleClientMessage [OF assms(1), of "app\<lparr>app_ws := ws\<rparr>" "deserialize (lib_parse L) (lib_dump L) (app_wall app) data" sid app']
    by (cases "sid = ''''") (auto simp: text_received_def Let_def)
qed

lemma sound_connection_closed:
  assumes "lib_ok L" "sound app" "\<not> app_thrown app"
  shows "sound (connection_closed L hdl app)"
proof -
  obtain sid ws where r: "close_connection hdl (app_ws app) = (sid, ws)" by (cases "close_connection hdl (app_ws app)")
  then have "ws_sessions ws = app_sessions app" by (auto simp: close_connection_def split: option.splits)
  then have s1: "sound (app\<lparr>app_ws := ws\<rparr>)" using assms(2) by (simp add: sound_def fine_app_def dirty_def)
  let ?gref = "\<lambda>app'. case getSession sid (app_sessions app') of Some s' \<Rightarrow> sess_gameId s' | None \<Rightarrow> ''''"
  have gref: "utf8 (?gref a)" if "sound a" for a
    using sound_sessions [OF that] by (auto simp: all_sessions_def getSession_def split: option.split)
  have "sound (handleDisconnection L sid (app\<lparr>app_ws := ws\<rparr>))"
    using s1 sound_leaveGame [OF assms(1) s1 _ gref] assms(3)
    by (simp add: handleDisconnection_def split: option.split)
  moreover have "sound (on_registry (destroySession sid) a)" if "sound a" for a
    using that by (intro sound_registry) (auto simp: destroySession_def map_del_def dest!: sound_sessions intro!: all_sessions_filter)
  ultimately show ?thesis using r s1 by (simp add: connection_closed_def Let_def)
qed

section \<open>Requests\<close>

lemma game_key: "sound app \<Longrightarrow> (gid, eng) \<in> set (activeGames app) \<Longrightarrow> utf8 gid"
  by (auto simp: sound_def fine_app_def get_Some)

lemma sound_json_answer: "sound app \<Longrightarrow> printable j \<Longrightarrow> sound (snd (json_answer L code j app))"
  by (simp add: sound_dumped)

lemma joinGame_joined: "fst (joinGame gid pid name app) \<Longrightarrow> getGame gid app \<noteq> None"
  by (auto simp: joinGame_def split: option.splits)

lemma sound_joined_response:
  assumes "sound app" "fine_name name"
  shows "sound (snd (joined_response L gid name app))"
proof -
  obtain pid r where u: "generateUUID (app_rng app) = (pid, r)" by (cases "generateUUID (app_rng app)")
  let ?appr = "app\<lparr>app_rng := r\<rparr>"
  obtain joined app1 where j: "joinGame gid pid name ?appr = (joined, app1)" by (cases "joinGame gid pid name ?appr")
  have pid: "utf8 pid" using utf8_uuid [of "app_rng app"] u by simp
  then have "sound app1" using sound_joinGame [of ?appr pid name gid] assms j by simp
  moreover have "utf8 gid" if joined
    using fine_key [OF assms(1), of gid] joinGame_joined [of gid pid name ?appr] j that by (auto simp: getGame_def)
  ultimately show ?thesis
    using u j pid by (simp add: joined_response_def sound_dumped json_object_def utf8_ascii_Cons)
qed

lemma createGame_id: "fst (createGame cfg app) = '''' \<or> fst (createGame cfg app) = generateGameId app"
  by (simp add: createGame_def Let_def split_beta)

lemma sound_handleCreateGame:
  assumes "lib_ok L" "sound app" "\<not> app_thrown app"
  shows "sound (snd (handleCreateGame L req app))"
proof -
  let ?cr = "create_request L (req_body req)" and ?name = "body_name L (req_body req)"
  obtain gid app1 where c: "createGame (cr_config ?cr) app = (gid, app1)" by (cases "createGame (cr_config ?cr) app")
  then have gid: "utf8 gid" and s1: "sound app1"
    using createGame_id [of "cr_config ?cr" app] utf8_game_id sound_createGame [OF assms(2,3), of "cr_config ?cr"] by auto
  obtain pid r where u: "generateUUID (app_rng app1) = (pid, r)" by (cases "generateUUID (app_rng app1)")
  let ?appr = "app1\<lparr>app_rng := r\<rparr>"
  obtain joined app2 where j: "joinGame gid pid ?name ?appr = (joined, app2)" by (cases "joinGame gid pid ?name ?appr")
  have pid: "utf8 pid" using utf8_uuid [of "app_rng app1"] u by simp
  then have s2: "sound app2"
    using sound_joinGame [of ?appr pid ?name gid] s1 j body_name_fine [OF assms(1), of "req_body req"] by simp
  let ?app3 = "if cr_botCount ?cr > 0 then addBotsToGame gid (cr_botCount ?cr) app2 else app2"
  let ?code = "case getGame gid ?app3 of None \<Rightarrow> [] | Some eng \<Rightarrow> [(''gameCode'', JString (gameCode (eng_state eng)))]"
  have s3: "sound ?app3" using s2 sound_addBots by simp
  then have "sound (snd (json_answer L 201 (json_object ([(''gameId'', JString gid), (''playerId'', JString pid)] @ ?code)) ?app3))"
    using gid pid sound_state [OF s3, of gid]
    by (intro sound_json_answer) (simp_all add: json_object_def utf8_ascii_Cons fine_state_def split: option.split)
  then show ?thesis using c u j s1 s2 by (simp add: handleCreateGame_def Let_def)
qed

lemma sound_removal:
  assumes "sound app" "\<not> app_thrown app"
  shows "sound (removeGame gid app) \<and> \<not> app_thrown (removeGame gid app)"
proof -
  have "fine_app (app\<lparr>activeGames := map_del gid (activeGames app), gameActivity := map_del gid (gameActivity app)\<rparr>)"
    using assms(1) by (auto simp: sound_def fine_app_def wf_del get_del)
  then have "sound (app\<lparr>activeGames := map_del gid (activeGames app), gameActivity := map_del gid (gameActivity app)\<rparr>)"
    using assms(2) by (intro sound_fine) simp_all
  then have s: "sound (store (DeleteGame gid) (app\<lparr>activeGames := map_del gid (activeGames app),
      gameActivity := map_del gid (gameActivity app)\<rparr>))" by (rule sound_store) simp
  have "sound (removeGame gid app)" unfolding removeGame_def
    by (rule sound_registry [OF s])
      (use sound_sessions [OF s] in \<open>simp add: removeAllSessionsForGame_def map_del_if_def all_sessions_filter\<close>)
  then show ?thesis using assms(2) by (simp add: removeGame_def store_def Let_def)
qed

lemma sound_cleanup:
  assumes "sound app" "\<not> app_thrown app"
  shows "sound (snd (handleCleanupStaleLobbies L req app))"
proof -
  have "sound (remove_stale n app) \<and> \<not> app_thrown (remove_stale n app)" for n
    unfolding remove_stale_def
    by (rule fold_invariant_set [where P = "\<lambda>a. sound a \<and> \<not> app_thrown a"]) (use assms sound_removal in simp_all)
  moreover have "list_all utf8 (stale_lobbies n app)" for n
    using game_key [OF assms(1)] by (auto simp: stale_lobbies_def list_all_iff)
  ultimately show ?thesis
    by (simp add: handleCleanupStaleLobbies_def Let_def sound_json_answer json_object_def utf8_ascii_Cons list.pred_map o_def
        del: json_answer_pair)
qed

text \<open>A row of the ranking whose texts cannot be written.\<close>

definition bad_board :: "(int \<Rightarrow> PlayerStats list) \<Rightarrow> bool" where
  "bad_board board \<longleftrightarrow> (\<exists>n. \<exists>s \<in> set (board n). \<not> (utf8 (st_playerId s) \<and> utf8 (st_playerName s)))"

text \<open>What a step may leave behind: every text but a name is fine, and a name is to blame when it threw.\<close>

definition blamed :: "(int \<Rightarrow> PlayerStats list) \<Rightarrow> Application \<Rightarrow> bool" where
  "blamed board app \<longleftrightarrow> fine_app app \<and> (app_thrown app \<longrightarrow> dirty app \<or> bad_board board)"

lemma sound_blamed: "sound app \<Longrightarrow> blamed board app"
  by (simp add: sound_def blamed_def)

lemma fine_dumped [simp]: "fine_app (dumped j app) = fine_app app"
  by (simp add: fine_app_def)

lemma sound_queries:
  assumes "sound app"
  shows "sound (snd (handleGetGames L app))" "sound (snd (handleGetGame L gid app))"
  using assms game_key [OF assms] sound_dumped_state [OF assms shown_game]
  by (auto simp: game_summary_def json_object_def utf8_ascii_Cons list_all_iff intro!: sound_dumped split: option.split)

lemma blamed_leaderboard:
  assumes "sound app"
  shows "blamed board (snd (handleLeaderboard L board req app))"
proof -
  have "printable (leaderboard_entry s)" if "\<not> bad_board board" "s \<in> set (board n)" for s n
    using that by (auto simp: bad_board_def leaderboard_entry_def json_object_def utf8_ascii_Cons)
  then show ?thesis using assms by (auto simp: blamed_def sound_def list_all_iff dirty_def)
qed

lemma blamed_api_call:
  assumes "lib_ok L" "sound app" "\<not> app_thrown app"
  shows "blamed board (snd (api_call L board h req app))"
proof (cases h)
  case R_JoinByCode
  have "sound (snd (handleJoinByCode L req app))"
    using assms(2) sound_joined_response [OF assms(2)] body_code_name_fine [OF assms(1), of "req_body req"]
    by (simp add: handleJoinByCode_def split_beta Let_def)
  then show ?thesis using R_JoinByCode by (simp add: sound_blamed)
next
  case R_Join
  then show ?thesis
    using assms(2) sound_joined_response [OF assms(2)] body_name_fine [OF assms(1)]
    by (auto simp: handleJoinGameHttp_def split: option.split intro!: sound_blamed)
next
  case R_GetGame
  then show ?thesis using assms(2) sound_queries(2) by (auto split: option.split intro!: sound_blamed simp del: queries_state)
qed (use assms sound_queries sound_handleCreateGame sound_cleanup blamed_leaderboard in
  \<open>simp_all add: sound_blamed del: queries_state\<close>)

lemma blamed_api_connection:
  assumes "lib_ok L" "sound app" "\<not> app_thrown app"
  shows "blamed board (snd (api_connection L board fs path buf app))"
  using blamed_api_call [OF assms] sound_blamed [OF assms(2)]
  by (cases rule: api_connection_cases [of L board fs path buf app]) auto

section \<open>Runs\<close>

lemma sound_opened:
  assumes "sound app" "connection_opened hdl ip app = Some app'"
  shows "sound app' \<and> app_thrown app' = app_thrown app"
proof -
  let ?s = "\<lambda>sid. \<lparr>sess_sessionId = sid, sess_playerId = '''', sess_gameId = '''', sess_lastActivity = app_steady app,
     sess_ipAddress = ip, sess_metadata = [], sess_authenticated = False\<rparr>"
  obtain sid m r where c: "createSession ip (app_steady app) (app_sessions app) (app_rng app) = Some (sid, m, r)"
      "app_sessions app' = m"
    using assms(2) by (auto simp: connection_opened_def on_open_def Let_def split: option.splits)
  then have "app_sessions app' = map_put sid (?s sid) (app_sessions app)"
    by (auto simp: createSession_def split: option.splits prod.splits)
  moreover have frame: "activeGames app' = activeGames app" "app_thrown app' = app_thrown app"
    using assms(2) by (auto simp: connection_opened_def split: option.splits)
  ultimately show ?thesis
    using assms(1) all_sessions_put [OF sound_sessions [OF assms(1)], where k = sid and s = "?s sid"]
    by (simp add: sound_def fine_app_def dirty_def)
qed

lemma sound_server_step:
  assumes "lib_ok L" "server_step L board fs path app app'" "sound app \<and> \<not> app_thrown app"
  shows "sound app' \<and> \<not> app_thrown app'"
  using assms(2)
proof (cases rule: server_step.cases)
  case (opened hdl ip)
  then show ?thesis using sound_opened assms(3) by blast
next
  case (received hdl data)
  then show ?thesis using sound_text_received [OF assms(1)] assms(3) by blast
next
  case (closed hdl)
  then show ?thesis using sound_connection_closed [OF assms(1)] assms(3) by blast
next
  case swept
  have "all_sessions (\<lambda>sid s. utf8 (sess_gameId s) \<and> utf8 (sess_playerId s)) (app_sessions (timeouts_checked app))"
    using assms(3) sound_sessions [of app]
    by (simp add: timeouts_checked_def checkTimeouts_def closeSessions_sessions removeExpiredSessions_def
        map_del_if_def all_sessions_filter Let_def)
  then have "sound (timeouts_checked app)" using assms(3)
    by (simp add: sound_def fine_app_def dirty_def timeouts_checked_def)
  then show ?thesis using swept assms(3) by (simp add: timeouts_checked_def)
next
  case (requested buf)
  then show ?thesis
    using blamed_api_connection [OF assms(1), of app board fs path buf] assms(3) by (simp add: blamed_def sound_def)
qed (use assms(3) in simp)

lemma sound_server_runs:
  assumes "lib_ok L" "server_runs L board fs path app app'" "sound app \<and> \<not> app_thrown app"
  shows "sound app' \<and> \<not> app_thrown app'"
  using assms(2,3) by (induction rule: server_runs.induct) (use sound_server_step [OF assms(1)] in blast)+

lemma sound_app_new: "sound (app_new n db steady wall junk r seeds) \<and> \<not> app_thrown (app_new n db steady wall junk r seeds)"
  by (simp add: sound_def fine_app_def app_new_def ws_start_def ws_new_def all_sessions_def map_get_def)

section \<open>Only names throw\<close>

lemma dirty_cut:
  assumes "fine_app app" "dirty app"
  shows "\<exists>gid eng p. getGame gid app = Some eng \<and> p \<in> set (players (eng_state eng)) \<and> cut_name (player_name p)"
  using assms by (fastforce simp: dirty_def fine_app_def clean_def seat_names_def fine_state_def list_all_iff getGame_def)

text \<open>C21: The only exception a message, a lost connection or a request can raise while a state or an answer is written
  is that of a cut name: some game has a player whose name was shortened to thirty bytes inside a character (or
  the ranking has a row with such a text).\<close>

theorem throws_only_for_cut_names:
  assumes "lib_ok L" "server_runs L board fs path (app_new n db steady wall junk r seeds) app"
    "text_received L hdl data app = Some app' \<or> app' = connection_closed L hdl app \<or>
     app' = snd (api_connection L board fs path buf app)"
    "app_thrown app'"
  shows "(\<exists>gid eng p. getGame gid app' = Some eng \<and> p \<in> set (players (eng_state eng)) \<and> cut_name (player_name p)) \<or>
    (\<exists>k. \<exists>s \<in> set (board k). \<not> (utf8 (st_playerId s) \<and> utf8 (st_playerName s)))"
proof -
  have app: "sound app" "\<not> app_thrown app" using sound_server_runs [OF assms(1,2)] sound_app_new by blast+
  have "blamed board app'"
    using assms(3) sound_text_received [OF assms(1) app] sound_connection_closed [OF assms(1) app]
      blamed_api_connection [OF assms(1) app] by (auto intro: sound_blamed)
  then show ?thesis using assms(4) dirty_cut [of app'] by (auto simp: blamed_def bad_board_def)
qed

text \<open>A library whose texts all stand for the tree with the name of thirty-one bytes, and the request.\<close>

definition name_lib :: JsonLib where
  "name_lib = \<lparr>lib_parse = (\<lambda>s. Some (JObject [(''playerName'', JString long_name)])), lib_dump = (\<lambda>j. ''{}'')\<rparr>"

definition name_request :: string where
  "name_request = ''POST /api/games HTTP/1.1'' @ crlf @ ''Content-Length: 2'' @ crlf @ crlf @ ''{}''"

lemma name_lib_ok: "lib_ok name_lib"
  by (simp add: lib_ok_def name_lib_def utf8_ascii_Cons long_name_broken)

section \<open>One request\<close>

lemma thrown_mono:
  "app_thrown app \<Longrightarrow> app_thrown (store c app)" "app_thrown app \<Longrightarrow> app_thrown (addBotsToGame gid n app)"
  by (auto simp: store_def addBotsToGame_def Let_def split: option.split StoreCall.split)

lemma store_mono: "set (app_store app) \<subseteq> set (app_store (addBotsToGame gid n app))"
  by (auto simp: store_def addBotsToGame_def put_engine_def Let_def split: option.split)

lemma createGame_new:
  assumes "length (activeGames app) < to_size_t (maxGamesPerServer app)" "sound app" "\<not> app_thrown app"
  shows "\<exists>app1 eng. createGame cfg app = (generateGameId app, app1) \<and>
    getGame (generateGameId app) app1 = Some eng \<and> fine_state (eng_state eng) \<and>
    players (eng_state eng) = [] \<and> phase (eng_state eng) = LOBBY \<and> config (eng_state eng) = cfg \<and>
    app_db app1 = app_db app \<and> sound app1 \<and> \<not> app_thrown app1"
proof -
  have wf: "map_wf (activeGames app)" using assms(2) by (simp add: sound_def fine_app_def)
  have seed: "activeGames (snd (next_seed a)) = activeGames a" "app_db (snd (next_seed a)) = app_db a"
    "maxGamesPerServer (snd (next_seed a)) = maxGamesPerServer a" "app_steady (snd (next_seed a)) = app_steady a" for a
    by (simp_all add: next_seed_def split: list.split)
  have "\<exists>app1 eng. createGame cfg app = (generateGameId app, app1) \<and>
    getGame (generateGameId app) app1 = Some eng \<and> fine_state (eng_state eng) \<and>
    players (eng_state eng) = [] \<and> phase (eng_state eng) = LOBBY \<and> config (eng_state eng) = cfg \<and>
    app_db app1 = app_db app"
    using assms(1) wf seed fine_new
    by (simp add: createGame_def Let_def split_beta getGame_def get_put wf_put put_engine_def engine_new_def state_initialize_def state_new_def)
  then show ?thesis using sound_createGame [OF assms(2,3), of cfg] by auto
qed

lemma new_seat:
  assumes "getGame gid app = Some eng" "fine_state (eng_state eng)" "players (eng_state eng) = []" "phase (eng_state eng) = LOBBY"
    "0 < to_size_t (maxPlayers (config (eng_state eng)))" "app_db app" "sound app" "utf8 pid" "fine_name name" "name \<noteq> ''''"
  shows "fst (joinGame gid pid name app) \<and>
    (app_thrown (snd (joinGame gid pid name app)) \<longleftrightarrow> app_thrown app \<or> \<not> utf8 name) \<and>
    (\<exists>p. SavePlayer p \<in> set (app_store (snd (joinGame gid pid name app))) \<and> player_name p = name) \<and>
    (\<exists>eng'. getGame gid (snd (joinGame gid pid name app)) = Some eng' \<and> fine_state (eng_state eng') \<and>
       (utf8 name \<longrightarrow> clean (eng_state eng')))"
proof -
  have wf: "map_wf (activeGames app)" using assms(7) by (simp add: sound_def fine_app_def)
  let ?p = "player_new (app_steady app) pid name HUMAN"
  let ?gs = "addPlayer (Some ?p) (eng_state eng)" and ?join = "joinGame gid pid name app"
  have gs: "players ?gs = [?p]" using assms(3,5) by (simp add: addPlayer_def player_new_def getPlayerCount_def Let_def)
  have fine: "fine_state ?gs" using assms(2,8,9) by (intro fine_addPlayer) (simp_all add: player_new_def)
  have clean: "clean ?gs \<longleftrightarrow> utf8 name" using gs by (simp add: clean_def seat_names_def player_new_def)
  then have "printable (state_toJson ?gs) \<longleftrightarrow> utf8 name" using fine by (simp add: printable_state)
  then have "fst ?join \<and> (app_thrown (snd ?join) \<longleftrightarrow> app_thrown app \<or> \<not> utf8 name) \<and>
      SavePlayer ?p \<in> set (app_store (snd ?join))"
    using assms gs
    by (simp add: joinGame_def Let_def getPlayer_def getPlayerCount_def store_def player_new_def put_engine_def)
  moreover have "getGame gid (snd ?join) = Some (eng\<lparr>eng_state := ?gs\<rparr>)"
    using assms wf by (simp add: joinGame_def Let_def getPlayer_def getPlayerCount_def getGame_def get_put split: option.split)
  ultimately show ?thesis using fine clean by (auto simp: player_new_def)
qed

lemma bots_seated:
  assumes "getGame gid app = Some eng" "fine_state (eng_state eng)" "clean (eng_state eng)" "utf8 gid" "\<not> app_thrown app"
  shows "\<not> app_thrown (addBotsToGame gid n app)"
proof -
  have bot: "fine_state (addPlayer (Some (bot_player now gid k)) gs) \<and> clean (addPlayer (Some (bot_player now gid k)) gs)"
    if "fine_state gs \<and> clean gs" for now k gs
    using that fine_addPlayer [of gs "bot_player now gid k"] utf8_bot [OF assms(4), of now k]
    by (auto simp: fine_name_def clean_def seat_names_def addPlayer_def Let_def)
  have seats: "fine_state (fold (\<lambda>k. addPlayer (Some (bot_player now gid k))) ks (eng_state eng)) \<and>
      clean (fold (\<lambda>k. addPlayer (Some (bot_player now gid k))) ks (eng_state eng))" for now ks
    by (rule fold_invariant_set [where P = "\<lambda>gs. fine_state gs \<and> clean gs"]) (use bot assms(2,3) in simp_all)
  then have "printable (state_toJson (fold (\<lambda>k. addPlayer (Some (bot_player now gid k))) ks (eng_state eng)))" for now ks
    using printable_state(1) by blast
  then show ?thesis using assms(1,5) by (simp add: addBotsToGame_def store_def Let_def)
qed

lemma body_name_read:
  assumes "lib_parse L body = Some j" "json_find j ''playerName'' = Some (JString raw)" "body \<noteq> ''''"
  shows "body_name L body = or_player (sanitizePlayerName raw)"
  using assms by (simp add: body_name_def body_with_def read_with_def read_field_def)

lemma body_name_empty [simp]: "body_name L '''' = ''Player''"
  by (simp add: body_name_def body_with_def or_player_def)

lemma or_player_utf8 [simp]: "utf8 (or_player n) = utf8 n" "or_player n \<noteq> ''''"
  by (simp_all add: or_player_def utf8_ascii_Cons)

text \<open>A request for a new game throws exactly when the name is not UTF-8; the row of the player is saved in either case.\<close>

lemma create_throws:
  assumes "fine_name (body_name L (req_body req))" "app_db app" "\<not> app_thrown app" "sound app"
    "length (activeGames app) < to_size_t (maxGamesPerServer app)"
    "0 < to_size_t (maxPlayers (cr_config (create_request L (req_body req))))"
  shows "(app_thrown (snd (handleCreateGame L req app)) \<longleftrightarrow> \<not> utf8 (body_name L (req_body req))) \<and>
    (\<exists>p. SavePlayer p \<in> set (app_store (snd (handleCreateGame L req app))) \<and> player_name p = body_name L (req_body req))"
proof -
  let ?cr = "create_request L (req_body req)" and ?gid = "generateGameId app" and ?name = "body_name L (req_body req)"
  have name: "fine_name ?name" "?name \<noteq> ''''" using assms(1) by (simp_all add: body_name_def)
  obtain app1 eng where c: "createGame (cr_config ?cr) app = (?gid, app1)" "getGame ?gid app1 = Some eng"
      "fine_state (eng_state eng)" "players (eng_state eng) = []" "phase (eng_state eng) = LOBBY"
      "config (eng_state eng) = cr_config ?cr" "app_db app1 = app_db app" "sound app1" "\<not> app_thrown app1"
    using createGame_new [OF assms(5,4,3)] by blast
  obtain pid r where u: "generateUUID (app_rng app1) = (pid, r)" by (cases "generateUUID (app_rng app1)")
  then have pid: "utf8 pid" using utf8_uuid [of "app_rng app1"] by simp
  let ?appr = "app1\<lparr>app_rng := r\<rparr>"
  obtain joined app2 where j: "joinGame ?gid pid ?name ?appr = (joined, app2)" by (cases "joinGame ?gid pid ?name ?appr")
  obtain eng1 where seat: "joined" "app_thrown app2 \<longleftrightarrow> \<not> utf8 ?name"
      "\<exists>p. SavePlayer p \<in> set (app_store app2) \<and> player_name p = ?name"
      "getGame ?gid app2 = Some eng1" "fine_state (eng_state eng1)" "utf8 ?name \<longrightarrow> clean (eng_state eng1)"
    using new_seat [of ?gid ?appr eng pid ?name] c assms(2,6) pid j name by (auto simp: getGame_def)
  let ?app3 = "if cr_botCount ?cr > 0 then addBotsToGame ?gid (cr_botCount ?cr) app2 else app2"
  let ?code = "case getGame ?gid ?app3 of None \<Rightarrow> [] | Some eng \<Rightarrow> [(''gameCode'', JString (gameCode (eng_state eng)))]"
  have "app_thrown ?app3 \<longleftrightarrow> \<not> utf8 ?name"
    using seat(2,6) thrown_mono(2) bots_seated [OF seat(4,5) _ utf8_game_id] by auto
  moreover have "\<exists>p. SavePlayer p \<in> set (app_store ?app3) \<and> player_name p = ?name"
    using seat(3) store_mono [of app2] by auto
  moreover have "?gid \<noteq> ''''" by (simp add: generateGameId_def)
  moreover have "sound ?app3"
    using sound_joinGame [of ?appr pid ?name ?gid] c(8) pid name(1) j sound_addBots by simp
  then have "printable (json_object ([(''gameId'', JString ?gid), (''playerId'', JString pid)] @ ?code))"
    using utf8_game_id pid sound_state [of ?app3 ?gid]
    by (auto simp: json_object_def utf8_ascii_Cons fine_state_def split: option.split)
  ultimately show ?thesis
    using c(1) u j seat(1) by (simp add: handleCreateGame_def Let_def)
qed

text \<open>What a connection leaves behind when its request has a handler.\<close>

lemma connection_called:
  assumes "buf \<noteq> ''''" "length (req_body (parse_request buf)) \<le> maxBodySize srv" "req_method (parse_request buf) \<noteq> OPTIONS"
    "find_handler srv (parse_request buf) = Some (h, req)"
  shows "snd (serve_connection call fs srv buf s) = snd (call h req s)"
  using assms by (simp add: serve_connection_def handleRequest_def Let_def split_beta)

lemma create_served:
  assumes "buf \<noteq> ''''" "req_method (parse_request buf) = POST" "req_path (parse_request buf) = ''/api/games''"
    "length (req_body (parse_request buf)) \<le> 1024 * 1024"
  shows "snd (api_connection L board fs path buf app) = snd (handleCreateGame L (parse_request buf) app)"
  using assms
  by (simp add: api_connection_def serve_connection_def handleRequest_def find_handler_def api_server_def addRoute_def
      addPatternRoute_def setStaticRoot_def http_new_def map_get_def Let_def split_beta)

text \<open>C22: One connection ends the server.  In every state it reaches, with a database, a free place for a game and a
  seat at it, a request to create a game throws exactly when the name it gives is longer than thirty bytes and
  the cut falls inside a character; the row of the player with the shortened name has then been saved.\<close>

theorem one_request_throws:
  assumes "lib_ok L" "server_runs L board fs path (app_new n db steady wall junk r seeds) app" "app_db app"
    "length (activeGames app) < to_size_t (maxGamesPerServer app)"
    "buf \<noteq> ''''" "req_method (parse_request buf) \<noteq> OPTIONS"
    "length (req_body (parse_request buf)) \<le> maxBodySize (api_server path)"
    "find_handler (api_server path) (parse_request buf) = Some (R_CreateGame, req)"
    "0 < to_size_t (maxPlayers (cr_config (create_request L (req_body req))))"
    "req_body req \<noteq> ''''" "lib_parse L (req_body req) = Some j" "json_find j ''playerName'' = Some (JString raw)"
  shows "(app_thrown (snd (api_connection L board fs path buf app)) \<longleftrightarrow>
      30 < length (trim raw) \<and> tail_byte (trim raw ! 30)) \<and>
    (\<exists>p. SavePlayer p \<in> set (app_store (snd (api_connection L board fs path buf app))) \<and>
       player_name p = or_player (sanitizePlayerName raw))"
proof -
  have app: "sound app" "\<not> app_thrown app" using sound_server_runs [OF assms(1,2)] sound_app_new by blast+
  have "printable j" using assms(1,11) by (simp add: lib_ok_def)
  then have "utf8 raw" using printable_find [OF _ assms(12)] by fastforce
  then show ?thesis
    using create_throws [OF body_name_fine [OF assms(1)] assms(3) app(2,1) assms(4,9)] name_cut [of raw] body_name_read [OF assms(11,12,10)]
      connection_called [OF assms(5,7,6,8), where call = "api_call L board" and s = app]
    by (auto simp: api_connection_def)
qed

lemma name_request_read:
  "req_method (parse_request name_request) = POST" "req_path (parse_request name_request) = ''/api/games''"
  "req_body (parse_request name_request) = ''{}''"
  by code_simp+

lemma name_request_found:
  "find_handler (api_server path) (parse_request name_request) = Some (R_CreateGame, parse_request name_request)"
  by (simp add: find_handler_def name_request_read api_server_def addRoute_def addPatternRoute_def setStaticRoot_def
      http_new_def map_get_def Let_def)

lemma name_request_hyps:
  "name_request \<noteq> ''''" "req_method (parse_request name_request) \<noteq> OPTIONS"
  "length (req_body (parse_request name_request)) \<le> maxBodySize (api_server path)"
  by (simp add: name_request_def, simp_all add: name_request_read api_server_def addRoute_def addPatternRoute_def
      setStaticRoot_def http_new_def Let_def)

lemma name_game_hyps:
  "app_db (app_new 100 True 0 0 0 [] [])"
  "length (activeGames (app_new 100 True 0 0 0 [] [])) < to_size_t (maxGamesPerServer (app_new 100 True 0 0 0 [] []))"
  by (simp_all add: app_new_def to_size_t_def)

lemma name_body_hyps:
  "0 < to_size_t (maxPlayers (cr_config (create_request name_lib (req_body (parse_request name_request)))))"
  "req_body (parse_request name_request) \<noteq> ''''"
  "lib_parse name_lib (req_body (parse_request name_request)) = Some (JObject [(''playerName'', JString long_name)])"
  "json_find (JObject [(''playerName'', JString long_name)]) ''playerName'' = Some (JString long_name)"
proof -
  have "0 < to_size_t (maxPlayers (cr_config (create_request name_lib ''{}'')))" by code_simp
  then show "0 < to_size_t (maxPlayers (cr_config (create_request name_lib (req_body (parse_request name_request)))))"
    by (simp only: name_request_read)
qed (simp_all add: name_request_read name_lib_def)

theorem one_request_throws_witness:
  "app_thrown (snd (api_connection name_lib (\<lambda>n. []) (\<lambda>f. None) ''./web'' name_request (app_new 100 True 0 0 0 [] [])))"
proof -
  have "30 < length (trim long_name) \<and> tail_byte (trim long_name ! 30)" by code_simp
  then show ?thesis
    using one_request_throws [OF name_lib_ok server_runs.none name_game_hyps name_request_hyps name_request_found
        name_body_hyps] by blast
qed

theorem throws_only_for_cut_names_witness:
  "\<exists>gid eng p. getGame gid (snd (api_connection name_lib (\<lambda>n. []) (\<lambda>f. None) ''./web'' name_request
     (app_new 100 True 0 0 0 [] []))) = Some eng \<and> p \<in> set (players (eng_state eng)) \<and> cut_name (player_name p)"
proof -
  have "app_thrown (snd (api_connection name_lib (\<lambda>n. []) (\<lambda>f. None) ''./web'' name_request
      (app_new 100 True 0 0 0 [] [])))"
    using create_throws [OF body_name_fine [OF name_lib_ok] name_game_hyps(1) _ _ name_game_hyps(2) name_body_hyps(1)] sound_app_new
      body_name_read [OF name_body_hyps(3,4,2)] long_name_broken
      connection_called [OF name_request_hyps(1,3,2) name_request_found, where s = "app_new 100 True 0 0 0 [] []"
        and call = "api_call name_lib (\<lambda>n. [])"]
    by (simp add: api_connection_def)
  then show ?thesis using throws_only_for_cut_names [OF name_lib_ok server_runs.none disjI2 [OF disjI2 [OF refl]]] by fastforce
qed

end
