(* ===== verification/Whot_AppProps.thy ===== *)
theory Whot_AppProps
  imports Whot_Exceptions
begin

text \<open>
  The properties of the application: what holds of its games in every state it reaches, who is sent
  what, and what each handler may change.
\<close>

section \<open>The games\<close>

lemma codes_valid:
  assumes "length code = 6" "set code \<subseteq> set code_chars"
  shows "isValidGameCode code \<and> normalizeGameCode code = code"
proof -
  have chars: "list_all (\<lambda>c. is_alnum c \<and> to_upper c = c) code_chars"
    by (simp add: code_chars_def char_class_defs to_upper_def)
  then have all: "\<forall>c \<in> set code. is_alnum c \<and> to_upper c = c"
    using assms(2) by (auto simp: list_all_iff)
  have "normalize_loop cs = cs" if "\<forall>c \<in> set cs. is_alnum c \<and> to_upper c = c" for cs
    using that by (induction cs) auto
  then have "normalize_loop code = code" using all by blast
  then show ?thesis
    using assms(1) all
    by (simp add: isValidGameCode_def normalizeGameCode_def list_all_iff kMinGameCodeLength_def kMaxGameCodeLength_def)
qed

section \<open>Creating a game\<close>

text \<open>The codes the generator gives one after the other.\<close>

definition code_at :: "rng \<Rightarrow> nat \<Rightarrow> string" where
  "code_at r k = fst (generateGameCode 6 (((\<lambda>r. snd (generateGameCode 6 r)) ^^ k) r))"

lemma code_loop_free:
  "getGameIdByCode (fst (code_loop n code app r)) app = '''' \<or> (\<forall>k < n. getGameIdByCode (code_at r k) app \<noteq> '''')"
proof (induction n arbitrary: code r)
  case (Suc n)
  obtain code' r' where g: "generateGameCode 6 r = (code', r')" by (cases "generateGameCode 6 r")
  then have at: "code_at r 0 = code'" "code_at r (Suc k) = code_at r' k" for k
    by (simp_all add: code_at_def funpow_Suc_right del: funpow.simps(2))
  show ?case
  proof (cases "getGameIdByCode code' app = ''''")
    case False
    then have "getGameIdByCode (code_at r k) app \<noteq> ''''" if "k < Suc n"
      "\<forall>k < n. getGameIdByCode (code_at r' k) app \<noteq> ''''" for k
      using that at by (cases k) simp_all
    then show ?thesis using Suc.IH [of code' r'] False g by auto
  qed (use g in simp)
qed simp

lemma code_loop_new: "new_code app r = code_loop 20 '''' app r"
  using code_loop_shape [of 20 "''''" app r] by (auto simp: new_code_def split_beta Let_def)

lemma code_loop_games:
  "activeGames app = activeGames app' \<Longrightarrow> code_loop n code app r = code_loop n code app' r"
  by (induction n arbitrary: code r) (simp_all add: getGameIdByCode_def split_beta Let_def)

lemma next_seed_keeps [simp]:
  "activeGames (snd (next_seed app)) = activeGames app" "app_store (snd (next_seed app)) = app_store app"
  "app_db (snd (next_seed app)) = app_db app" "app_rng (snd (next_seed app)) = app_rng app"
  "maxGamesPerServer (snd (next_seed app)) = maxGamesPerServer app"
  by (simp_all add: next_seed_def split: list.split)

text \<open>C26: A new game.  When the server is full, nothing changes but the generators.  Otherwise the game gets
  the next id, is an empty lobby with the given configuration, and a code that leads to no other game,
  unless twenty generated codes in a row lead to one; every other game is left as it is, and the new
  game is saved.\<close>

theorem create_game_exact:
  assumes "map_wf (activeGames app)"
  shows "let (gid, app') = createGame cfg app
    in if length (activeGames app) \<ge> to_size_t (maxGamesPerServer app)
       then gid = '''' \<and> activeGames app' = activeGames app \<and> app_store app' = app_store app
       else gid = generateGameId app \<and>
         (\<exists>eng. getGame gid app' = Some eng \<and> phase (eng_state eng) = LOBBY \<and> players (eng_state eng) = [] \<and>
            config (eng_state eng) = cfg \<and> gameId (eng_state eng) = gid \<and>
            (getGameIdByCode (gameCode (eng_state eng)) app = '''' \<or>
             (\<forall>k < 20. getGameIdByCode (code_at (app_rng app) k) app \<noteq> '''')) \<and>
            app_store app' = app_store app @ (if app_db app then [SaveGame (eng_state eng)] else [])) \<and>
         (\<forall>g. g = gid \<or> getGame g app' = getGame g app)"
proof -
  let ?app1 = "app\<lparr>app_counter := app_counter app + 1\<rparr>"
  obtain seed app1 where n: "next_seed ?app1 = (seed, app1)" by (cases "next_seed ?app1")
  have kept: "activeGames app1 = activeGames app" "app_store app1 = app_store app" "app_db app1 = app_db app"
    "maxGamesPerServer app1 = maxGamesPerServer app"
    using next_seed_keeps [of ?app1, unfolded n] by simp_all
  obtain code r where c: "new_code app1 (app_rng app) = (code, r)" "code = fst (code_loop 20 '''' app (app_rng app))"
    using code_loop_new code_loop_games [OF kept(1)] by (metis prod.collapse)
  have rng: "app_rng app1 = app_rng app" using next_seed_keeps(4) [of ?app1, unfolded n] by simp
  have free: "getGameIdByCode code app = '''' \<or> (\<forall>k < 20. getGameIdByCode (code_at (app_rng app) k) app \<noteq> '''')"
    using code_loop_free [of 20 "''''" app "app_rng app"] c(2) by simp
  show ?thesis
    using assms kept c(1) free
    by (simp add: createGame_def n [simplified] rng Let_def split_beta getGame_def put_engine_def store_def engine_new_def
        state_initialize_def state_new_def get_put)
qed

theorem create_game_exact_witness:
  "\<exists>gid app' eng. createGame default_config (app_new 1 True 0 0 0 [] []) = (gid, app') \<and> gid \<noteq> '''' \<and>
     getGame gid app' = Some eng \<and> phase (eng_state eng) = LOBBY \<and> app_store app' = [SaveGame (eng_state eng)]"
proof -
  obtain gid app' where c: "createGame default_config (app_new 1 True 0 0 0 [] []) = (gid, app')" by fastforce
  have "map_wf (activeGames (app_new 1 True 0 0 0 [] []))" by (simp add: app_new_def map_wf_def)
  note new = create_game_exact [OF this, of default_config, unfolded c]
  have "\<not> length (activeGames (app_new 1 True 0 0 0 [] [])) \<ge> to_size_t (maxGamesPerServer (app_new 1 True 0 0 0 [] []))"
    "app_store (app_new 1 True 0 0 0 [] []) = []" "app_db (app_new 1 True 0 0 0 [] [])"
    "generateGameId (app_new 1 True 0 0 0 [] []) \<noteq> ''''"
    by (simp_all add: app_new_def to_size_t_def generateGameId_def)
  then show ?thesis using new c by auto
qed

end
