(* ===== verification/Whot_HandlerProps.thy ===== *)
theory Whot_HandlerProps
  imports Whot_AppProps Whot_CoreProps
begin

text \<open>
  Who is sent what, and what a single handler may change: the broadcast of a state, starting a game,
  refused actions, clearing stale lobbies, lost connections and unreadable texts.
\<close>

section \<open>Frames\<close>

text \<open>What the transport is given for a text to a session.\<close>

definition frames_for :: "WebSocketServer \<Rightarrow> string \<Rightarrow> string \<Rightarrow> (nat \<times> string) list" where
  "frames_for ws sid data =
     (case map_get (session_to_hdl ws) sid of
        None \<Rightarrow> [] | Some h \<Rightarrow> if ws_running ws then [(h, data)] else [])"

lemma app_send_frames:
  "ws_frames (app_ws (app_send L sid m app)) =
     ws_frames (app_ws app) @ frames_for (app_ws app) sid (serialize (lib_dump L) m)"
  by (simp add: app_send_def sendMessage_def ws_send_def frames_for_def Let_def split: option.split)

lemma frames_for_send [simp]: "frames_for (app_ws (app_send L sid m app)) = frames_for (app_ws app)"
  by (rule ext)+ (simp add: frames_for_def app_send_def split: option.split)

lemma fold_send_frames:
  "ws_frames (app_ws (fold (\<lambda>(sid, pid). send_state L gid gs ts sid pid) ps app)) =
     ws_frames (app_ws app) @
     concat (map (\<lambda>(sid, pid). frames_for (app_ws app) sid (serialize (lib_dump L) (state_message L gid pid gs ts))) ps)"
  by (induction ps arbitrary: app) (auto simp: send_state_def app_send_frames)

lemma broadcast_frames:
  "ws_frames (app_ws (broadcastGameState L gid app)) = ws_frames (app_ws app) @
     (case getGame gid app of
        None \<Rightarrow> []
      | Some eng \<Rightarrow>
          concat (map (\<lambda>sid. frames_for (app_ws app) sid (serialize (lib_dump L)
              (state_message L gid (session_player (app_sessions app) sid) (eng_state eng) (app_wall app))))
            (getSessionsForGame gid (app_sessions app))))"
proof -
  have get: "getGame gid (touchGameActivity gid app) = getGame gid app" by (simp add: getGame_def)
  show ?thesis
    by (simp add: broadcastGameState_def Let_def get fold_send_frames o_def split: option.split)
qed

text \<open>C19: A broadcast gives nothing away.  Take two servers with the same connections and sessions whose
  games differ only in what the player of each session of the game may not see; the broadcast hands
  the transport exactly the same texts for exactly the same connections.\<close>

theorem broadcast_gives_nothing_away:
  assumes "app_ws app' = app_ws app" "app_wall app' = app_wall app"
    "getGame gid app = Some eng" "getGame gid app' = Some eng'"
    "\<forall>sid \<in> set (getSessionsForGame gid (app_sessions app)).
       alike (session_player (app_sessions app) sid) (eng_state eng) (eng_state eng')"
  shows "ws_frames (app_ws (broadcastGameState L gid app')) = ws_frames (app_ws (broadcastGameState L gid app))"
proof -
  have "state_message L gid (session_player (app_sessions app) sid) (eng_state eng') ts =
      state_message L gid (session_player (app_sessions app) sid) (eng_state eng) ts"
    if "sid \<in> set (getSessionsForGame gid (app_sessions app))" for sid ts
    using bspec [OF assms(5) that] unfolding alike_def state_message_def
    by (subst alike_view [where d = "deck (eng_state eng')" and dp = "discardPile (eng_state eng')"]) auto
  then show ?thesis
    unfolding broadcast_frames assms(1,2,3,4) by (simp cong: map_cong)
qed

definition sample_lib :: JsonLib where
  "sample_lib = \<lparr>lib_parse = \<lambda>s. None, lib_dump = \<lambda>j. ''''\<rparr>"

definition sample_session :: Session where
  "sample_session = \<lparr>sess_sessionId = ''s'', sess_playerId = ''a'', sess_gameId = ''g'',
     sess_lastActivity = 0, sess_ipAddress = [], sess_metadata = [], sess_authenticated = False\<rparr>"

definition sample_app :: "Card list \<Rightarrow> Application" where
  "sample_app cs = (app_new 100 False 0 0 0 [] [])
     \<lparr>activeGames := [(''g'', sample_engine [Card STAR ONE] cs (Card STAR TEN))],
      app_ws := (ws_start ws_new)
        \<lparr>ws_sessions := [(''s'', sample_session)],
         hdl_to_session := [(1, ''s'')], session_to_hdl := [(''s'', 1)]\<rparr>\<rparr>"

lemma sample_app_parts [simp]:
  "activeGames (sample_app cs) = [(''g'', sample_engine [Card STAR ONE] cs (Card STAR TEN))]"
  "map_wf (activeGames (sample_app cs))"
  "getGame ''g'' (sample_app cs) = Some (sample_engine [Card STAR ONE] cs (Card STAR TEN))"
  "getGame '''' (sample_app cs) = None" "getGame ''nowhere'' (sample_app cs) = None"
  "app_sessions (sample_app cs) = [(''s'', sample_session)]" "ws_frames (app_ws (sample_app cs)) = []"
  "ws_running (app_ws (sample_app cs))" "ws_timeout (app_ws (sample_app cs)) = 60"
  "hdl_to_session (app_ws (sample_app cs)) = [(1, ''s'')]"
  "session_to_hdl (app_ws (sample_app cs)) = [(''s'', 1)]"
  "app_junk (sample_app cs) = 0" "app_wall (sample_app cs) = 0" "app_steady (sample_app cs) = 0"
  by (simp_all add: sample_app_def app_new_def map_wf_def getGame_def map_get_def ws_start_def ws_new_def)

lemma sample_registry [simp]:
  "sessions_ok [(''s'', sample_session)]" "map_wf [(''s'', sample_session)]"
  "getSession ''s'' [(''s'', sample_session)] = Some sample_session"
  "getSessionIdForPlayer ''a'' [(''s'', sample_session)] = ''s''"
  "sess_gameId sample_session = ''g''" "sess_playerId sample_session = ''a''" "sess_lastActivity sample_session = 0"
  by (simp_all add: sample_session_def sessions_ok_def map_wf_def getSession_def map_get_def
      getSessionIdForPlayer_def keys_where_def)

theorem broadcast_gives_nothing_away_witness:
  "ws_frames (app_ws (broadcastGameState sample_lib ''g'' (sample_app [Card CROSS TEN]))) =
   ws_frames (app_ws (broadcastGameState sample_lib ''g'' (sample_app [Card STAR TWO])))"
  by (rule broadcast_gives_nothing_away)
    (auto simp: sample_app_def app_new_def getGame_def map_get_def getSessionsForGame_def keys_where_def
      session_player_def getSession_def alike_def sample_defs sample_session_def less_Suc_eq hand_length_def)


section \<open>Starting a game\<close>

text \<open>Who may start a game, and the answer to anybody else.\<close>

definition may_start :: "string \<Rightarrow> string \<Rightarrow> Application \<Rightarrow> bool" where
  "may_start gid pid app =
     (case getGame gid app of
        None \<Rightarrow> False
      | Some eng \<Rightarrow> pid \<noteq> '''' \<and> phase (eng_state eng) = LOBBY \<and> creatorPlayerId (eng_state eng) = pid \<and>
          to_size_t (minPlayers (config (eng_state eng))) \<le> getPlayerCount (eng_state eng))"

text \<open>A handler only answered: everything is as before, but for one text to one session.\<close>

definition only_answered :: "JsonLib \<Rightarrow> string \<Rightarrow> Message \<Rightarrow> Application \<Rightarrow> Application \<Rightarrow> bool" where
  "only_answered L sid m app app' \<longleftrightarrow>
     activeGames app' = activeGames app \<and> gameActivity app' = gameActivity app \<and>
     app_sessions app' = app_sessions app \<and> app_store app' = app_store app \<and> app_rng app' = app_rng app \<and>
     ws_frames (app_ws app') = ws_frames (app_ws app) @ frames_for (app_ws app) sid (serialize (lib_dump L) m)"

lemma only_answered_send: "only_answered L sid m app (app_send L sid m app)"
  by (simp add: only_answered_def app_send_frames)

text \<open>C20: Only the creator of a game, while it is in its lobby and has enough players, starts it: then its
  first round is dealt, it is saved, and the bots move.  Every other request to start only gets an
  error back.\<close>

theorem start_game_guard:
  assumes "handleStartGame L sid m app = Some app'" "session_defaults sid m app = (gid, pid)"
    "map_wf (activeGames app)"
  shows "if may_start gid pid app
     then \<exists>eng eng1 app1. getGame gid app = Some eng \<and>
            eng1 = startNewRound (app_steady app) (engine_startGame eng) \<and> getGame gid app1 = Some eng1 \<and>
            app_store app1 = app_store app @ (if app_db app then [SaveGame (eng_state eng1)] else []) \<and>
            runBotTurnsIfNeeded L gid app1 = Some app'
     else \<exists>what. only_answered L sid
            \<lparr>msg_type = MSG_ERROR, msg_playerId = pid, msg_gameId = gid,
             msg_payload = lib_dump L (error_json
               \<lparr>error_errorCode = ''START_GAME'', error_message = what, error_field = None\<rparr>),
             msg_timestamp = app_junk app\<rparr> app app'"
proof (cases "may_start gid pid app")
  case True
  then obtain eng where eng: "getGame gid app = Some eng" by (auto simp: may_start_def split: option.splits)
  let ?eng1 = "startNewRound (app_steady app) (engine_startGame eng)"
  let ?app1 = "broadcastGameState L gid (store (SaveGame (eng_state ?eng1)) (put_new_round gid (engine_startGame eng) app))"
  have "runBotTurnsIfNeeded L gid ?app1 = Some app'"
    using assms(1,2) True eng by (simp add: handleStartGame_def may_start_def Let_def)
  moreover have "getGame gid ?app1 = Some ?eng1" using assms(3) by (simp add: getGame_def get_put)
  moreover have "app_store ?app1 = app_store app @ (if app_db app then [SaveGame (eng_state ?eng1)] else [])"
    by (simp add: store_def)
  ultimately have "\<exists>app1. getGame gid app1 = Some ?eng1 \<and>
      app_store app1 = app_store app @ (if app_db app then [SaveGame (eng_state ?eng1)] else []) \<and>
      runBotTurnsIfNeeded L gid app1 = Some app'" by blast
  then show ?thesis using True eng by simp
next
  case False
  then obtain what where "app' = start_error L sid gid pid what app"
    using assms(1,2) by (auto simp: handleStartGame_def may_start_def Let_def split: option.splits if_splits)
  then have "only_answered L sid
      \<lparr>msg_type = MSG_ERROR, msg_playerId = pid, msg_gameId = gid,
       msg_payload = lib_dump L (error_json
         \<lparr>error_errorCode = ''START_GAME'', error_message = what, error_field = None\<rparr>),
       msg_timestamp = app_junk app\<rparr> app app'"
    by (simp add: start_error_def only_answered_send)
  then show ?thesis using False by auto
qed

theorem start_game_guard_witness:
  "\<exists>what app'. handleStartGame sample_lib ''s'' \<lparr>msg_type = MSG_START_GAME, msg_playerId = ''b'', msg_gameId = ''g'',
     msg_payload = '''', msg_timestamp = 0\<rparr> (sample_app []) = Some app' \<and>
   only_answered sample_lib ''s'' \<lparr>msg_type = MSG_ERROR, msg_playerId = ''b'', msg_gameId = ''g'',
     msg_payload = lib_dump sample_lib (error_json
       \<lparr>error_errorCode = ''START_GAME'', error_message = what, error_field = None\<rparr>),
     msg_timestamp = 0\<rparr> (sample_app []) app'"
proof -
  let ?m = "\<lparr>msg_type = MSG_START_GAME, msg_playerId = ''b'', msg_gameId = ''g'', msg_payload = '''', msg_timestamp = 0\<rparr>"
  have d: "session_defaults ''s'' ?m (sample_app []) = (''g'', ''b'')"
    by (simp add: session_defaults_def split: option.split)
  have started: "phase (sample_state [Card STAR ONE] [] (Card STAR TEN)) \<noteq> LOBBY"
    by (simp add: sample_defs)
  then have refused: "handleStartGame sample_lib ''s'' ?m (sample_app []) =
      Some (start_error sample_lib ''s'' ''g'' ''b'' ''Game already started'' (sample_app []))"
    using d by (simp add: handleStartGame_def sample_app_def app_new_def getGame_def map_get_def Let_def)
  have "\<not> may_start ''g'' ''b'' (sample_app [])"
    using started by (simp add: may_start_def sample_app_def getGame_def map_get_def)
  moreover have "map_wf (activeGames (sample_app []))" by (simp add: sample_app_def map_wf_def)
  moreover have "app_junk (sample_app []) = 0" by (simp add: sample_app_def app_new_def)
  ultimately show ?thesis using start_game_guard [OF refused d] refused by auto
qed

section \<open>Refused actions\<close>

lemma map_put_same: "map_wf m \<Longrightarrow> map_get m k = Some v \<Longrightarrow> map_put k v m = m"
  unfolding map_get_def by (induction k v m rule: map_put.induct) (force simp: map_wf_Cons dest: map_of_SomeD)+

text \<open>C23: A player whose action the engine refuses, out of turn or for another reason, changes no
  game, no session and nothing in the database; the session gets one error back, and no other session
  hears of it.\<close>

theorem refused_action_only_answered:
  assumes "session_defaults sid m app = (gid, pid)" "getGame gid app = Some eng" "pid \<noteq> ''''"
    "action_of_message L pid m = Some a" "processAction a eng = Some (res, eng')" "\<not> res_success res"
    "map_wf (activeGames app)"
  shows "\<exists>app'. handleGameAction L sid m app = Some app' \<and> only_answered L sid
    \<lparr>msg_type = MSG_ERROR, msg_playerId = pid, msg_gameId = gid,
     msg_payload = lib_dump L (json_object
       [(''message'', JString (res_message res)), (''errorCode'', JString ''invalid_action'')]),
     msg_timestamp = app_wall app\<rparr> app app'"
proof -
  have same: "put_engine gid eng' app = app"
    using map_put_same [OF assms(7)] assms(2) refused_unchanged [OF assms(5,6)]
    by (simp add: put_engine_def getGame_def)
  have "handleGameAction L sid m app = Some (action_error L sid gid pid (res_message res) app)"
    using assms(1-6) same refused_unchanged [OF assms(5,6)]
    by (simp add: handleGameAction_def answer_dumped_def Let_def)
  then show ?thesis using only_answered_send by (simp add: action_error_def)
qed

theorem refused_action_only_answered_witness:
  "\<exists>app'. handleGameAction sample_lib ''s'' \<lparr>msg_type = MSG_DRAW_CARD, msg_playerId = ''b'', msg_gameId = ''g'',
      msg_payload = '''', msg_timestamp = 0\<rparr> (sample_app []) = Some app' \<and>
    activeGames app' = activeGames (sample_app [])"
proof -
  let ?m = "\<lparr>msg_type = MSG_DRAW_CARD, msg_playerId = ''b'', msg_gameId = ''g'', msg_payload = '''', msg_timestamp = 0\<rparr>"
  let ?a = "\<lparr>act_type = DRAW_CARD, act_playerId = ''b'', act_cardIndex = None, act_chosenSuit = None,
    act_chosenDirection = None, act_metadata = ''''\<rparr>"
  have 1: "session_defaults ''s'' ?m (sample_app []) = (''g'', ''b'')"
    by (simp add: session_defaults_def split: option.split)
  have 2: "getGame ''g'' (sample_app []) = Some (sample_engine [Card STAR ONE] [] (Card STAR TEN))"
    by (simp add: sample_app_def getGame_def map_get_def)
  have 3: "action_of_message sample_lib ''b'' ?m = Some ?a" by (simp add: action_of_message_def)
  have 4: "processAction ?a (sample_engine [Card STAR ONE] [] (Card STAR TEN)) =
      Some (res_fail ''Invalid action'', sample_engine [Card STAR ONE] [] (Card STAR TEN))"
    by (simp add: processAction_def isValidAction_def getCurrentPlayerId_def getCurrentPlayer_def sample_defs Let_def)
  have 5: "map_wf (activeGames (sample_app []))" by (simp add: sample_app_def map_wf_def)
  show ?thesis
    using refused_action_only_answered [OF 1 2 _ 3 4 _ 5] by (auto simp: only_answered_def res_fail_def)
qed

section \<open>Joining\<close>

lemma joinGame_new:
  assumes "getGame gid app = Some eng" "phase (eng_state eng) = LOBBY" "getPlayer pid (eng_state eng) = None"
    "getPlayerCount (eng_state eng) < to_size_t (maxPlayers (config (eng_state eng)))"
  shows "\<exists>app' p. joinGame gid pid name app = (True, app') \<and> player_id p = pid \<and>
    activeGames app' = map_put gid (eng\<lparr>eng_state := addPlayer (Some p) (eng_state eng)\<rparr>) (activeGames app)"
proof -
  let ?p = "player_new (app_steady app) pid (if name = '''' then pid else name) HUMAN"
  have "player_id ?p = pid" by (simp add: player_new_def)
  then show ?thesis using assms by (auto simp: joinGame_def Let_def split: option.split intro!: exI [of _ ?p])
qed

lemma joinGame_old:
  assumes "getGame gid app = Some eng"
    "\<not> (phase (eng_state eng) = LOBBY \<and> getPlayer pid (eng_state eng) = None \<and>
       getPlayerCount (eng_state eng) < to_size_t (maxPlayers (config (eng_state eng))))"
  shows "joinGame gid pid name app = (phase (eng_state eng) = LOBBY \<and> getPlayer pid (eng_state eng) \<noteq> None, app)"
  using assms by (auto simp: joinGame_def Let_def)

definition seat_ids :: "string \<Rightarrow> Application \<Rightarrow> string list" where
  "seat_ids gid app =
     (case getGame gid app of None \<Rightarrow> [] | Some eng \<Rightarrow> map player_id (players (eng_state eng)))"

text \<open>A player gets into a game exactly when the game is in its lobby and has a free seat or already has
  the player; a new player takes the last seat, nobody else's seat changes, and no other game is
  touched.\<close>

theorem join_game_exact:
  assumes "map_wf (activeGames app)"
  shows "let (joined, app') = joinGame gid pid name app
     in (case getGame gid app of
           None \<Rightarrow> \<not> joined
         | Some eng \<Rightarrow> joined = (phase (eng_state eng) = LOBBY \<and>
             (pid \<in> set (seat_ids gid app) \<or>
              length (seat_ids gid app) < to_size_t (maxPlayers (config (eng_state eng)))))) \<and>
        seat_ids gid app' =
          (if joined \<and> pid \<notin> set (seat_ids gid app) then seat_ids gid app @ [pid] else seat_ids gid app) \<and>
        (\<forall>g. g = gid \<or> getGame g app' = getGame g app)"
proof (cases "getGame gid app")
  case (Some eng)
  let ?gs = "eng_state eng"
  have ids: "seat_ids gid app = map player_id (players ?gs)" using Some by (simp add: seat_ids_def)
  have find: "getPlayer pid ?gs = None \<longleftrightarrow> pid \<notin> set (seat_ids gid app)"
    unfolding ids by (auto simp: getPlayer_def)
  have count: "getPlayerCount ?gs = length (seat_ids gid app)" unfolding ids by (simp add: getPlayerCount_def)
  show ?thesis
  proof (cases "phase ?gs = LOBBY \<and> getPlayer pid ?gs = None \<and>
      getPlayerCount ?gs < to_size_t (maxPlayers (config ?gs))")
    case True
    then obtain app' p where j: "joinGame gid pid name app = (True, app')" "player_id p = pid"
        "activeGames app' = map_put gid (eng\<lparr>eng_state := addPlayer (Some p) ?gs\<rparr>) (activeGames app)"
      using joinGame_new [OF Some, of pid name] by blast
    have "seat_ids gid app' = seat_ids gid app @ [pid]"
      using j(2,3) True ids assms
      by (simp add: seat_ids_def getGame_def get_put addPlayer_def getPlayerCount_def Let_def)
    moreover have "getGame g app' = getGame g app" if "g \<noteq> gid" for g
      using that j(3) assms by (simp add: getGame_def get_put)
    ultimately show ?thesis using j(1) True Some find count by (auto simp: Let_def)
  next
    case False
    show ?thesis
      unfolding joinGame_old [OF Some False] Let_def prod.case
      using False Some find count by auto
  qed
qed (simp add: joinGame_def seat_ids_def)

text \<open>The two players of the sample table, still in their lobby, last seen at time 0.\<close>

definition sample_lobby :: Application where
  "sample_lobby = (sample_app [])
     \<lparr>activeGames := [(''g'', engine_new 0 ((sample_state [] [] (Card STAR TEN))\<lparr>phase := LOBBY\<rparr>))],
      gameActivity := [(''g'', 0)], app_steady := 3600000000000\<rparr>"

lemma sample_lobby_parts [simp]:
  "map_wf (activeGames sample_lobby)" "map_wf (app_sessions sample_lobby)"
  "getGame ''g'' sample_lobby = Some (engine_new 0 ((sample_state [] [] (Card STAR TEN))\<lparr>phase := LOBBY\<rparr>))"
  "seat_ids ''g'' sample_lobby = [''a'', ''b'']" "app_steady sample_lobby = 3600000000000"
  "gameActivity sample_lobby = [(''g'', 0)]"
  by (simp_all add: sample_lobby_def map_wf_def getGame_def map_get_def seat_ids_def engine_new_def)

theorem join_game_exact_witness:
  "seat_ids ''g'' (snd (joinGame ''g'' ''c'' ''Carol'' sample_lobby)) = [''a'', ''b'', ''c'']"
  using join_game_exact [OF sample_lobby_parts(1), of "''g''" "''c''" "''Carol''"]
  by (simp add: Let_def split_beta engine_new_def sample_state_def default_config_def to_size_t_def)

section \<open>Stale lobbies\<close>

definition is_stale :: "int \<Rightarrow> Application \<Rightarrow> string \<Rightarrow> bool" where
  "is_stale seconds app gid \<longleftrightarrow>
     (case (getGame gid app, map_get (gameActivity app) gid) of
        (Some eng, Some t) \<Rightarrow> phase (eng_state eng) = LOBBY \<and> app_steady app - t \<ge> seconds * 1000000000
      | _ \<Rightarrow> False)"

lemma set_stale_lobbies:
  assumes "map_wf (activeGames app)"
  shows "set (stale_lobbies (n * 1000000000) app) = Collect (is_stale n app)"
proof (rule set_eqI)
  fix gid
  have "gid \<in> set (stale_lobbies (n * 1000000000) app) \<longleftrightarrow>
      (\<exists>eng. (gid, eng) \<in> set (activeGames app) \<and> phase (eng_state eng) = LOBBY \<and>
         (case map_get (gameActivity app) gid of
            None \<Rightarrow> False | Some t \<Rightarrow> app_steady app - t \<ge> n * 1000000000))"
    by (auto simp: stale_lobbies_def image_iff)
  also have "\<dots> \<longleftrightarrow> gid \<in> Collect (is_stale n app)"
    unfolding get_Some [OF assms, symmetric]
    by (auto simp: is_stale_def getGame_def split: option.splits)
  finally show "gid \<in> set (stale_lobbies (n * 1000000000) app) \<longleftrightarrow> gid \<in> Collect (is_stale n app)" .
qed

lemma removeGames_games:
  "getGame g (fold removeGame gids app) = (if g \<in> set gids then None else getGame g app)"
  by (induction gids arbitrary: app) (auto simp: removeGame_def getGame_def get_del)

lemma removeGames_store:
  "app_store (fold removeGame gids app) = app_store app @ (if app_db app then map DeleteGame gids else [])"
  by (induction gids arbitrary: app) (auto simp: removeGame_def store_def)

lemma removeGames_sessions:
  assumes "map_wf (app_sessions app)"
  shows "map_wf (app_sessions (fold removeGame gids app)) \<and>
    map_get (app_sessions (fold removeGame gids app)) i =
      (case map_get (app_sessions app) i of
         None \<Rightarrow> None | Some s \<Rightarrow> if sess_gameId s \<in> set gids then None else Some s)"
  using assms
proof (induction gids arbitrary: app)
  case (Cons g gids)
  have "map_wf (app_sessions (removeGame g app))"
    using Cons.prems by (simp add: removeGame_def removeAllSessionsForGame_def wf_del_if)
  then show ?case
    using Cons.IH [of "removeGame g app"] Cons.prems
    by (auto simp: removeGame_def removeAllSessionsForGame_def get_del_if split: option.split)
qed (simp split: option.split)

text \<open>C31: A request to clean up removes exactly the games still in their lobby whose last activity is at
  least the given time ago (never less than a minute), with their sessions and their database entries,
  and touches nothing else.\<close>

theorem cleanup_exact:
  assumes "map_wf (activeGames app)" "map_wf (app_sessions app)"
  shows "let app' = snd (handleCleanupStaleLobbies L req app); gone = is_stale (max_idle req) app
     in 60 \<le> max_idle req \<and>
        (\<forall>g. getGame g app' = (if gone g then None else getGame g app)) \<and>
        (\<forall>i. map_get (app_sessions app') i =
           (case map_get (app_sessions app) i of
              None \<Rightarrow> None | Some s \<Rightarrow> if gone (sess_gameId s) then None else Some s)) \<and>
        (\<exists>ids. set ids = Collect gone \<and>
           app_store app' = app_store app @ (if app_db app then map DeleteGame ids else []))"
proof -
  let ?ids = "stale_lobbies (max_idle req * 1000000000) app"
  obtain j where app': "snd (handleCleanupStaleLobbies L req app) = dumped j (fold removeGame ?ids app)"
    by (simp add: handleCleanupStaleLobbies_def remove_stale_def Let_def)
  have ids: "set ?ids = Collect (is_stale (max_idle req) app)" by (rule set_stale_lobbies [OF assms(1)])
  have "60 \<le> max_idle req" by (simp add: max_idle_def Let_def)
  then show ?thesis
    unfolding app' Let_def getGame_dumped dumped_frame
    using removeGames_games [of _ ?ids app] removeGames_sessions [OF assms(2), of ?ids] ids
      removeGames_store [of ?ids app]
    by (auto split: option.split)
qed

theorem cleanup_exact_witness:
  "getGame ''g'' (snd (handleCleanupStaleLobbies sample_lib \<lparr>req_method = POST, req_path = '''', req_headers = [],
     req_queryParams = [(''maxIdleSeconds'', int_to_string 5)], req_pathParams = [], req_body = []\<rparr> sample_lobby)) = None"
proof -
  let ?req = "\<lparr>req_method = POST, req_path = '''', req_headers = [],
     req_queryParams = [(''maxIdleSeconds'', int_to_string 5)], req_pathParams = [], req_body = []\<rparr>"
  have "max_idle ?req = 60"
    by (simp add: max_idle_def query_int_def map_get_def stoi_int_to_string)
  then have "is_stale (max_idle ?req) sample_lobby ''g''"
    by (simp add: is_stale_def engine_new_def map_get_def)
  then show ?thesis
    using cleanup_exact [OF sample_lobby_parts(1,2), of sample_lib ?req] by (simp add: Let_def)
qed

section \<open>Lost connections\<close>

text \<open>C32: A player's connection closes: the player leaves the game.  If the session of that connection is the one
  the registry finds for the player, nobody is told: the handler passes the game id by reference out of
  the very session that \<open>leaveGame\<close> resets, so the broadcast is made for the empty id.  If the player has another
  session, which is found first, that one is reset instead and the game is told.\<close>

theorem disconnect_tells_nobody:
  assumes "sessions_ok (app_sessions app)" "map_wf (activeGames app)"
    "getSession sid (app_sessions app) = Some s" "sess_gameId s \<noteq> ''''" "sess_playerId s \<noteq> ''''"
    "getGame (sess_gameId s) app = Some eng" "getGame '''' app = None"
    "getSessionIdForPlayer (sess_playerId s) (app_sessions app) = found" "found \<noteq> ''''"
  shows "let gid = sess_gameId s; eng1 = eng\<lparr>eng_state := removePlayer (sess_playerId s) (eng_state eng)\<rparr>;
      app' = handleDisconnection L sid app
     in getGame gid app' = Some eng1 \<and>
        (if found = sid then ws_frames (app_ws app') = ws_frames (app_ws app)
         else app' = broadcastGameState L gid
           (on_registry (setPlayerId found '''') (on_registry (setGameId found '''') (put_engine gid eng1 app))))"
proof -
  let ?gref = "\<lambda>app'. case getSession sid (app_sessions app') of Some s' \<Rightarrow> sess_gameId s' | None \<Rightarrow> ''''"
  let ?app1 = "put_engine (sess_gameId s) (eng\<lparr>eng_state := removePlayer (sess_playerId s) (eng_state eng)\<rparr>) app"
  let ?app2 = "on_registry (setPlayerId found '''') (on_registry (setGameId found '''') ?app1)"
  have wf: "map_wf (app_sessions app)" using assms(1) by (simp add: sessions_ok_def)
  have ref: "?gref app = sess_gameId s" using assms(3) by simp
  have ref2: "?gref ?app2 = (if found = sid then '''' else sess_gameId s)"
    using assms(3) wf
    by (simp add: getSession_def setPlayerId_def setGameId_def get_modify wf_modify put_engine_def)
  have "handleDisconnection L sid app = snd (leaveGame L ?gref (sess_playerId s) app)"
    using assms(3-5) by (simp add: handleDisconnection_def)
  also have "\<dots> = broadcastGameState L (?gref ?app2) ?app2"
    using assms(6,8,9) ref by (simp add: leaveGame_def Let_def put_engine_def)
  finally have app': "handleDisconnection L sid app = broadcastGameState L (if found = sid then '''' else sess_gameId s) ?app2"
    unfolding ref2 .
  have "getGame '''' ?app2 = None"
    using assms(2,4,7) by (simp add: getGame_def get_put)
  then show ?thesis
    unfolding app' Let_def using assms(2)
    by (simp add: broadcast_frames) (simp add: getGame_def get_put put_engine_def)
qed

theorem disconnect_tells_nobody_witness:
  "ws_frames (app_ws (handleDisconnection sample_lib ''s'' (sample_app []))) = []"
  using disconnect_tells_nobody [of "sample_app []" "''s''" sample_session
      "sample_engine [Card STAR ONE] [] (Card STAR TEN)"]
  by (simp add: Let_def map_wf_def)

text \<open>C33: A player whose connection was idle for too long stays in the game as a ghost: the sweep removes the
  session before it has the connection closed, so the disconnection handler finds no session and does
  nothing.\<close>

theorem timed_out_player_stays:
  assumes "map_wf (app_sessions app)" "ws_running (app_ws app)" "0 < ws_timeout (app_ws app)"
    "map_get (hdl_to_session (app_ws app)) h = Some sid" "map_get (session_to_hdl (app_ws app)) sid = Some h"
    "getSession sid (app_sessions app) = Some s"
    "app_steady app - sess_lastActivity s > ws_timeout (app_ws app) * 1000000000"
  shows "let app1 = timeouts_checked app
     in getSession sid (app_sessions app1) = None \<and> h \<in> set (ws_closing (app_ws app1)) \<and>
        activeGames (connection_closed L h app1) = activeGames app"
proof -
  let ?ws = "app_ws app"
  obtain expired m where r: "removeExpiredSessions (ws_timeout ?ws) (app_steady app) (ws_sessions ?ws) = (expired, m)"
    by (cases "removeExpiredSessions (ws_timeout ?ws) (app_steady app) (ws_sessions ?ws)")
  then have eqs: "expired = keys_where (\<lambda>s. sess_lastActivity s < app_steady app - ws_timeout ?ws * 1000000000) (ws_sessions ?ws)"
      "m = map_del_if (\<lambda>s. sess_lastActivity s < app_steady app - ws_timeout ?ws * 1000000000) (ws_sessions ?ws)"
    using assms(3) by (simp_all add: removeExpiredSessions_def Let_def)
  have gone: "map_get m sid = None"
    using assms(6,7) by (simp add: eqs(2) std_map.lookup_erase_if [OF assms(1)] getSession_def)
  have "sid \<in> set expired"
    using assms(6,7) by (simp add: eqs(1) std_map.select_set [OF assms(1)] getSession_def)
  moreover have closing: "h \<in> set (ws_closing (fold closeSession sids ws))"
    if "sid \<in> set sids \<or> h \<in> set (ws_closing ws)" "map_get (session_to_hdl ws) sid = Some h" for sids ws
    using that by (induction sids arbitrary: ws) (auto simp: closeSession_def split: option.split)
  ultimately have "h \<in> set (ws_closing (app_ws (timeouts_checked app)))"
    using assms(2,5) r by (simp add: timeouts_checked_def checkTimeouts_def)
  moreover have sessions: "app_sessions (timeouts_checked app) = m"
    using assms(2) r by (simp add: timeouts_checked_def checkTimeouts_def closeSessions_sessions)
  moreover have "activeGames (connection_closed L h (timeouts_checked app)) = activeGames app"
  proof -
    have "map_get (ws_sessions (snd (close_connection h (app_ws (timeouts_checked app))))) sid = None"
      using sessions gone by (simp add: close_connection_def split: option.split)
    moreover have "hdl_to_session (app_ws (timeouts_checked app)) = hdl_to_session ?ws"
    proof -
      have "hdl_to_session (fold closeSession sids ws) = hdl_to_session ws" for sids ws
        by (induction sids arbitrary: ws) simp_all
      then show ?thesis using assms(2) r by (simp add: timeouts_checked_def checkTimeouts_def)
    qed
    ultimately show ?thesis
      using assms(4) by (simp add: connection_closed_def close_connection_def handleDisconnection_def
          getSession_def Let_def timeouts_checked_def split: option.splits)
  qed
  ultimately show ?thesis using gone by (simp add: getSession_def Let_def)
qed

theorem timed_out_player_stays_witness:
  "activeGames (connection_closed sample_lib 1 (timeouts_checked ((sample_app [])\<lparr>app_steady := 61000000000\<rparr>))) =
   activeGames (sample_app [])"
  using timed_out_player_stays [of "(sample_app [])\<lparr>app_steady := 61000000000\<rparr>" 1 "''s''" sample_session]
  by (simp add: map_get_def Let_def)

section \<open>Unreadable texts\<close>

text \<open>A text that is not JSON does nothing but refresh the activity of its session: no game, no other
  session and no database entry changes, and nothing is sent.\<close>

theorem unreadable_text_ignored:
  assumes "lib_parse L data = None"
  shows "\<exists>app'. text_received L hdl data app = Some app' \<and> app' = app\<lparr>app_ws := app_ws app'\<rparr> \<and>
    ws_frames (app_ws app') = ws_frames (app_ws app) \<and>
    app_sessions app' = (case map_get (hdl_to_session (app_ws app)) hdl of
       None \<Rightarrow> app_sessions app
     | Some sid \<Rightarrow> if sid = '''' then app_sessions app else updateActivity sid (app_steady app) (app_sessions app))"
proof -
  have "msg_type (deserialize (lib_parse L) (lib_dump L) now data) = MSG_ERROR" for now
    using assms by (simp add: deserialize_def read_with_def)
  then have "handleClientMessage L sid (deserialize (lib_parse L) (lib_dump L) now data) app' = Some app'" for sid now app'
    by (simp add: handleClientMessage_def)
  then show ?thesis
    by (auto simp: text_received_def receive_def Let_def split: option.split)
qed

theorem unreadable_text_ignored_witness:
  "\<exists>app'. text_received \<lparr>lib_parse = \<lambda>s. None, lib_dump = \<lambda>j. ''''\<rparr> 1 ''hello'' (sample_app []) = Some app' \<and>
     ws_frames (app_ws app') = []"
  using unreadable_text_ignored [of "\<lparr>lib_parse = \<lambda>s. None, lib_dump = \<lambda>j. ''''\<rparr>" "''hello''" 1 "sample_app []"]
  by auto

end
