(* ===== verification/Whot_MessageProps.thy ===== *)
theory Whot_MessageProps
  imports Whot_Messages
begin

text \<open>
  The properties of the message protocol: what is written is read back, and what happens to a text
  that is not a message.
\<close>

section \<open>Trees written and read\<close>

lemma fold_put_get:
  "map_wf m \<Longrightarrow> map_wf (fold (\<lambda>(k, v). map_put k v) ms m) \<and>
   map_get (fold (\<lambda>(k, v). map_put k v) ms m) k =
     (case map_of (rev ms) k of Some v \<Rightarrow> Some v | None \<Rightarrow> map_get m k)"
proof (induction ms arbitrary: m)
  case (Cons kv ms)
  then show ?case
    by (cases kv) (auto simp: std_map.ok_insert std_map.lookup_insert map_add_def split: option.split)
qed (simp split: option.split)

lemma json_find_object [simp]: "json_find (json_object ms) k = map_of (rev ms) k"
  using fold_put_get [of "[]" ms k] by (simp add: json_object_def map_get_def split: option.split)

lemma try_steps_push:
  assumes "\<And>y. y \<in> set ys \<Longrightarrow> get (enc y) = Some y"
  shows "try_steps (map (\<lambda>x r. map_option (\<lambda>y. push y r) (get x)) (map enc ys) @ fs) r = try_steps fs (fold push ys r)"
  using assms by (induction ys arbitrary: r) simp_all

lemma try_steps_push_all:
  assumes "\<And>y. y \<in> set ys \<Longrightarrow> get (enc y) = Some y"
  shows "try_steps (map (\<lambda>x r. map_option (\<lambda>y. push y r) (get x)) (map enc ys)) r = fold push ys r"
  using try_steps_push [where fs = "[]" and get = get and enc = enc and ys = ys and push = push and r = r] assms
  by simp

lemma get_uint_of [simp]: "n < 2 ^ w \<Longrightarrow> get_uint w (JInt (int n)) = Some n"
  by (simp add: nat_mod_distrib nat_power_eq)

section \<open>Messages\<close>

text \<open>A message type as the code can hold it: an enumerator, or a number that is none.\<close>

definition message_type_ok :: "MessageType \<Rightarrow> bool" where
  "message_type_ok ty =
     (case ty of MSG_raw n \<Rightarrow> n < 2 ^ 16 \<and> map_of message_codes n = None | _ \<Rightarrow> True)"

lemma message_type_codes:
  "message_type_ok ty \<Longrightarrow> message_type_int ty < 2 ^ 16 \<and> cast_MessageType (message_type_int ty) = ty"
  by (cases ty) (simp_all add: message_type_ok_def message_type_int_def cast_MessageType_def message_codes_def)

lemma cast_ok: "n < 2 ^ 16 \<Longrightarrow> message_type_ok (cast_MessageType n) \<and> message_type_int (cast_MessageType n) = n"
  by (auto simp: cast_MessageType_def message_type_ok_def message_type_int_def message_codes_def split: if_splits)

text \<open>C37: A message read from the text it was written to is the same message, whatever the clock says,
  provided its type is one a cast can give and the JSON library reads back what it wrote.\<close>

theorem message_round_trip:
  assumes "parse (dump (message_json m)) = Some (message_json m)"
    "message_type_ok (msg_type m)" "msg_timestamp m < 2 ^ 64"
  shows "deserialize parse dump now (serialize dump m) = m"
  using assms(1,3) message_type_codes [OF assms(2)]
  by (simp add: deserialize_def serialize_def read_with_def message_steps_def read_field_def message_json_def)

theorem message_round_trip_witness:
  "deserialize (\<lambda>s. Some (message_json \<lparr>msg_type = MSG_PLAY_CARD, msg_playerId = ''p'', msg_gameId = ''g'',
       msg_payload = '''', msg_timestamp = 5\<rparr>)) (\<lambda>j. ''text'') 9
     (serialize (\<lambda>j. ''text'') \<lparr>msg_type = MSG_PLAY_CARD, msg_playerId = ''p'', msg_gameId = ''g'',
       msg_payload = '''', msg_timestamp = 5\<rparr>) =
   \<lparr>msg_type = MSG_PLAY_CARD, msg_playerId = ''p'', msg_gameId = ''g'', msg_payload = '''', msg_timestamp = 5\<rparr>"
  by (rule message_round_trip) (simp_all add: message_type_ok_def)

section \<open>Payloads\<close>

lemma fold_scores:
  "map_wf m \<Longrightarrow> map_wf ms \<Longrightarrow> (\<forall>k \<in> fst ` set m. \<forall>k' \<in> fst ` set ms. k < k') \<Longrightarrow>
   fold (\<lambda>(k, n). map_put k n) ms m = m @ ms"
proof (induction ms arbitrary: m)
  case (Cons kv ms)
  obtain k n where kv: "kv = (k, n)" by (cases kv)
  have last: "map_put k n m = m @ [(k, n)]" if "\<forall>k' \<in> fst ` set m. k' < k" for m :: "('a \<times> 'b) list"
    using that by (induction k n m rule: map_put.induct) auto
  have *: "map_put k n m = m @ [(k, n)]" using Cons.prems(3) kv by (intro last) auto
  have "map_wf (m @ [(k, n)])"
    using wf_put [OF Cons.prems(1), of k n] unfolding * .
  moreover have "\<forall>k1 \<in> fst ` set (m @ [(k, n)]). \<forall>k2 \<in> fst ` set ms. k1 < k2"
    using Cons.prems(2,3) kv by (auto simp: map_wf_Cons)
  ultimately show ?case using Cons.IH [of "m @ [(k, n)]"] Cons.prems(2) kv * by (auto simp: map_wf_Cons)
qed simp

lemma fold_pushes:
  "fold (\<lambda>n p. p\<lparr>play_additionalCards := play_additionalCards p @ [n]\<rparr>) ns p =
     p\<lparr>play_additionalCards := play_additionalCards p @ ns\<rparr>"
  "fold (\<lambda>s q. q\<lparr>update_visibleTo := update_visibleTo q @ [s]\<rparr>) ss q =
     q\<lparr>update_visibleTo := update_visibleTo q @ ss\<rparr>"
  "fold (\<lambda>s t. t\<lparr>ended_eliminatedPlayers := ended_eliminatedPlayers t @ [s]\<rparr>) ss t =
     t\<lparr>ended_eliminatedPlayers := ended_eliminatedPlayers t @ ss\<rparr>"
proof -
  show "fold (\<lambda>n p. p\<lparr>play_additionalCards := play_additionalCards p @ [n]\<rparr>) ns p =
     p\<lparr>play_additionalCards := play_additionalCards p @ ns\<rparr>" by (induction ns arbitrary: p) simp_all
  show "fold (\<lambda>s q. q\<lparr>update_visibleTo := update_visibleTo q @ [s]\<rparr>) ss q =
     q\<lparr>update_visibleTo := update_visibleTo q @ ss\<rparr>" by (induction ss arbitrary: q) simp_all
  show "fold (\<lambda>s t. t\<lparr>ended_eliminatedPlayers := ended_eliminatedPlayers t @ [s]\<rparr>) ss t =
     t\<lparr>ended_eliminatedPlayers := ended_eliminatedPlayers t @ ss\<rparr>" by (induction ss arbitrary: t) simp_all
qed

lemma push_fields_ints:
  "json_find j k = Some (JArray (map (\<lambda>n. JInt (int n)) ns)) \<Longrightarrow> \<forall>n \<in> set ns. n < 2 ^ 64 \<Longrightarrow>
   try_steps (push_fields j k (get_uint 64) push) r = fold push ns r"
  using try_steps_push_all [where get = "get_uint 64" and enc = "\<lambda>n. JInt (int n)" and ys = ns and push = push and r = r]
  by (simp add: push_fields_def)

lemma push_fields_strings:
  "json_find j k = Some (JArray (map JString ss)) \<Longrightarrow>
   try_steps (push_fields j k get_string push) r = fold push ss r"
  using try_steps_push_all [where get = get_string and enc = JString and ys = ss and push = push and r = r]
  by (simp add: push_fields_def)

lemma playCard_read_back:
  assumes "parse (dump (playCard_json p)) = Some (playCard_json p)" "play_cardIndex p < 2 ^ 64"
    "\<forall>n \<in> set (play_additionalCards p). n < 2 ^ 64"
  shows "playCard_fromJson parse (dump (playCard_json p)) = p"
proof -
  have more: "json_find (playCard_json p) ''additionalCards'' =
      Some (JArray (map (\<lambda>n. JInt (int n)) (play_additionalCards p)))"
    by (simp add: playCard_json_def)
  have finds: "json_find (playCard_json p) ''cardIndex'' = Some (JInt (int (play_cardIndex p)))"
    "json_find (playCard_json p) ''chosenSuit'' = map_option (\<lambda>s. JString (suitToString s)) (play_chosenSuit p)"
    "json_find (playCard_json p) ''reverseDirection'' = map_option JBool (play_reverseDirection p)"
    by (simp_all add: playCard_json_def opt_member_of_def split: option.split)
  show ?thesis
    unfolding playCard_fromJson_def read_with_def playCard_steps_def
    using assms(1,2)
    by (cases "play_chosenSuit p"; cases "play_reverseDirection p")
      (simp_all add: read_field_def finds push_fields_ints [OF more assms(3)] fold_pushes)
qed

lemma score_steps_read:
  assumes "\<forall>(k, n) \<in> set ms. to_int32 n = n"
  shows "try_steps (map (\<lambda>(k, v) p. map_option (\<lambda>n. p\<lparr>ended_scores := map_put k n (ended_scores p)\<rparr>) (get_int v))
      (map (\<lambda>(k, n). (k, JInt n)) ms) @ fs) p =
    try_steps fs (p\<lparr>ended_scores := fold (\<lambda>(k, n). map_put k n) ms (ended_scores p)\<rparr>)"
  using assms by (induction ms arbitrary: p) auto

lemma roundEnded_read_back:
  assumes "parse (dump (roundEnded_json p)) = Some (roundEnded_json p)" "map_wf (ended_scores p)"
    "\<forall>(k, n) \<in> set (ended_scores p). to_int32 n = n"
  shows "roundEnded_fromJson parse (dump (roundEnded_json p)) = p"
proof -
  let ?j = "roundEnded_json p"
  have finds: "json_find ?j ''winnerId'' = Some (JString (ended_winnerId p))"
    "json_find ?j ''scores'' = Some (JObject (map (\<lambda>(k, n). (k, JInt n)) (ended_scores p)))"
    "json_find ?j ''eliminatedPlayers'' = Some (JArray (map JString (ended_eliminatedPlayers p)))"
    by (simp_all add: roundEnded_json_def)
  have scores: "fold (\<lambda>(k, n). map_put k n) (ended_scores p) [] = ended_scores p"
    using fold_scores [OF map_wf_Nil assms(2)] by simp
  show ?thesis
    unfolding roundEnded_fromJson_def read_with_def roundEnded_steps_def
    using assms(1)
    by (simp add: read_field_def finds score_steps_def score_steps_read [OF assms(3)] scores
        push_fields_strings [OF finds(3)] fold_pushes del: map_map)
qed

text \<open>What the payloads of the protocol hold is read back from the text they are written to, with two
  exceptions: a join request loses its game code, which is never written, and a member that is not
  written comes back as absent.\<close>

theorem payload_round_trips:
  assumes "\<forall>j \<in> {joinGame_json jp, playCard_json pp, stateUpdate_json up, cardPlayed_json cp, error_json ep,
       roundEnded_json tp}.
      parse (dump j) = Some j"
    "play_cardIndex pp < 2 ^ 64" "\<forall>n \<in> set (play_additionalCards pp). n < 2 ^ 64"
    "to_int32 (played_cardsRemaining cp) = played_cardsRemaining cp"
    "map_wf (ended_scores tp)" "\<forall>(k, n) \<in> set (ended_scores tp). to_int32 n = n"
  shows "joinGame_fromJson parse (dump (joinGame_json jp)) = jp\<lparr>join_gameCode := None\<rparr> \<and>
    playCard_fromJson parse (dump (playCard_json pp)) = pp \<and>
    stateUpdate_fromJson parse (dump (stateUpdate_json up)) = up \<and>
    cardPlayed_fromJson parse n0 b0 (dump (cardPlayed_json cp)) = cp \<and>
    error_fromJson parse (dump (error_json ep)) = ep \<and>
    roundEnded_fromJson parse (dump (roundEnded_json tp)) = tp"
proof (intro conjI)
  show "joinGame_fromJson parse (dump (joinGame_json jp)) = jp\<lparr>join_gameCode := None\<rparr>"
    using assms(1) by (cases jp) (auto simp: joinGame_fromJson_def read_with_def joinGame_steps_def read_field_def
        joinGame_json_def opt_member_of_def split: option.split)
  show "playCard_fromJson parse (dump (playCard_json pp)) = pp"
    using assms by (intro playCard_read_back) simp_all
  have vis: "json_find (stateUpdate_json up) ''visibleTo'' = Some (JArray (map JString (update_visibleTo up)))"
    by (simp add: stateUpdate_json_def)
  have first: "json_find (stateUpdate_json up) ''gameStateJson'' = Some (JString (update_gameStateJson up))"
    by (simp add: stateUpdate_json_def)
  show "stateUpdate_fromJson parse (dump (stateUpdate_json up)) = up"
    unfolding stateUpdate_fromJson_def read_with_def stateUpdate_steps_def
    using assms(1) by (simp add: read_field_def first push_fields_strings [OF vis] fold_pushes)
  show "cardPlayed_fromJson parse n0 b0 (dump (cardPlayed_json cp)) = cp"
    using assms(1,4) by (cases cp) (auto simp: cardPlayed_fromJson_def read_with_def cardPlayed_steps_def
        read_field_def cardPlayed_json_def)
  show "error_fromJson parse (dump (error_json ep)) = ep"
    using assms(1) by (cases ep) (auto simp: error_fromJson_def read_with_def error_steps_def read_field_def
        error_json_def opt_member_of_def split: option.split)
  show "roundEnded_fromJson parse (dump (roundEnded_json tp)) = tp"
    using assms(1,5,6) by (intro roundEnded_read_back) simp_all
qed

text \<open>A code for the members of a list, for the witness: the position in unary.\<close>

lemma unary_code:
  "j \<in> set js \<Longrightarrow>
   Some (js ! length (case find_index (\<lambda>j'. j' = j) js of Some i \<Rightarrow> replicate i (CHR ''x'') | None \<Rightarrow> '''')) = Some j"
  using find_index_sat [of "\<lambda>j'. j' = j" js] by (cases "find_index (\<lambda>j'. j' = j) js") auto

theorem payload_round_trips_witness:
  "\<exists>parse dump. playCard_fromJson parse (dump (playCard_json \<lparr>play_cardIndex = 2, play_chosenSuit = Some STAR,
       play_reverseDirection = None, play_additionalCards = [4, 5]\<rparr>)) =
     \<lparr>play_cardIndex = 2, play_chosenSuit = Some STAR, play_reverseDirection = None, play_additionalCards = [4, 5]\<rparr>"
proof -
  let ?jp = "\<lparr>join_playerName = ''Ada'', join_gameId = ''g'', join_gameCode = Some ''ABCD'', join_password = None\<rparr>"
  let ?pp = "\<lparr>play_cardIndex = 2, play_chosenSuit = Some STAR, play_reverseDirection = None,
    play_additionalCards = [4, 5]\<rparr>"
  let ?up = "\<lparr>update_gameStateJson = ''{}'', update_visibleTo = [''a'']\<rparr>"
  let ?cp = "\<lparr>played_playerId = ''a'', played_cardJson = ''{}'', played_cardsRemaining = 3, played_saidLastCard = True\<rparr>"
  let ?ep = "\<lparr>error_errorCode = ''E'', error_message = ''m'', error_field = None\<rparr>"
  let ?tp = "\<lparr>ended_winnerId = ''a'', ended_scores = [(''a'', 0), (''b'', 12)], ended_eliminatedPlayers = []\<rparr>"
  let ?js = "[joinGame_json ?jp, playCard_json ?pp, stateUpdate_json ?up, cardPlayed_json ?cp, error_json ?ep,
    roundEnded_json ?tp]"
  let ?dump = "\<lambda>j. case find_index (\<lambda>j'. j' = j) ?js of Some i \<Rightarrow> replicate i CHR ''x'' | None \<Rightarrow> ''''"
  let ?parse = "\<lambda>s. Some (?js ! length s)"
  have law: "\<forall>j \<in> {joinGame_json ?jp, playCard_json ?pp, stateUpdate_json ?up, cardPlayed_json ?cp,
      error_json ?ep, roundEnded_json ?tp}. ?parse (?dump j) = Some j"
    by (rule ballI, rule unary_code) (simp only: list.set)
  have "playCard_fromJson ?parse (?dump (playCard_json ?pp)) = ?pp"
    by (rule payload_round_trips [OF law, THEN conjunct2, THEN conjunct1])
      (simp_all add: to_int32_def map_wf_def)
  then show ?thesis by (intro exI)
qed

end
