(* ===== verification/Whot_GameRepo.thy ===== *)
theory Whot_GameRepo
  imports Whot_Database Whot_StateJson Whot_Messages
begin

text \<open>
  \<open>Persistence/GameRepository\<close> over any \<open>Database\<close>.  The repository is the database it points to,
  \<open>None\<close> when the pointer is null.  \<open>parse\<close> and \<open>dump\<close> are the JSON library; \<open>now\<close> is the time in
  seconds.  A function whose query never returns, or that lets an exception through, is \<open>None\<close>.
\<close>

record GameRecord =
  rec_gameId :: string
  rec_gameStateJson :: string
  rec_ruleVariant :: string
  rec_createdAt :: int
  rec_updatedAt :: int
  rec_status :: string
  rec_playerIds :: "string list"

definition record_new :: GameRecord where
  "record_new = \<lparr>rec_gameId = '''', rec_gameStateJson = '''', rec_ruleVariant = '''', rec_createdAt = 0,
     rec_updatedAt = 0, rec_status = '''', rec_playerIds = []\<rparr>"

section \<open>The statements\<close>

definition sql_save_game :: string where
  "sql_save_game = ''INSERT OR REPLACE INTO games'' @
     '' (game_id, game_state, rule_variant, created_at, updated_at, status)'' @
     '' VALUES (?, ?, 'nigerian', ?, ?, ?)''"

definition sql_clear_players :: string where
  "sql_clear_players = ''DELETE FROM game_players WHERE game_id = ?''"

definition sql_add_player :: string where
  "sql_add_player = ''INSERT OR IGNORE INTO game_players (game_id, player_id)'' @ '' VALUES (?, ?)''"

definition sql_load_game :: string where
  "sql_load_game = ''SELECT game_state FROM games WHERE game_id = ? LIMIT 1''"

definition sql_delete_game :: string where
  "sql_delete_game = ''DELETE FROM games WHERE game_id = ?''"

definition sql_active_games :: string where
  "sql_active_games = ''SELECT game_id FROM games WHERE status='active' OR status='in_progress'' @ [CHR 0x27]"

definition sql_player_games :: string where
  "sql_player_games = ''SELECT game_id FROM game_players WHERE player_id = ?''"

definition sql_completed_games :: string where
  "sql_completed_games = ''SELECT game_id FROM games WHERE status='ended'' @ [CHR 0x27] @ '' ORDER BY updated_at DESC LIMIT ?''"

definition sql_old_players :: string where
  "sql_old_players = ''DELETE FROM game_players WHERE game_id IN'' @
     '' (SELECT game_id FROM games WHERE updated_at < ?)''"

definition sql_old_games :: string where
  "sql_old_games = ''DELETE FROM games WHERE updated_at < ?''"

definition sql_archive :: string where
  "sql_archive = ''UPDATE games SET status='archived' WHERE status='ended'' @ [CHR 0x27]"

section \<open>Saving and deleting\<close>

definition exec_bound :: "'d Database \<Rightarrow> string \<Rightarrow> SqlParam list \<Rightarrow> 'd \<Rightarrow> 'd" where
  "exec_bound D sql ps d = snd (db_executeBound D sql ps d)"

definition status_of :: "GamePhase \<Rightarrow> string" where
  "status_of ph =
     (if ph = GAME_ENDED then ''ended'' else if ph = ROUND_ENDED then ''round_ended'' else ''active'')"

text \<open>The loop over the written players, inside a \<open>try\<close>: an id that is no text ends it.\<close>

fun add_players :: "'d Database \<Rightarrow> string \<Rightarrow> json list \<Rightarrow> 'd \<Rightarrow> 'd" where
  "add_players D gid [] d = d"
| "add_players D gid (pj # pjs) d =
     (case json_find pj ''id'' of
        None \<Rightarrow> add_players D gid pjs d
      | Some v \<Rightarrow>
          (case get_string v of
             None \<Rightarrow> d
           | Some pid \<Rightarrow> add_players D gid pjs (exec_bound D sql_add_player [SqlText gid, SqlText pid] d)))"

definition written_players :: "(string \<Rightarrow> json option) \<Rightarrow> string \<Rightarrow> json list" where
  "written_players parse text =
     (case parse text of
        None \<Rightarrow> []
      | Some j \<Rightarrow> (case json_find j ''players'' of None \<Rightarrow> [] | Some ps \<Rightarrow> json_items ps))"

definition saveGame ::
    "'d Database \<Rightarrow> (string \<Rightarrow> json option) \<Rightarrow> (json \<Rightarrow> string) \<Rightarrow> int \<Rightarrow> GameState \<Rightarrow> 'd option \<Rightarrow> bool \<times> 'd option"
where
  "saveGame D parse dump now gs repo =
     (case repo of
        None \<Rightarrow> (False, repo)
      | Some d \<Rightarrow>
          if \<not> db_isConnected D d then (False, repo)
          else let text = dump (state_toJson gs);
                   (ok, d1) = db_executeBound D sql_save_game
                     [SqlText (gameId gs), SqlText text, SqlInt now, SqlInt now, SqlText (status_of (phase gs))] d
               in if \<not> ok then (False, Some d1)
                  else let d2 = exec_bound D sql_clear_players [SqlText (gameId gs)] d1
                       in (True, Some (add_players D (gameId gs) (written_players parse text) d2)))"

definition updateGame ::
    "'d Database \<Rightarrow> (string \<Rightarrow> json option) \<Rightarrow> (json \<Rightarrow> string) \<Rightarrow> int \<Rightarrow> GameState \<Rightarrow> 'd option \<Rightarrow> bool \<times> 'd option"
where
  "updateGame D parse dump now gs repo = saveGame D parse dump now gs repo"

definition deleteGame :: "'d Database \<Rightarrow> string \<Rightarrow> 'd option \<Rightarrow> bool \<times> 'd option" where
  "deleteGame D gid repo =
     (case repo of
        None \<Rightarrow> (False, repo)
      | Some d \<Rightarrow>
          let (ok, d1) = db_executeBound D sql_delete_game [SqlText gid]
                (exec_bound D sql_clear_players [SqlText gid] d)
          in (ok, Some d1))"

definition deleteOldGames :: "'d Database \<Rightarrow> int \<Rightarrow> int \<Rightarrow> 'd option \<Rightarrow> 'd option" where
  "deleteOldGames D now daysOld repo =
     map_option (\<lambda>d. let cutoff = now - daysOld * 86400
        in exec_bound D sql_old_games [SqlInt cutoff] (exec_bound D sql_old_players [SqlInt cutoff] d)) repo"

definition archiveCompletedGames :: "'d Database \<Rightarrow> 'd option \<Rightarrow> 'd option" where
  "archiveCompletedGames D repo = map_option (\<lambda>d. snd (db_execute D sql_archive d)) repo"

section \<open>Loading\<close>

text \<open>\<open>fromJson\<close> is outside any \<open>try\<close>: a text that cannot be read throws.  \<open>gid0\<close>, \<open>clock\<close> and \<open>seed\<close>
  are what the constructor of the state reads.\<close>

definition loadGame ::
    "'d Database \<Rightarrow> (string \<Rightarrow> json option) \<Rightarrow> string \<Rightarrow> int \<Rightarrow> rng \<Rightarrow> string \<Rightarrow> 'd option \<Rightarrow>
     (GameState option \<times> 'd option) option" where
  "loadGame D parse gid0 clock seed gid repo =
     (case repo of
        None \<Rightarrow> Some (None, repo)
      | Some d \<Rightarrow>
          if \<not> db_isConnected D d then Some (None, repo)
          else let (text, d1) = db_queryOneBound D sql_load_game [SqlText gid] d
               in case text of
                    None \<Rightarrow> Some (None, Some d1)
                  | Some s \<Rightarrow>
                      do { j \<leftarrow> parse s; gs \<leftarrow> state_fromJson gid0 clock seed j; Some (Some gs, Some d1) })"

text \<open>The loop of the listing functions: the stored text of every id, an id without one left out.\<close>

fun collect_records :: "'d Database \<Rightarrow> (string \<Rightarrow> string \<Rightarrow> GameRecord) \<Rightarrow> string list \<Rightarrow> 'd \<Rightarrow> GameRecord list \<times> 'd" where
  "collect_records D mk [] d = ([], d)"
| "collect_records D mk (gid # gids) d =
     (let (text, d1) = db_queryOneBound D sql_load_game [SqlText gid] d;
          (recs, d2) = collect_records D mk gids d1
      in (case text of None \<Rightarrow> recs | Some s \<Rightarrow> mk gid s # recs, d2))"

definition active_record :: "(string \<Rightarrow> json option) \<Rightarrow> string \<Rightarrow> string \<Rightarrow> GameRecord" where
  "active_record parse gid text =
     read_with parse text
       (\<lambda>j. [\<lambda>r. map_option (\<lambda>s. r\<lparr>rec_status := s\<rparr>) (json_value get_string j ''phase'' ''active''),
             read_field j ''gameId'' get_string (\<lambda>s r. r\<lparr>rec_gameId := s\<rparr>)])
       (record_new\<lparr>rec_gameId := gid, rec_gameStateJson := text\<rparr>)"

definition getActiveGames ::
    "'d Database \<Rightarrow> (string \<Rightarrow> json option) \<Rightarrow> 'd option \<Rightarrow> (GameRecord list \<times> 'd option) option" where
  "getActiveGames D parse repo =
     (case repo of
        None \<Rightarrow> Some ([], repo)
      | Some d \<Rightarrow>
          do { (gids, d1) \<leftarrow> db_queryMany D sql_active_games d;
               let (recs, d2) = collect_records D (active_record parse) gids d1;
               Some (recs, Some d2) })"

definition getGamesByPlayer :: "'d Database \<Rightarrow> string \<Rightarrow> 'd option \<Rightarrow> (GameRecord list \<times> 'd option) option" where
  "getGamesByPlayer D pid repo =
     (case repo of
        None \<Rightarrow> Some ([], repo)
      | Some d \<Rightarrow>
          do { (gids, d1) \<leftarrow> db_queryManyBound D sql_player_games [SqlText pid] d;
               let (recs, d2) = collect_records D (\<lambda>gid s. record_new
                     \<lparr>rec_gameId := gid, rec_gameStateJson := s, rec_playerIds := [pid]\<rparr>) gids d1;
               Some (recs, Some d2) })"

definition getCompletedGames :: "'d Database \<Rightarrow> int \<Rightarrow> 'd option \<Rightarrow> (GameRecord list \<times> 'd option) option" where
  "getCompletedGames D limit repo =
     (case repo of
        None \<Rightarrow> Some ([], repo)
      | Some d \<Rightarrow>
          do { (gids, d1) \<leftarrow> db_queryManyBound D sql_completed_games [SqlInt limit] d;
               let (recs, d2) = collect_records D (\<lambda>gid s. record_new
                     \<lparr>rec_gameId := gid, rec_gameStateJson := s, rec_status := ''ended''\<rparr>) gids d1;
               Some (recs, Some d2) })"

text \<open>A record counts unless reading its text throws or its phase is one of the two texts.\<close>

definition looks_unfinished :: "(string \<Rightarrow> json option) \<Rightarrow> GameRecord \<Rightarrow> bool" where
  "looks_unfinished parse r =
     (case parse (rec_gameStateJson r) of
        None \<Rightarrow> False
      | Some j \<Rightarrow>
          (case json_value get_string j ''phase'' '''' of
             None \<Rightarrow> False
           | Some st \<Rightarrow> st \<noteq> ''ended'' \<and> st \<noteq> ''GAME_ENDED''))"

definition findGameByPlayer ::
    "'d Database \<Rightarrow> (string \<Rightarrow> json option) \<Rightarrow> string \<Rightarrow> 'd option \<Rightarrow> (GameRecord option \<times> 'd option) option" where
  "findGameByPlayer D parse pid repo =
     map_option (\<lambda>(recs, repo1). (find (looks_unfinished parse) recs, repo1)) (getGamesByPlayer D pid repo)"

definition getAvailableGames ::
    "'d Database \<Rightarrow> (string \<Rightarrow> json option) \<Rightarrow> string \<Rightarrow> 'd option \<Rightarrow> (string list \<times> 'd option) option" where
  "getAvailableGames D parse ruleVariant repo =
     map_option (\<lambda>(recs, repo1). (map rec_gameId recs, repo1)) (getActiveGames D parse repo)"

definition resultToRecord :: "string \<Rightarrow> GameRecord" where
  "resultToRecord r = record_new\<lparr>rec_gameStateJson := r\<rparr>"

definition recordToJson :: "GameRecord \<Rightarrow> string" where
  "recordToJson r = rec_gameStateJson r"

section \<open>Loading the games when the server starts\<close>

text \<open>\<open>loadExistingGames\<close> up to the insertion into the map: each active game with its loaded state.  The
  exception of one game that cannot be read ends the whole loop.\<close>

fun load_each ::
    "'d Database \<Rightarrow> (string \<Rightarrow> json option) \<Rightarrow> int \<Rightarrow> string list \<Rightarrow> rng list \<Rightarrow> 'd option \<Rightarrow>
     ((string \<times> GameState option) list \<times> 'd option) option" where
  "load_each D parse clock [] seeds repo = Some ([], repo)"
| "load_each D parse clock (gid # gids) seeds repo =
     do { (st, repo1) \<leftarrow> loadGame D parse '''' clock (case seeds of [] \<Rightarrow> [] | s # _ \<Rightarrow> s) gid repo;
          (rest, repo2) \<leftarrow> load_each D parse clock gids (drop 1 seeds) repo1;
          Some ((gid, st) # rest, repo2) }"

definition stored_games ::
    "'d Database \<Rightarrow> (string \<Rightarrow> json option) \<Rightarrow> int \<Rightarrow> rng list \<Rightarrow> 'd option \<Rightarrow>
     ((string \<times> GameState option) list \<times> 'd option) option" where
  "stored_games D parse clock seeds repo =
     do { (recs, repo1) \<leftarrow> getActiveGames D parse repo;
          load_each D parse clock (map rec_gameId recs) seeds repo1 }"

end
