(* ===== verification/Whot_Restart.thy ===== *)
theory Whot_Restart
  imports Whot_Handlers Whot_GameRepo Whot_PlayerRepo
begin

text \<open>
  The server over its database: what \<open>loadExistingGames\<close> reads and puts back, and what the writing
  calls that the handlers log do to the database.
\<close>

text \<open>\<open>loadExistingGames\<close>, from the query to the last game; a stored text that cannot be read lets its
  exception through, and the server does not start.\<close>

definition reload_games ::
    "'d Database \<Rightarrow> JsonLib \<Rightarrow> rng list \<Rightarrow> 'd option \<Rightarrow> Application \<Rightarrow> Application option" where
  "reload_games D L seeds repo app =
     map_option (\<lambda>(recs, _). loadExistingGames recs app)
       (stored_games D (lib_parse L) (app_steady app) seeds repo)"

text \<open>The effect of a logged call; \<open>now\<close> is the time in seconds.\<close>

fun perform :: "'d Database \<Rightarrow> JsonLib \<Rightarrow> int \<Rightarrow> StoreCall \<Rightarrow> 'd option \<Rightarrow> 'd option" where
  "perform D L now (SaveGame gs) repo = snd (saveGame D (lib_parse L) (lib_dump L) now gs repo)"
| "perform D L now (DeleteGame gid) repo = snd (deleteGame D gid repo)"
| "perform D L now (SavePlayer p) repo = snd (savePlayer D now p repo)"
| "perform D L now (UpdateStats pid won score) repo = updateStats D now pid won score repo"

section \<open>What the statements do\<close>

text \<open>
  The documented behaviour of the statements on the table of the games, \<open>T\<close>: the stored text and the
  status of an id.  Texts are bound up to a null character, so the laws are for texts without one.
  A statement may fail, and then it changes nothing.
\<close>

definition is_active :: "string \<Rightarrow> bool" where
  "is_active st \<longleftrightarrow> st = ''active'' \<or> st = ''in_progress''"

definition game_table :: "'d Database \<Rightarrow> ('d \<Rightarrow> string \<Rightarrow> (string \<times> string) option) \<Rightarrow> bool" where
  "game_table D T \<longleftrightarrow>
     (\<forall>d g s n st. db_isConnected D d \<and> plain_text g \<and> plain_text s \<and> plain_text st \<longrightarrow>
        (let (ok, d1) = db_executeBound D sql_save_game [SqlText g, SqlText s, SqlInt n, SqlInt n, SqlText st] d
         in db_isConnected D d1 \<and> T d1 = (if ok then (T d)(g \<mapsto> (s, st)) else T d))) \<and>
     (\<forall>d sql ps. db_isConnected D d \<and> sql \<in> {sql_clear_players, sql_add_player} \<longrightarrow>
        db_isConnected D (exec_bound D sql ps d) \<and> T (exec_bound D sql ps d) = T d) \<and>
     (\<forall>d g. db_isConnected D d \<and> plain_text g \<longrightarrow>
        db_queryOneBound D sql_load_game [SqlText g] d = (map_option fst (T d g), d)) \<and>
     (\<forall>d. db_isConnected D d \<longrightarrow>
        (\<exists>gids. db_queryMany D sql_active_games d = Some (gids, d) \<and>
           set gids = {g. \<exists>s st. T d g = Some (s, st) \<and> is_active st})) \<and>
     (\<forall>d pid. db_isConnected D d \<longrightarrow>
        (\<exists>gids. db_queryManyBound D sql_player_games [SqlText pid] d = Some (gids, d) \<and>
           (\<forall>g \<in> set gids. plain_text g)))"

text \<open>Every stored text is a written state, under its id and with its status.\<close>

definition is_written :: "(string \<Rightarrow> json option) \<Rightarrow> string \<Rightarrow> string \<Rightarrow> string \<Rightarrow> GameState \<Rightarrow> bool" where
  "is_written parse g s st gs \<longleftrightarrow>
     gameId gs = g \<and> plain_text g \<and> state_wf gs \<and> parse s = Some (state_toJson gs) \<and> st = status_of (phase gs)"

definition all_written :: "(string \<Rightarrow> json option) \<Rightarrow> (string \<Rightarrow> (string \<times> string) option) \<Rightarrow> bool" where
  "all_written parse t \<longleftrightarrow> (\<forall>g s st. t g = Some (s, st) \<longrightarrow> (\<exists>gs. is_written parse g s st gs))"

lemma active_status: "is_active (status_of ph) \<longleftrightarrow> ph \<noteq> GAME_ENDED \<and> ph \<noteq> ROUND_ENDED"
  by (simp add: is_active_def status_of_def)

lemma plain_status [simp]: "plain_text (status_of ph)"
  by (simp add: status_of_def plain_text_def)

lemma game_tableD:
  assumes "game_table D T" "db_isConnected D d"
  shows "plain_text g \<Longrightarrow> plain_text s \<Longrightarrow> plain_text st \<Longrightarrow>
      db_executeBound D sql_save_game [SqlText g, SqlText s, SqlInt n, SqlInt n, SqlText st] d = (ok, d1) \<Longrightarrow>
      db_isConnected D d1 \<and> T d1 = (if ok then (T d)(g \<mapsto> (s, st)) else T d)"
    and "sql \<in> {sql_clear_players, sql_add_player} \<Longrightarrow>
      db_isConnected D (exec_bound D sql ps d) \<and> T (exec_bound D sql ps d) = T d"
    and "plain_text g \<Longrightarrow> db_queryOneBound D sql_load_game [SqlText g] d = (map_option fst (T d g), d)"
    and "\<exists>gids. db_queryMany D sql_active_games d = Some (gids, d) \<and>
      set gids = {g. \<exists>s st. T d g = Some (s, st) \<and> is_active st}"
    and "\<exists>gids. db_queryManyBound D sql_player_games [SqlText pid] d = Some (gids, d) \<and>
      (\<forall>g \<in> set gids. plain_text g)"
proof -
  note law = assms(1) [unfolded game_table_def]
  show "plain_text g \<Longrightarrow> plain_text s \<Longrightarrow> plain_text st \<Longrightarrow>
      db_executeBound D sql_save_game [SqlText g, SqlText s, SqlInt n, SqlInt n, SqlText st] d = (ok, d1) \<Longrightarrow>
      db_isConnected D d1 \<and> T d1 = (if ok then (T d)(g \<mapsto> (s, st)) else T d)"
    using conjunct1 [OF law, rule_format, of d g s st n] assms(2) by simp
  note law = conjunct2 [OF law]
  show "sql \<in> {sql_clear_players, sql_add_player} \<Longrightarrow>
      db_isConnected D (exec_bound D sql ps d) \<and> T (exec_bound D sql ps d) = T d"
    using conjunct1 [OF law] assms(2) by blast
  note law = conjunct2 [OF law]
  show "plain_text g \<Longrightarrow> db_queryOneBound D sql_load_game [SqlText g] d = (map_option fst (T d g), d)"
    using conjunct1 [OF law] assms(2) by blast
  note law = conjunct2 [OF law]
  show "\<exists>gids. db_queryMany D sql_active_games d = Some (gids, d) \<and>
      set gids = {g. \<exists>s st. T d g = Some (s, st) \<and> is_active st}"
    using conjunct1 [OF law] assms(2) by blast
  show "\<exists>gids. db_queryManyBound D sql_player_games [SqlText pid] d = Some (gids, d) \<and>
      (\<forall>g \<in> set gids. plain_text g)"
    using conjunct2 [OF law] assms(2) by blast
qed

section \<open>Saving\<close>

lemma add_players_table:
  assumes "game_table D T" "db_isConnected D d"
  shows "db_isConnected D (add_players D g pjs d) \<and> T (add_players D g pjs d) = T d"
  using assms(2)
proof (induction pjs arbitrary: d)
  case (Cons pj pjs)
  then show ?case
    using game_tableD(2) [OF assms(1) Cons.prems, of sql_add_player] by (auto split: option.split)
qed simp

text \<open>A save that succeeds stores the text and the status, whatever happens to the other statements.\<close>

lemma saveGame_table:
  assumes "game_table D T" "db_isConnected D d" "plain_text (gameId gs)" "plain_text (dump (state_toJson gs))"
    "saveGame D parse dump now gs (Some d) = (True, repo)"
  shows "\<exists>d1. repo = Some d1 \<and> db_isConnected D d1 \<and>
    T d1 = (T d)(gameId gs \<mapsto> (dump (state_toJson gs), status_of (phase gs)))"
proof -
  obtain ok d1 where e: "db_executeBound D sql_save_game [SqlText (gameId gs), SqlText (dump (state_toJson gs)),
      SqlInt now, SqlInt now, SqlText (status_of (phase gs))] d = (ok, d1)" by fastforce
  note stored = game_tableD(1) [OF assms(1-4) plain_status e]
  have ok: "ok" using assms(2,5) e by (auto simp: saveGame_def Let_def split: if_splits)
  then have c: "db_isConnected D d1" using stored by blast
  let ?d2 = "exec_bound D sql_clear_players [SqlText (gameId gs)] d1"
  have c2: "db_isConnected D ?d2 \<and> T ?d2 = T d1" using game_tableD(2) [OF assms(1) c] by blast
  have "repo = Some (add_players D (gameId gs) (written_players parse (dump (state_toJson gs))) ?d2)"
    using assms(2,5) e ok by (simp add: saveGame_def Let_def)
  then show ?thesis using add_players_table [OF assms(1) conjunct1 [OF c2]] c2 stored ok by auto
qed

lemma all_written_save:
  assumes "all_written parse t" "state_wf gs" "plain_text (gameId gs)" "parse s = Some (state_toJson gs)"
  shows "all_written parse (t(gameId gs \<mapsto> (s, status_of (phase gs))))"
  using assms by (auto simp: all_written_def is_written_def)

section \<open>Listing and loading\<close>

lemma active_record_id:
  assumes "parse s = Some (state_toJson gs)"
  shows "rec_gameId (active_record parse g s) = g"
  using assms by (simp add: active_record_def read_with_def written_members record_new_def)

lemma collect_records_table:
  assumes "game_table D T" "db_isConnected D d" "\<forall>g \<in> set gids. plain_text g"
  shows "collect_records D mk gids d =
    (concat (map (\<lambda>g. case T d g of None \<Rightarrow> [] | Some (s, _) \<Rightarrow> [mk g s]) gids), d)"
  using assms(3)
proof (induction gids)
  case (Cons g gids)
  then show ?case
    using game_tableD(3) [OF assms(1,2), of g] by (simp add: Let_def split: option.split prod.split)
qed simp

lemma active_plain:
  assumes "all_written parse t" "set gids = {g. \<exists>s st. t g = Some (s, st) \<and> is_active st}"
  shows "\<forall>g \<in> set gids. plain_text g \<and> (\<exists>s st gs. t g = Some (s, st) \<and> is_written parse g s st gs)"
  using assms unfolding all_written_def is_written_def by blast

lemma getActiveGames_table:
  assumes "game_table D T" "db_isConnected D d" "all_written parse (T d)"
  shows "\<exists>recs. getActiveGames D parse (Some d) = Some (recs, Some d) \<and>
    set (map rec_gameId recs) = {g. \<exists>s st. T d g = Some (s, st) \<and> is_active st}"
proof -
  obtain gids where q: "db_queryMany D sql_active_games d = Some (gids, d)"
    and set: "set gids = {g. \<exists>s st. T d g = Some (s, st) \<and> is_active st}"
    using game_tableD(4) [OF assms(1,2)] by blast
  note ok = active_plain [OF assms(3) set]
  let ?recs = "concat (map (\<lambda>g. case T d g of None \<Rightarrow> [] | Some (s, _) \<Rightarrow> [active_record parse g s]) gids)"
  have "getActiveGames D parse (Some d) = Some (?recs, Some d)"
    using q ok by (simp add: getActiveGames_def collect_records_table [OF assms(1,2)])
  moreover have "map rec_gameId ?recs = gids"
    using ok
  proof (induction gids)
    case (Cons g gids)
    then obtain s st gs where t: "T d g = Some (s, st)" and w: "is_written parse g s st gs" by auto
    have "rec_gameId (active_record parse g s) = g"
      using w by (intro active_record_id [of _ _ gs]) (simp add: is_written_def)
    with Cons t show ?case by simp
  qed simp
  ultimately show ?thesis using set by (metis (no_types))
qed

lemma loadGame_table:
  assumes "game_table D T" "db_isConnected D d" "T d g = Some (s, st)" "is_written parse g s st gs"
  shows "loadGame D parse gid0 clock seed g (Some d) = Some (Some (restored clock seed gs), Some d)"
  using assms game_tableD(3) [OF assms(1,2), of g] state_fromJson_toJson [of gs]
  by (simp add: loadGame_def is_written_def)

lemma load_each_table:
  assumes "game_table D T" "db_isConnected D d" "all_written parse (T d)" "\<forall>g \<in> set gids. T d g \<noteq> None"
  shows "\<exists>recs. load_each D parse clock gids seeds (Some d) = Some (recs, Some d) \<and> map fst recs = gids \<and>
    (\<forall>(g, r) \<in> set recs. \<exists>s st gs seed. T d g = Some (s, st) \<and> is_written parse g s st gs \<and>
       r = Some (restored clock seed gs))"
  using assms(4)
proof (induction gids arbitrary: seeds)
  case (Cons g gids)
  obtain s st where t: "T d g = Some (s, st)" using Cons.prems by auto
  then obtain gs where w: "is_written parse g s st gs" using assms(3) unfolding all_written_def by blast
  let ?seed = "case seeds of [] \<Rightarrow> [] | s # _ \<Rightarrow> s"
  obtain recs where "load_each D parse clock gids (drop 1 seeds) (Some d) = Some (recs, Some d)"
    "map fst recs = gids" "\<forall>(g, r) \<in> set recs. \<exists>s st gs seed. T d g = Some (s, st) \<and>
       is_written parse g s st gs \<and> r = Some (restored clock seed gs)"
    using Cons.IH [of "drop 1 seeds"] Cons.prems by auto
  then show ?case
    using loadGame_table [OF assms(1,2) t w, of "''''" clock ?seed] t w
    by (intro exI [of _ "(g, Some (restored clock ?seed gs)) # recs"]) auto
qed simp

section \<open>Putting the loaded games back\<close>

lemma loadExistingGames_fold: "app_db app \<Longrightarrow> loadExistingGames recs app = fold put_loaded recs app"
  by (simp add: loadExistingGames_def)

lemma put_loaded_games:
  assumes "map_wf (activeGames app)"
  shows "map_wf (activeGames (put_loaded rec app)) \<and> app_steady (put_loaded rec app) = app_steady app \<and>
    getGame g (put_loaded rec app) =
      (case rec of (g', Some gs) \<Rightarrow> if g' = g then Some (engine_new (app_steady app) gs) else getGame g app
                 | (g', None) \<Rightarrow> getGame g app)"
  using assms
  by (auto simp: put_loaded_def put_engine_def getGame_def get_put wf_put split: prod.split option.split)

lemma fold_put_loaded:
  assumes "map_wf (activeGames app)"
  shows "(\<forall>gs. (g, Some gs) \<notin> set recs) \<and> getGame g (fold put_loaded recs app) = getGame g app \<or>
    (\<exists>gs. (g, Some gs) \<in> set recs \<and>
       getGame g (fold put_loaded recs app) = Some (engine_new (app_steady app) gs))"
  using assms
proof (induction recs arbitrary: app)
  case (Cons rec recs)
  note put = put_loaded_games [OF Cons.prems, of rec g]
  show ?case
    using Cons.IH [of "put_loaded rec app"] put
    by (cases rec; cases "snd rec") (auto split: if_splits)
qed simp

section \<open>The stored games and the games of the server\<close>

text \<open>What the server has of a game after it has loaded the table \<open>t\<close>: the game, restored from its stored
  text, when it was saved in its lobby or during a round, and nothing otherwise.\<close>

definition stored_as ::
    "(string \<Rightarrow> json option) \<Rightarrow> (string \<Rightarrow> (string \<times> string) option) \<Rightarrow> int \<Rightarrow> string \<Rightarrow> GameEngine option \<Rightarrow> bool" where
  "stored_as parse t clock g game \<longleftrightarrow>
     (case game of
        None \<Rightarrow> \<nexists>s st gs. t g = Some (s, st) \<and> is_written parse g s st gs \<and>
          phase gs \<noteq> ROUND_ENDED \<and> phase gs \<noteq> GAME_ENDED
      | Some eng \<Rightarrow> \<exists>s st gs seed. t g = Some (s, st) \<and> is_written parse g s st gs \<and>
          phase gs \<noteq> ROUND_ENDED \<and> phase gs \<noteq> GAME_ENDED \<and>
          eng = engine_new clock (restored clock seed gs))"

lemma stored_games_exact:
  assumes "game_table D T" "db_isConnected D d" "all_written parse (T d)"
  shows "\<exists>loaded. stored_games D parse clock seeds (Some d) = Some (loaded, Some d) \<and>
    (\<forall>app g. app_db app \<and> activeGames app = [] \<and> app_steady app = clock \<longrightarrow>
       stored_as parse (T d) clock g (getGame g (loadExistingGames loaded app)))"
proof -
  obtain recs where act: "getActiveGames D parse (Some d) = Some (recs, Some d)"
    and ids: "set (map rec_gameId recs) = {g. \<exists>s st. T d g = Some (s, st) \<and> is_active st}"
    using getActiveGames_table [OF assms] by blast
  have "\<forall>g \<in> set (map rec_gameId recs). T d g \<noteq> None" unfolding ids by blast
  from load_each_table [OF assms this, of clock seeds]
  obtain loaded where loaded: "load_each D parse clock (map rec_gameId recs) seeds (Some d) =
      Some (loaded, Some d)" "map fst loaded = map rec_gameId recs"
    and each: "\<forall>(g, r) \<in> set loaded. \<exists>s st gs seed. T d g = Some (s, st) \<and>
      is_written parse g s st gs \<and> r = Some (restored clock seed gs)"
    by blast
  have mem: "(\<exists>r. (g, r) \<in> set loaded) \<longleftrightarrow> (\<exists>s st. T d g = Some (s, st) \<and> is_active st)" for g
  proof -
    have "(\<exists>r. (g, r) \<in> set loaded) \<longleftrightarrow> g \<in> set (map fst loaded)" by force
    then show ?thesis unfolding loaded(2) ids by simp
  qed
  have "stored_as parse (T d) clock g (getGame g (fold put_loaded loaded app))"
    if app: "activeGames app = []" "app_steady app = clock" for app g
  proof -
    have wf: "map_wf (activeGames app)" "getGame g app = None" by (simp_all add: app getGame_def map_get_def)
    show ?thesis
      using fold_put_loaded [OF wf(1), of g loaded]
    proof
      assume none: "(\<forall>gs. (g, Some gs) \<notin> set loaded) \<and> getGame g (fold put_loaded loaded app) = getGame g app"
      then have "\<nexists>r. (g, r) \<in> set loaded" using each by fastforce
      then show ?thesis
        using none wf(2) mem [of g] active_status by (auto simp: is_written_def stored_as_def)
    next
      assume "\<exists>gs. (g, Some gs) \<in> set loaded \<and>
        getGame g (fold put_loaded loaded app) = Some (engine_new (app_steady app) gs)"
      then obtain gs' where gs': "(g, Some gs') \<in> set loaded"
        "getGame g (fold put_loaded loaded app) = Some (engine_new clock gs')" using app(2) by blast
      from each gs'(1) obtain s st gs seed where w: "T d g = Some (s, st)" "is_written parse g s st gs"
        "gs' = restored clock seed gs" by fastforce
      moreover have "is_active st" using mem [of g] gs'(1) w(1) by auto
      ultimately show ?thesis
        using gs'(2) active_status [of "phase gs"] by (auto simp: is_written_def stored_as_def)
    qed
  qed
  then show ?thesis
    using act loaded(1) by (simp add: stored_games_def loadExistingGames_fold)
qed

end
