(* ===== verification/Whot_SqliteSample.thy ===== *)
theory Whot_SqliteSample
  imports Whot_Restart
begin

text \<open>
  A small SQLite: the functions of the library for a database that has the table of the games alone.
  It shows that the laws asked of the statements (\<open>game_table\<close>) can hold of \<open>SQLiteDatabase\<close> itself, over
  prepared statements that are bound, stepped and read column by column.
\<close>

text \<open>The content: rows of id, text and status, the newest first.  A statement: its text, what is bound,
  the rows still to come once it has been stepped, and the current row.\<close>

type_synonym game_rows = "(string \<times> string \<times> string) list"
type_synonym game_stmt = "string \<times> SqlParam list \<times> string list option \<times> string"

fun small_rows :: "game_rows \<Rightarrow> string \<Rightarrow> SqlParam list \<Rightarrow> string list" where
  "small_rows h sql ps =
     (if sql = sql_load_game
      then (case ps of [SqlText g] \<Rightarrow> (case map_of h g of Some (s, st) \<Rightarrow> [s] | None \<Rightarrow> []) | _ \<Rightarrow> [])
      else if sql = sql_active_games
      then filter (\<lambda>g. case map_of h g of Some (s, st) \<Rightarrow> is_active st | None \<Rightarrow> False) (map fst h)
      else [])"

fun small_change :: "game_rows \<Rightarrow> string \<Rightarrow> SqlParam list \<Rightarrow> game_rows" where
  "small_change h sql ps =
     (if sql = sql_save_game
      then (case ps of [SqlText g, SqlText s, SqlInt m, SqlInt n, SqlText st] \<Rightarrow> (g, s, st) # h | _ \<Rightarrow> h)
      else if sql = sql_delete_game
      then (case ps of [SqlText g] \<Rightarrow> filter (\<lambda>row. fst row \<noteq> g) h | _ \<Rightarrow> h)
      else h)"

fun small_step :: "game_rows \<Rightarrow> game_stmt \<Rightarrow> SqliteCode \<times> game_rows \<times> game_stmt" where
  "small_step h (sql, ps, rows, cur) =
     (case (case rows of Some rs \<Rightarrow> rs | None \<Rightarrow> small_rows h sql ps) of
        [] \<Rightarrow> (SQLITE_DONE, if rows = None then small_change h sql ps else h, (sql, ps, Some [], ''''))
      | r # rs \<Rightarrow> (SQLITE_ROW, h, (sql, ps, Some rs, r)))"

definition small_sqlite :: "game_rows \<Rightarrow> (game_rows, game_stmt) Sqlite" where
  "small_sqlite start =
     \<lparr>sqlite3_open = \<lambda>p. (SQLITE_OK, start), sqlite3_exec = \<lambda>h s. (SQLITE_OK, h),
      sqlite3_prepare = \<lambda>h sql. Some (sql, [], None, ''''),
      sqlite3_bind = \<lambda>(sql, ps, rows, cur) n p. (SQLITE_OK, (sql, ps @ [p], rows, cur)),
      sqlite3_step = small_step, sqlite3_columns = \<lambda>(sql, ps, rows, cur). [Some cur]\<rparr>"

definition small_table :: "game_rows SQLiteDatabase \<Rightarrow> string \<Rightarrow> (string \<times> string) option" where
  "small_table db = (case sq_db db of None \<Rightarrow> Map.empty | Some h \<Rightarrow> map_of h)"

lemma small_parts [simp]:
  "sqlite3_open (small_sqlite start) path = (SQLITE_OK, start)" "sqlite3_exec (small_sqlite start) h s = (SQLITE_OK, h)"
  "sqlite3_prepare (small_sqlite start) h sql = Some (sql, [], None, '''')"
  "sqlite3_bind (small_sqlite start) (sql, ps, rows, cur) n p = (SQLITE_OK, (sql, ps @ [p], rows, cur))"
  "sqlite3_step (small_sqlite start) = small_step"
  "has_row (small_sqlite start) rc (sql, ps, rows, cur) \<longleftrightarrow> rc = SQLITE_ROW"
  "column_text (small_sqlite start) (sql, ps, rows, cur) = Some cur"
  by (simp_all add: small_sqlite_def has_row_def column_text_def)

lemma small_bind:
  "bind_loop (small_sqlite start) i ps (sql, qs, None, '''') = Some (sql, qs @ map c_param ps, None, '''')"
  by (induction ps arbitrary: i qs) simp_all

lemma small_prepare: "prepare_bound (small_sqlite start) sql ps h = Some (sql, map c_param ps, None, '''')"
  by (simp add: prepare_bound_def small_bind)

text \<open>Its statements have the rows they still give.\<close>

fun small_cursor :: "(game_rows, game_stmt) cursor" where
  "small_cursor h (sql, ps, rows, cur) = map (\<lambda>r. [Some r]) (case rows of Some rs \<Rightarrow> rs | None \<Rightarrow> small_rows h sql ps)"

lemma small_result_set: "result_set (small_sqlite start) small_cursor"
proof -
  have "case small_cursor h (sql, ps, rows, cur) of
      [] \<Rightarrow> fst (small_step h (sql, ps, rows, cur)) \<noteq> SQLITE_ROW
    | r # rs \<Rightarrow> \<exists>h1 st1. small_step h (sql, ps, rows, cur) = (SQLITE_ROW, h1, st1) \<and>
        sqlite3_columns (small_sqlite start) st1 = r \<and> small_cursor h1 st1 = rs" for h sql ps rows cur
    by (cases "case rows of Some rs \<Rightarrow> rs | None \<Rightarrow> small_rows h sql ps")
      (simp_all add: small_sqlite_def del: small_rows.simps)
  then show ?thesis unfolding result_set_def small_parts split_paired_all by (auto simp: split_paired_All)
qed

lemma small_loop_rest: "rows_loop (small_sqlite start) h (sql, ps, Some rs, cur) out = Some (out @ rs, h)"
proof (induction rs arbitrary: cur out)
  case Nil
  then show ?case by (subst rows_loop.simps) simp
next
  case (Cons r rs)
  then show ?case by (subst rows_loop.simps) simp
qed

text \<open>Statements that leave the table alone, and those of them that give no rows of it.\<close>

definition small_reads :: "string \<Rightarrow> bool" where
  "small_reads sql \<longleftrightarrow> sql \<noteq> sql_save_game \<and> sql \<noteq> sql_delete_game"

definition small_others :: "string \<Rightarrow> bool" where
  "small_others sql \<longleftrightarrow> small_reads sql \<and> sql \<noteq> sql_load_game \<and> sql \<noteq> sql_active_games"

lemma small_statements [simp]:
  "sql_active_games \<noteq> sql_load_game" "sql_load_game \<noteq> sql_active_games" "sql_delete_game \<noteq> sql_save_game"
  "\<not> small_reads sql_save_game" "\<not> small_reads sql_delete_game"
  "small_reads sql_load_game" "small_reads sql_active_games" "small_others sql_player_games"
  "small_others sql_clear_players" "small_others sql_add_player" "small_others sql_save_player"
  "small_others sql_save_stats" "small_others sql_stats_name" "small_others sql_total_games"
  "small_others sql_games_won" "small_others sql_total_score" "small_others sql_last_played"
  by (simp_all add: small_others_def small_reads_def sql_load_game_def sql_save_game_def sql_active_games_def
      sql_player_games_def sql_delete_game_def sql_clear_players_def sql_add_player_def sql_save_player_def
      sql_save_stats_def sql_stats_name_def sql_total_games_def sql_games_won_def sql_total_score_def
      sql_last_played_def)

lemma small_no_change: "small_reads sql \<Longrightarrow> small_change h sql ps = h"
  by (simp add: small_reads_def)

lemma small_no_rows: "small_others sql \<Longrightarrow> small_reads sql \<and> small_rows h sql ps = []"
  by (simp add: small_others_def)

lemma small_writes [simp]:
  "small_rows h sql_save_game ps = []" "small_rows h sql_delete_game ps = []"
  "small_change h sql_save_game [SqlText g, SqlText s, SqlInt m, SqlInt n, SqlText st] = (g, s, st) # h"
  "small_change h sql_delete_game [SqlText g] = filter (\<lambda>row. fst row \<noteq> g) h"
  by (simp_all add: sql_save_game_def sql_delete_game_def sql_load_game_def sql_active_games_def)

declare small_change.simps [simp del] small_rows.simps [simp del]

text \<open>A query that changes nothing gives all its rows.\<close>

lemma small_rows_loop:
  assumes "small_reads sql"
  shows "rows_loop (small_sqlite start) h (sql, ps, None, '''') [] = Some (small_rows h sql ps, h)"
proof (cases "small_rows h sql ps")
  case Nil
  then show ?thesis using assms by (subst rows_loop.simps) (simp add: small_no_change)
next
  case (Cons r rs)
  then show ?thesis by (subst rows_loop.simps) (simp add: small_loop_rest)
qed

lemma small_database:
  "db_isConnected (sqlite_database (small_sqlite start)) d \<longleftrightarrow> sq_db d \<noteq> None"
  by (simp add: sqlite_database_def sq_isConnected_def)

text \<open>A statement on another table.\<close>

lemma small_other:
  assumes "sq_db d = Some h" "small_others sql"
  shows "db_executeBound (sqlite_database (small_sqlite start)) sql ps d = (True, d)"
    and "exec_bound (sqlite_database (small_sqlite start)) sql ps d = d"
    and "db_queryOneBound (sqlite_database (small_sqlite start)) sql ps d = (None, d)"
  using assms small_no_rows [OF assms(2)]
  by (simp_all add: exec_bound_def sqlite_database_def sq_executeBound_def sq_queryOneBound_def small_prepare
      first_row_def small_no_change)

lemma small_query:
  assumes "sq_db d = Some h" "small_reads sql"
  shows "db_queryMany (sqlite_database (small_sqlite start)) sql d = Some (small_rows h sql [], d)"
    "db_queryManyBound (sqlite_database (small_sqlite start)) sql ps d = Some (small_rows h sql (map c_param ps), d)"
  using assms
  by (simp_all add: sqlite_database_def sq_queryMany_def sq_queryManyBound_def small_prepare small_rows_loop)

lemma small_active:
  "set (small_rows h sql_active_games []) = {g. \<exists>s st. map_of h g = Some (s, st) \<and> is_active st}"
proof -
  have "g \<in> fst ` set h" if "map_of h g = Some v" for g v
    using map_of_SomeD [OF that] by force
  then show ?thesis by (auto simp: small_rows.simps split: option.split_asm)
qed

theorem small_game_table: "game_table (sqlite_database (small_sqlite start)) small_table"
  unfolding game_table_def small_database
proof (intro conjI allI impI)
  fix d :: "game_rows SQLiteDatabase" and g s st :: string and n
  assume "sq_db d \<noteq> None \<and> plain_text g \<and> plain_text s \<and> plain_text st"
  then show "let (ok, d1) = db_executeBound (sqlite_database (small_sqlite start)) sql_save_game
        [SqlText g, SqlText s, SqlInt n, SqlInt n, SqlText st] d
      in sq_db d1 \<noteq> None \<and> small_table d1 = (if ok then (small_table d)(g \<mapsto> (s, st)) else small_table d)"
    by (auto simp: sqlite_database_def sq_executeBound_def small_prepare small_table_def fun_eq_iff)
next
  fix d :: "game_rows SQLiteDatabase" and sql ps
  assume "sq_db d \<noteq> None \<and> sql \<in> {sql_clear_players, sql_add_player}"
  then show "sq_db (exec_bound (sqlite_database (small_sqlite start)) sql ps d) \<noteq> None"
    and "small_table (exec_bound (sqlite_database (small_sqlite start)) sql ps d) = small_table d"
    using small_other(2) [of d _ sql start ps] by auto
next
  fix d :: "game_rows SQLiteDatabase" and g
  assume "sq_db d \<noteq> None \<and> plain_text g"
  then show "db_queryOneBound (sqlite_database (small_sqlite start)) sql_load_game [SqlText g] d =
      (map_option fst (small_table d g), d)"
    by (auto simp: sqlite_database_def sq_queryOneBound_def small_prepare first_row_def small_table_def small_rows.simps
        small_no_change split: option.split)
next
  fix d :: "game_rows SQLiteDatabase"
  assume "sq_db d \<noteq> None"
  then obtain h where h: "sq_db d = Some h" by blast
  show "\<exists>gids. db_queryMany (sqlite_database (small_sqlite start)) sql_active_games d = Some (gids, d) \<and>
      set gids = {g. \<exists>s st. small_table d g = Some (s, st) \<and> is_active st}"
    using small_query(1) [OF h, of sql_active_games] small_active [of h] h by (simp add: small_table_def)
next
  fix d :: "game_rows SQLiteDatabase" and pid
  assume "sq_db d \<noteq> None"
  then obtain h where h: "sq_db d = Some h" by blast
  show "\<exists>gids. db_queryManyBound (sqlite_database (small_sqlite start)) sql_player_games [SqlText pid] d = Some (gids, d) \<and>
      (\<forall>g\<in>set gids. plain_text g)"
    using small_query(2) [OF h, of sql_player_games] small_no_rows [of sql_player_games] by simp
qed

end
