(* ===== verification/Whot_PersistProps.thy ===== *)
theory Whot_PersistProps
  imports Whot_SqliteSample Whot_Samples
begin

text \<open>
  The database: what a query over SQLite returns, what a saved game and a saved player are when they
  are read again, and what the server has after a restart.
\<close>

section \<open>Queries\<close>

text \<open>C34: A query for many rows returns, whatever statement it prepares.  SQLite is asked only what its manual
  says of a statement: it has finitely many rows and a step moves to the next (\<open>result_set\<close>).  The loop then
  ends with the texts of the first column of all rows in order, an empty text for a null, and stops early only
  at a row without columns; the query for one row gives the first of them, and a statement that cannot be
  prepared or bound gives none.\<close>

theorem query_gives_all_rows:
  assumes "sq_db db = Some h" "result_set Q rows_of"
  shows "case prepare_bound Q sql ps h of
      None \<Rightarrow> sq_queryManyBound Q sql ps db = Some ([], db) \<and> sq_queryOneBound Q sql ps db = (None, db)
    | Some st \<Rightarrow>
        let rows = takeWhile (\<lambda>r. r \<noteq> []) (rows_of h st)
        in (\<exists>h'. sq_queryManyBound Q sql ps db =
              Some (map (\<lambda>r. case hd r of Some t \<Rightarrow> t | None \<Rightarrow> '''') rows, db\<lparr>sq_db := Some h'\<rparr>)) \<and>
           fst (sq_queryOneBound Q sql ps db) = (if rows = [] then None else hd (hd rows))"
proof (cases "prepare_bound Q sql ps h")
  case None
  then show ?thesis using assms(1) by (simp add: sq_queryManyBound_def sq_queryOneBound_def)
next
  case (Some st)
  obtain h' where "rows_loop Q h st [] = Some (map text_of_row (takeWhile (\<lambda>r. r \<noteq> []) (rows_of h st)), h')"
    using rows_loop_result [OF assms(2), of h st "[]"] by auto
  moreover have "text_of_row = (\<lambda>r. case hd r of Some t \<Rightarrow> t | None \<Rightarrow> '''')" by (simp add: fun_eq_iff text_of_row_def)
  moreover have "fst (first_row Q h st) = (if takeWhile (\<lambda>r. r \<noteq> []) (rows_of h st) = [] then None
      else hd (hd (takeWhile (\<lambda>r. r \<noteq> []) (rows_of h st))))"
    unfolding first_row_result [OF assms(2)] by (auto split: list.split)
  ultimately show ?thesis
    using Some assms(1) by (auto simp: sq_queryManyBound_def sq_queryOneBound_def Let_def split_beta)
qed

text \<open>The two active games of a small database.\<close>

theorem query_gives_all_rows_witness:
  "\<forall>cfg. \<exists>db'. sq_queryManyBound (small_sqlite []) sql_active_games []
     \<lparr>sq_config = cfg, sq_db = Some [(''a'', ''1'', ''active''), (''b'', ''2'', ''round_ended''), (''c'', ''3'', ''active'')]\<rparr> =
     Some ([''a'', ''c''], db')"
proof -
  let ?h = "[(''a'', ''1'', ''active''), (''b'', ''2'', ''round_ended''), (''c'', ''3'', ''active'')]"
  have rows: "small_cursor ?h (sql_active_games, [], None, '''') = [[Some ''a''], [Some ''c'']]"
    by (simp add: small_rows.simps is_active_def)
  have "\<exists>db'. sq_queryManyBound (small_sqlite []) sql_active_games [] \<lparr>sq_config = cfg, sq_db = Some ?h\<rparr> =
      Some ([''a'', ''c''], db')" for cfg
    using query_gives_all_rows [OF _ small_result_set, of "\<lparr>sq_config = cfg, sq_db = Some ?h\<rparr>" ?h "[]" sql_active_games "[]"]
      rows by (auto simp: small_prepare)
  then show ?thesis by blast
qed

section \<open>Games\<close>

text \<open>A game that was saved is loaded as it was: ids, players, turn and call card; but its
  configuration is the default one, its deck a full new one and its discard pile empty.  No other
  game is touched, and every stored text still is a written state.\<close>

theorem saved_game_loads:
  assumes "game_table D T" "db_isConnected D d" "all_written parse (T d)"
    "state_wf gs" "plain_text (gameId gs)" "plain_text (dump (state_toJson gs))"
    "parse (dump (state_toJson gs)) = Some (state_toJson gs)"
    "saveGame D parse dump now gs (Some d) = (True, repo)"
  shows "\<exists>d1. repo = Some d1 \<and>
    loadGame D parse gid0 clock seed (gameId gs) repo = Some (Some (restored clock seed gs), repo) \<and>
    (\<forall>g. g = gameId gs \<or> T d1 g = T d g) \<and> all_written parse (T d1)"
proof -
  obtain d1 where d1: "repo = Some d1" "db_isConnected D d1"
    and T: "T d1 = (T d)(gameId gs \<mapsto> (dump (state_toJson gs), status_of (phase gs)))"
    using saveGame_table [OF assms(1,2,5,6,8)] by blast
  have "is_written parse (gameId gs) (dump (state_toJson gs)) (status_of (phase gs)) gs"
    using assms(4,5,7) by (simp add: is_written_def)
  with T have "loadGame D parse gid0 clock seed (gameId gs) (Some d1) = Some (Some (restored clock seed gs), Some d1)"
    by (intro loadGame_table [OF assms(1) d1(2)]) simp_all
  moreover have "all_written parse (T d1)" unfolding T by (rule all_written_save [OF assms(3,4,5,7)])
  ultimately show ?thesis using d1(1) T by simp
qed

text \<open>A database in memory that answers the statements of the repository.\<close>

definition memory_database :: "(string \<times> string \<times> string) list Database" where
  "memory_database =
     \<lparr>db_isConnected = \<lambda>d. True, db_execute = \<lambda>sql d. (True, d), db_queryOne = \<lambda>sql d. (None, d),
      db_queryMany = \<lambda>sql d. Some (map fst (filter (\<lambda>(g, _).
        case map_of d g of Some (s, st) \<Rightarrow> is_active st | None \<Rightarrow> False) d), d),
      db_executeBound = \<lambda>sql ps d.
        (True, if sql = sql_save_game
               then case ps of [SqlText g, SqlText s, _, _, SqlText st] \<Rightarrow> (g, s, st) # d | _ \<Rightarrow> d
               else d),
      db_queryOneBound = \<lambda>sql ps d. (case ps of [SqlText g] \<Rightarrow> map_option fst (map_of d g) | _ \<Rightarrow> None, d),
      db_queryManyBound = \<lambda>sql ps d. Some (filter plain_text (map fst d), d)\<rparr>"

lemma memory_game_table: "game_table memory_database map_of"
proof -
  have ne: "sql_clear_players \<noteq> sql_save_game" "sql_add_player \<noteq> sql_save_game"
    by (simp_all add: sql_save_game_def sql_clear_players_def sql_add_player_def)
  have "set (map fst (filter (\<lambda>(g, _). case map_of d g of Some (s, st) \<Rightarrow> is_active st | None \<Rightarrow> False) d)) =
      {g. \<exists>s st. map_of d g = Some (s, st) \<and> is_active st}" for d :: "(string \<times> string \<times> string) list"
    by (auto simp: image_iff split: option.splits) (meson map_of_SomeD)
  then show ?thesis
    using ne by (auto simp: game_table_def memory_database_def exec_bound_def Let_def)
qed

definition sample_text :: "json \<Rightarrow> string" where "sample_text j = ''{}''"

definition sample_table :: GameState where
  "sample_table = sample_state [Card STAR ONE] [] (Card WHOT TWENTY)"

definition sample_parse :: "string \<Rightarrow> json option" where
  "sample_parse s = Some (state_toJson sample_table)"

lemma sample_table_wf: "state_wf sample_table"
  by (simp add: sample_table_def state_wf_def sample_defs player_wf_def hand_wf_def cast_GamePhase_def
      cast_PlayerType_def cast_PlayerStatus_def int32_def)

lemma sample_written: "is_written sample_parse ''g'' ''{}'' ''active'' sample_table"
  using sample_table_wf
  by (simp add: is_written_def sample_parse_def plain_text_def status_of_def) (simp add: sample_table_def sample_state_def)

theorem saved_game_loads_witness:
  "\<exists>repo. loadGame memory_database sample_parse '''' 5 [] ''g'' repo =
     Some (Some (restored 5 [] sample_table), repo)"
proof -
  let ?save = "saveGame memory_database sample_parse sample_text 0 sample_table (Some [])"
  have g: "gameId sample_table = ''g''" by (simp add: sample_table_def sample_state_def)
  have "fst ?save" by (simp add: saveGame_def memory_database_def Let_def)
  then have "?save = (True, snd ?save)" by (cases ?save) simp
  from saved_game_loads [OF memory_game_table _ _ sample_table_wf _ _ _ this, of "''''" 5 "[]"] show ?thesis
    by (auto simp: g plain_text_def sample_text_def sample_parse_def all_written_def memory_database_def)
qed

text \<open>After a restart the server has exactly the games that were saved in their lobby or during a
  round, each restored from its stored text; a game between two rounds or at its end is gone.  No
  stored text keeps the server from starting.\<close>

theorem restart_restores:
  assumes "game_table D T" "db_isConnected D d" "all_written (lib_parse L) (T d)"
    "app_db app" "activeGames app = []"
  shows "\<exists>app'. reload_games D L seeds (Some d) app = Some app' \<and>
    (\<forall>g. case getGame g app' of
       None \<Rightarrow> \<nexists>s st gs. T d g = Some (s, st) \<and> is_written (lib_parse L) g s st gs \<and>
         phase gs \<noteq> ROUND_ENDED \<and> phase gs \<noteq> GAME_ENDED
     | Some eng \<Rightarrow> \<exists>s st gs seed. T d g = Some (s, st) \<and> is_written (lib_parse L) g s st gs \<and>
         phase gs \<noteq> ROUND_ENDED \<and> phase gs \<noteq> GAME_ENDED \<and>
         eng = engine_new (app_steady app) (restored (app_steady app) seed gs))"
proof -
  obtain loaded where l: "stored_games D (lib_parse L) (app_steady app) seeds (Some d) = Some (loaded, Some d)"
    "\<forall>g. stored_as (lib_parse L) (T d) (app_steady app) g (getGame g (loadExistingGames loaded app))"
    using stored_games_exact [OF assms(1-3)] assms(4,5) by blast
  then have "reload_games D L seeds (Some d) app = Some (loadExistingGames loaded app)"
    by (simp add: reload_games_def)
  then show ?thesis using l(2) unfolding stored_as_def by blast
qed

lemma sample_memory [simp]:
  "db_isConnected memory_database d" "all_written sample_parse (map_of [(''g'', ''{}'', ''active'')])"
  using sample_written by (auto simp: memory_database_def all_written_def split: if_splits)

theorem restart_restores_witness:
  "\<exists>app'. reload_games memory_database \<lparr>lib_parse = sample_parse, lib_dump = sample_text\<rparr> []
     (Some [(''g'', ''{}'', ''active'')]) (app_new 100 True 0 0 0 [] []) = Some app'"
proof -
  have "app_db (app_new 100 True 0 0 0 [] [])" "activeGames (app_new 100 True 0 0 0 [] []) = []"
    by (simp_all add: app_new_def)
  moreover have "all_written (lib_parse \<lparr>lib_parse = sample_parse, lib_dump = sample_text\<rparr>)
      (map_of [(''g'', ''{}'', ''active'')])"
    unfolding JsonLib.simps by (rule sample_memory)
  ultimately show ?thesis
    using restart_restores [OF memory_game_table sample_memory(1)] by blast
qed

text \<open>The search for a player's running game never finds one: the phase of a written state is a number,
  the search reads it as a text, and the exception is swallowed.\<close>

theorem find_game_finds_nothing:
  assumes "game_table D T" "db_isConnected D d" "all_written parse (T d)"
  shows "findGameByPlayer D parse pid (Some d) = Some (None, Some d)"
proof -
  obtain gids where q: "db_queryManyBound D sql_player_games [SqlText pid] d = Some (gids, d)"
    and plain: "\<forall>g \<in> set gids. plain_text g"
    using game_tableD(5) [OF assms(1,2), of pid] by blast
  let ?mk = "\<lambda>gid s. record_new\<lparr>rec_gameId := gid, rec_gameStateJson := s, rec_playerIds := [pid]\<rparr>"
  let ?recs = "concat (map (\<lambda>g. case T d g of None \<Rightarrow> [] | Some (s, _) \<Rightarrow> [?mk g s]) gids)"
  have recs: "getGamesByPlayer D pid (Some d) = Some (?recs, Some d)"
    using q by (simp add: getGamesByPlayer_def collect_records_table [OF assms(1,2) plain])
  have "\<not> looks_unfinished parse r" if "r \<in> set ?recs" for r
  proof -
    from that obtain g where "r \<in> set (case T d g of None \<Rightarrow> [] | Some (s, _) \<Rightarrow> [?mk g s])"
      unfolding set_concat set_map by blast
    then obtain s st where r: "r = ?mk g s" "T d g = Some (s, st)"
      by (cases "T d g") auto
    from assms(3) r(2) obtain gs where "parse s = Some (state_toJson gs)"
      unfolding all_written_def is_written_def by blast
    with r(1) show ?thesis by (simp add: looks_unfinished_def written_members)
  qed
  then have "find (looks_unfinished parse) ?recs = None" by (simp only: find_None_iff) blast
  with recs show ?thesis by (simp add: findGameByPlayer_def)
qed

theorem find_game_finds_nothing_witness:
  "findGameByPlayer memory_database sample_parse ''a'' (Some [(''g'', ''{}'', ''active'')]) =
     Some (None, Some [(''g'', ''{}'', ''active'')])"
  by (rule find_game_finds_nothing [OF memory_game_table]) (rule sample_memory)+

section \<open>Players\<close>

definition stats_record :: "string \<Rightarrow> string option \<Rightarrow> numbers \<Rightarrow> PlayerStats" where
  "stats_record pid name n = (case n of (a, b, c, t) \<Rightarrow>
     \<lparr>st_playerId = pid, st_playerName = (case name of None \<Rightarrow> '''' | Some m \<Rightarrow> m), st_totalGames = a,
      st_gamesWon = b, st_totalScore = c, st_winRate = (if a > 0 then of_int b / of_int a else 0),
      st_lastPlayed = t, st_createdAt = 0\<rparr>)"

lemma getPlayerStats_table:
  assumes "player_tables D N S" "db_isConnected D d" "plain_text pid"
    "n = (case S d pid of None \<Rightarrow> (0, 0, 0, 0) | Some n \<Rightarrow> n)" "numbers_fit n"
  shows "getPlayerStats D pid (Some d) = (stats_record pid (N d pid) n, Some d)"
proof -
  note reads = player_tables_reads [OF assms(1-3)]
  show ?thesis
  proof (cases "S d pid")
    case None
    then show ?thesis
      using assms(4)
      by (cases "N d pid") (simp_all add: getPlayerStats_def reads column_of_def read_number_def win_rate_def
          stats_new_def stats_record_def Let_def)
  next
    case (Some m)
    obtain a b c t where m: "m = (a, b, c, t)" by (cases m)
    then have fit: "int32 a" "int32 b" "int32 c" "- (2 ^ 63) \<le> t" "t < 2 ^ 63"
      using assms(4,5) Some by (simp_all add: numbers_fit_def)
    have "column_of (\<lambda>(a, b, c, t). t) (Some m) = Some (int_to_string t)" by (simp add: column_of_def m)
    then show ?thesis
      using assms(4) Some m fit
      by (cases "N d pid") (simp_all add: getPlayerStats_def reads read_number_column win_rate_def
          stats_new_def stats_record_def Let_def stoll_int_to_string)
  qed
qed

lemma loadPlayer_table:
  assumes "player_tables D N S" "db_isConnected D d" "plain_text pid" "N d pid = Some n" "S d pid = Some (a, b, c, t)"
    "int32 a" "int32 b" "int32 c"
  shows "loadPlayer D clock pid (Some d) =
    (Some ((player_new clock pid n HUMAN)\<lparr>gamesPlayed := a, gamesWon := b, cumulativeScore := c\<rparr>), Some d)"
  using assms by (simp add: loadPlayer_def player_tables_reads [OF assms(1-3)] read_number_column Let_def player_new_def)

text \<open>Saving a player writes the numbers of the player object over whatever was stored, and loading the
  player gives them back; a player who joins a game is a new object, so joining under a known id sets
  the stored numbers of that player to zero.\<close>

theorem saved_player_loads:
  assumes "player_tables D N S" "db_isConnected D d"
    "plain_text (player_id p)" "plain_text (player_name p)"
    "numbers_fit (gamesPlayed p, gamesWon p, cumulativeScore p, now)"
  shows "\<exists>d1. savePlayer D now p (Some d) = (True, Some d1) \<and>
    loadPlayer D clock (player_id p) (Some d1) =
      (Some ((player_new clock (player_id p) (player_name p) HUMAN)
         \<lparr>gamesPlayed := gamesPlayed p, gamesWon := gamesWon p, cumulativeScore := cumulativeScore p\<rparr>), Some d1) \<and>
    (\<forall>q. q = player_id p \<or> N d1 q = N d q \<and> S d1 q = S d q) \<and>
    (p = player_new clock pid name ty \<longrightarrow> S d1 pid = Some (0, 0, 0, now))"
proof -
  obtain d0 where d0: "db_executeBound D sql_save_player [SqlText (player_id p), SqlText (player_name p), SqlInt now] d =
      (True, d0)" "db_isConnected D d0" "N d0 = (N d)(player_id p \<mapsto> player_name p)" "S d0 = S d"
    using player_tables_save [OF assms(1-4)] by blast
  let ?d1 = "save_stats D (player_id p) (gamesPlayed p) (gamesWon p) (cumulativeScore p) now d0"
  note d1 = player_tables_stats [OF assms(1) d0(2) assms(3,5)]
  have "savePlayer D now p (Some d) = (True, Some ?d1)"
    using assms(2) d0(1) by (simp add: savePlayer_def)
  moreover have "loadPlayer D clock (player_id p) (Some ?d1) =
      (Some ((player_new clock (player_id p) (player_name p) HUMAN)
         \<lparr>gamesPlayed := gamesPlayed p, gamesWon := gamesWon p, cumulativeScore := cumulativeScore p\<rparr>), Some ?d1)"
    using d1 d0 assms(3,5) by (intro loadPlayer_table [OF assms(1)]) (simp_all add: numbers_fit_def)
  moreover have "p = player_new clock pid name ty \<longrightarrow> S ?d1 pid = Some (0, 0, 0, now)"
  proof
    assume "p = player_new clock pid name ty"
    then have "player_id p = pid" "gamesPlayed p = 0" "gamesWon p = 0" "cumulativeScore p = 0"
      by (simp_all add: player_new_def)
    with d1 show "S ?d1 pid = Some (0, 0, 0, now)" by simp
  qed
  ultimately show ?thesis using d1 d0 by auto
qed

text \<open>A counted game adds one game, one win for the winner and the score to the stored numbers of the
  player, a player without numbers starting from zero, and to nobody else's; read again they give the
  sums and the exact share of games won.\<close>

theorem counted_game_adds:
  assumes "player_tables D N S" "db_isConnected D d" "plain_text pid"
    "(a, b, c, t) = (case S d pid of None \<Rightarrow> (0, 0, 0, 0) | Some n \<Rightarrow> n)" "numbers_fit (a, b, c, t)"
    "numbers_fit (a + 1, if won then b + 1 else b, c + score, now)" "0 \<le> a"
  shows "\<exists>d1. updateStats D now pid won score (Some d) = Some d1 \<and> N d1 = N d \<and>
    S d1 = (S d)(pid \<mapsto> (a + 1, if won then b + 1 else b, c + score, now)) \<and>
    fst (getPlayerStats D pid (Some d1)) =
      \<lparr>st_playerId = pid, st_playerName = (case N d pid of None \<Rightarrow> '''' | Some n \<Rightarrow> n), st_totalGames = a + 1,
       st_gamesWon = (if won then b + 1 else b), st_totalScore = c + score,
       st_winRate = of_int (if won then b + 1 else b) / of_int (a + 1), st_lastPlayed = now, st_createdAt = 0\<rparr>"
proof -
  let ?d1 = "save_stats D pid (a + 1) (if won then b + 1 else b) (c + score) now d"
  note d1 = player_tables_stats [OF assms(1-3,6)]
  have "updateStats D now pid won score (Some d) = Some ?d1"
    using getPlayerStats_table [OF assms(1-5)] by (simp add: updateStats_def stats_record_def)
  moreover have "getPlayerStats D pid (Some ?d1) =
      (stats_record pid (N ?d1 pid) (a + 1, if won then b + 1 else b, c + score, now), Some ?d1)"
    using d1 assms(3,6) by (intro getPlayerStats_table [OF assms(1)]) simp_all
  ultimately show ?thesis using d1 assms(7) by (simp add: stats_record_def)
qed

text \<open>The two tables of the players in memory.\<close>

definition memory_players :: "((string \<Rightarrow> string option) \<times> (string \<Rightarrow> numbers option)) Database" where
  "memory_players =
     \<lparr>db_isConnected = \<lambda>d. True, db_execute = \<lambda>sql d. (True, d), db_queryOne = \<lambda>sql d. (None, d),
      db_queryMany = \<lambda>sql d. Some ([], d),
      db_executeBound = \<lambda>sql ps (n, m).
        (case ps of
           [SqlText p, SqlText x, SqlInt t] \<Rightarrow> (True, (n(p \<mapsto> x), m))
         | [SqlText p, SqlInt a, SqlInt b, SqlInt c, SqlInt t] \<Rightarrow> (True, (n, m(p \<mapsto> (a, b, c, t))))
         | _ \<Rightarrow> (False, (n, m))),
      db_queryOneBound = \<lambda>sql ps (n, m).
        (case ps of
           [SqlText p] \<Rightarrow>
             if sql = sql_total_games then column_of (\<lambda>(a, b, c, t). a) (m p)
             else if sql = sql_games_won then column_of (\<lambda>(a, b, c, t). b) (m p)
             else if sql = sql_total_score then column_of (\<lambda>(a, b, c, t). c) (m p)
             else if sql = sql_last_played then column_of (\<lambda>(a, b, c, t). t) (m p)
             else n p
         | _ \<Rightarrow> None, (n, m)),
      db_queryManyBound = \<lambda>sql ps d. Some ([], d)\<rparr>"

lemma memory_player_tables: "player_tables memory_players fst snd"
proof -
  have ne: "sql_player_name \<noteq> sql_total_games" "sql_player_name \<noteq> sql_games_won"
    "sql_player_name \<noteq> sql_total_score" "sql_player_name \<noteq> sql_last_played"
    "sql_stats_name \<noteq> sql_total_games" "sql_stats_name \<noteq> sql_games_won"
    "sql_stats_name \<noteq> sql_total_score" "sql_stats_name \<noteq> sql_last_played"
    "sql_games_won \<noteq> sql_total_games" "sql_total_score \<noteq> sql_total_games" "sql_last_played \<noteq> sql_total_games"
    "sql_total_score \<noteq> sql_games_won" "sql_last_played \<noteq> sql_games_won" "sql_last_played \<noteq> sql_total_score"
    by (simp_all add: sql_player_name_def sql_stats_name_def sql_total_games_def sql_games_won_def
        sql_total_score_def sql_last_played_def)
  show ?thesis
    by (auto simp: player_tables_def memory_players_def save_stats_def Let_def ne)
qed

theorem saved_player_loads_witness:
  "\<exists>d1. savePlayer memory_players 7 (player_new 0 ''a'' ''Ada'' HUMAN) (Some (Map.empty, [''a'' \<mapsto> (9, 5, 80, 3)])) =
     (True, Some d1) \<and> snd d1 ''a'' = Some (0, 0, 0, 7)"
  using saved_player_loads [OF memory_player_tables, of "(Map.empty, [''a'' \<mapsto> (9, 5, 80, 3)])"
      "player_new 0 ''a'' ''Ada'' HUMAN" 7 0 "''a''" "''Ada''" HUMAN]
  by (auto simp: player_new_def memory_players_def numbers_fit_def int32_def plain_text_def)

theorem counted_game_adds_witness:
  "\<exists>d1. updateStats memory_players 9 ''a'' True 12 (Some (Map.empty, [''a'' \<mapsto> (3, 1, 40, 3)])) = Some d1 \<and>
     st_winRate (fst (getPlayerStats memory_players ''a'' (Some d1))) = 2 / 4"
proof -
  have "db_isConnected memory_players d" for d by (simp add: memory_players_def)
  moreover have "plain_text ''a''" "numbers_fit (3, 1, 40, 3)" "numbers_fit (3 + 1, if True then 1 + 1 else 1, 40 + 12, 9)"
    by (simp_all add: numbers_fit_def int32_def plain_text_def)
  ultimately show ?thesis
    using counted_game_adds [OF memory_player_tables, of "(Map.empty, [''a'' \<mapsto> (3, 1, 40, 3)])" "''a''" 3 1 40 3 True 12 9]
    by force
qed

end
