(* ===== verification/Whot_Utils.thy ===== *)
theory Whot_Utils
  imports Whot_Messages
begin

text \<open>
  The helpers of \<open>Utils\<close> the server itself calls little or not at all: \<open>Validation\<close>,
  \<open>JSONSerializer\<close> and \<open>Logger\<close>.
\<close>

section \<open>Validation\<close>

record ValidationError =
  verr_field :: string
  verr_message :: string
  verr_code :: string

type_synonym ValidationResult = "ValidationError list"

definition isNotEmpty :: "string \<Rightarrow> bool" where "isNotEmpty s \<longleftrightarrow> s \<noteq> ''''"

definition hasMinLength :: "string \<Rightarrow> nat \<Rightarrow> bool" where "hasMinLength s n \<longleftrightarrow> n \<le> length s"

definition hasMaxLength :: "string \<Rightarrow> nat \<Rightarrow> bool" where "hasMaxLength s n \<longleftrightarrow> length s \<le> n"

definition isAlphanumeric :: "string \<Rightarrow> bool" where
  "isAlphanumeric s \<longleftrightarrow> s \<noteq> '''' \<and> list_all is_alnum s"

text \<open>\<open>regex_match\<close> gives the match of a text, or throws for a pattern that is not one.\<close>

definition matchesPattern :: "(string \<Rightarrow> (string \<Rightarrow> bool) option) \<Rightarrow> string \<Rightarrow> string \<Rightarrow> bool" where
  "matchesPattern regex s pat = (case regex pat of None \<Rightarrow> False | Some matches \<Rightarrow> matches s)"

definition isInRange :: "int \<Rightarrow> int \<Rightarrow> int \<Rightarrow> bool" where "isInRange v lo hi \<longleftrightarrow> lo \<le> v \<and> v \<le> hi"

definition isPositive :: "int \<Rightarrow> bool" where "isPositive v \<longleftrightarrow> 0 < v"

definition hasMinSize :: "'a list \<Rightarrow> nat \<Rightarrow> bool" where "hasMinSize xs n \<longleftrightarrow> n \<le> length xs"

definition hasMaxSize :: "'a list \<Rightarrow> nat \<Rightarrow> bool" where "hasMaxSize xs n \<longleftrightarrow> length xs \<le> n"

definition validate :: "string \<Rightarrow> (string \<Rightarrow> bool) \<Rightarrow> bool" where "validate v rule = rule v"

definition result_new :: ValidationResult where "result_new = []"

definition isValid :: "ValidationResult \<Rightarrow> bool" where "isValid r \<longleftrightarrow> r = []"

definition addError :: "ValidationError \<Rightarrow> ValidationResult \<Rightarrow> ValidationResult" where
  "addError e r = r @ [e]"

definition error_text :: "ValidationError \<Rightarrow> string" where
  "error_text e = verr_field e @ (if verr_message e = '''' then '''' else '': '' @ verr_message e)"

fun join_errors :: "ValidationError list \<Rightarrow> string" where
  "join_errors [] = ''''"
| "join_errors (e # es) = ''; '' @ error_text e @ join_errors es"

definition getErrorMessage :: "ValidationResult \<Rightarrow> string" where
  "getErrorMessage r = (case r of [] \<Rightarrow> '''' | e # es \<Rightarrow> error_text e @ join_errors es)"

section \<open>JSON helpers\<close>

text \<open>A tree that nothing was put into is \<open>null\<close>.\<close>

definition json_of_map :: "(string, string) smap \<Rightarrow> json" where
  "json_of_map m = (if m = [] then JNull else json_object (map (\<lambda>(k, v). (k, JString v)) m))"

definition serialize_map :: "(json \<Rightarrow> string) \<Rightarrow> (string, string) smap \<Rightarrow> string" where
  "serialize_map dump m = dump (json_of_map m)"

definition serialize_list :: "(json \<Rightarrow> string) \<Rightarrow> string list \<Rightarrow> string" where
  "serialize_list dump xs = dump (JArray (map JString xs))"

definition isValidJson :: "(string \<Rightarrow> json option) \<Rightarrow> string \<Rightarrow> bool" where
  "isValidJson parse s \<longleftrightarrow> s \<noteq> '''' \<and> parse s \<noteq> None"

definition valid_parse :: "(string \<Rightarrow> json option) \<Rightarrow> string \<Rightarrow> json option" where
  "valid_parse parse s = (if isValidJson parse s then parse s else None)"

definition deserializeObject ::
    "(string \<Rightarrow> json option) \<Rightarrow> (json \<Rightarrow> string) \<Rightarrow> string \<Rightarrow> (string, string) smap" where
  "deserializeObject parse dump s =
     (case valid_parse parse s of
        Some (JObject ms) \<Rightarrow> fold (\<lambda>(k, v). map_put k (payload_text dump v)) ms []
      | _ \<Rightarrow> [])"

definition deserializeArray :: "(string \<Rightarrow> json option) \<Rightarrow> (json \<Rightarrow> string) \<Rightarrow> string \<Rightarrow> string list" where
  "deserializeArray parse dump s =
     (case valid_parse parse s of Some (JArray js) \<Rightarrow> map (payload_text dump) js | _ \<Rightarrow> [])"

definition member :: "(string \<Rightarrow> json option) \<Rightarrow> string \<Rightarrow> string \<Rightarrow> json option" where
  "member parse s k = (case valid_parse parse s of None \<Rightarrow> None | Some j \<Rightarrow> json_find j k)"

definition js_getString :: "(string \<Rightarrow> json option) \<Rightarrow> string \<Rightarrow> string \<Rightarrow> string option" where
  "js_getString parse s k = (case member parse s k of Some (JString v) \<Rightarrow> Some v | _ \<Rightarrow> None)"

definition js_getInt :: "(string \<Rightarrow> json option) \<Rightarrow> string \<Rightarrow> string \<Rightarrow> int option" where
  "js_getInt parse s k = (case member parse s k of Some (JInt n) \<Rightarrow> Some (to_int32 n) | _ \<Rightarrow> None)"

definition js_getBool :: "(string \<Rightarrow> json option) \<Rightarrow> string \<Rightarrow> string \<Rightarrow> bool option" where
  "js_getBool parse s k = (case member parse s k of Some (JBool b) \<Rightarrow> Some b | _ \<Rightarrow> None)"

definition createString :: "(json \<Rightarrow> string) \<Rightarrow> string \<Rightarrow> string \<Rightarrow> string" where
  "createString dump k v = dump (json_object [(k, JString v)])"

definition createInt :: "(json \<Rightarrow> string) \<Rightarrow> string \<Rightarrow> int \<Rightarrow> string" where
  "createInt dump k v = dump (json_object [(k, JInt v)])"

definition createBool :: "(json \<Rightarrow> string) \<Rightarrow> string \<Rightarrow> bool \<Rightarrow> string" where
  "createBool dump k v = dump (json_object [(k, JBool v)])"

definition createArray :: "(json \<Rightarrow> string) \<Rightarrow> string \<Rightarrow> string list \<Rightarrow> string" where
  "createArray dump k vs = dump (json_object [(k, JArray (map JString vs))])"

definition js_escape :: "(json \<Rightarrow> string) \<Rightarrow> string \<Rightarrow> string" where
  "js_escape dump s = dump (JString s)"

definition js_unescape :: "(string \<Rightarrow> json option) \<Rightarrow> string \<Rightarrow> string" where
  \<open>js_unescape parse s =
     (if length s < 2 \<or> hd s \<noteq> CHR 0x22 \<or> last s \<noteq> CHR 0x22 then s
      else case parse s of Some (JString t) \<Rightarrow> t | _ \<Rightarrow> s)\<close>

section \<open>Logger\<close>

datatype LogLevel = LOG_DEBUG | LOG_INFO | LOG_WARNING | LOG_ERROR | LOG_CRITICAL

fun level_int :: "LogLevel \<Rightarrow> int" where
  "level_int LOG_DEBUG = 0"
| "level_int LOG_INFO = 1"
| "level_int LOG_WARNING = 2"
| "level_int LOG_ERROR = 3"
| "level_int LOG_CRITICAL = 4"

text \<open>\<open>log_file\<close>: the file that is open; \<open>log_console\<close> and \<open>log_lines\<close>: the lines written to the
  console and to files, oldest first.\<close>

record Logger =
  log_minLevel :: LogLevel
  log_file :: "string option"
  log_consoleOutput :: bool
  log_fileOutput :: bool
  log_includeTimestamp :: bool
  log_includeLevel :: bool
  log_includeThreadId :: bool
  log_console :: "string list"
  log_lines :: "(string \<times> string) list"

definition logger_new :: Logger where
  "logger_new = \<lparr>log_minLevel = LOG_INFO, log_file = None, log_consoleOutput = True, log_fileOutput = False,
     log_includeTimestamp = True, log_includeLevel = True, log_includeThreadId = False,
     log_console = [], log_lines = []\<rparr>"

definition setLogLevel :: "LogLevel \<Rightarrow> Logger \<Rightarrow> Logger" where "setLogLevel l lg = lg\<lparr>log_minLevel := l\<rparr>"

text \<open>\<open>opens\<close>: whether the file can be opened for appending.\<close>

definition setLogFile :: "(string \<Rightarrow> bool) \<Rightarrow> string \<Rightarrow> Logger \<Rightarrow> Logger" where
  "setLogFile opens path lg = lg\<lparr>log_file := (if path \<noteq> '''' \<and> opens path then Some path else None)\<rparr>"

definition enableConsoleOutput :: "bool \<Rightarrow> Logger \<Rightarrow> Logger" where
  "enableConsoleOutput b lg = lg\<lparr>log_consoleOutput := b\<rparr>"

definition enableFileOutput :: "bool \<Rightarrow> Logger \<Rightarrow> Logger" where
  "enableFileOutput b lg = lg\<lparr>log_fileOutput := b\<rparr>"

definition setIncludeTimestamp :: "bool \<Rightarrow> Logger \<Rightarrow> Logger" where
  "setIncludeTimestamp b lg = lg\<lparr>log_includeTimestamp := b\<rparr>"

definition setIncludeLevel :: "bool \<Rightarrow> Logger \<Rightarrow> Logger" where
  "setIncludeLevel b lg = lg\<lparr>log_includeLevel := b\<rparr>"

definition setIncludeThreadId :: "bool \<Rightarrow> Logger \<Rightarrow> Logger" where
  "setIncludeThreadId b lg = lg\<lparr>log_includeThreadId := b\<rparr>"

fun levelToString :: "LogLevel \<Rightarrow> string" where
  "levelToString LOG_DEBUG = ''DEBUG''"
| "levelToString LOG_INFO = ''INFO''"
| "levelToString LOG_WARNING = ''WARNING''"
| "levelToString LOG_ERROR = ''ERROR''"
| "levelToString LOG_CRITICAL = ''CRITICAL''"

text \<open>\<open>stamp\<close>: the local time as \<open>put_time\<close> writes it.\<close>

definition formatMessage :: "string \<Rightarrow> LogLevel \<Rightarrow> string \<Rightarrow> Logger \<Rightarrow> string" where
  "formatMessage stamp level message lg =
     (if log_includeTimestamp lg then ''['' @ stamp @ ''] '' else '''') @
     (if log_includeLevel lg then ''['' @ levelToString level @ ''] '' else '''') @ message"

definition log_message :: "string \<Rightarrow> LogLevel \<Rightarrow> string \<Rightarrow> Logger \<Rightarrow> Logger" where
  "log_message stamp level message lg =
     (if level_int level < level_int (log_minLevel lg) then lg
      else let line = formatMessage stamp level message lg;
               lg1 = (if log_consoleOutput lg then lg\<lparr>log_console := log_console lg @ [line]\<rparr> else lg)
           in case log_file lg1 of
                Some f \<Rightarrow> if log_fileOutput lg1 then lg1\<lparr>log_lines := log_lines lg1 @ [(f, line)]\<rparr> else lg1
              | None \<Rightarrow> lg1)"

definition log_debug :: "string \<Rightarrow> string \<Rightarrow> Logger \<Rightarrow> Logger" where "log_debug stamp = log_message stamp LOG_DEBUG"
definition log_info :: "string \<Rightarrow> string \<Rightarrow> Logger \<Rightarrow> Logger" where "log_info stamp = log_message stamp LOG_INFO"
definition log_warning :: "string \<Rightarrow> string \<Rightarrow> Logger \<Rightarrow> Logger" where "log_warning stamp = log_message stamp LOG_WARNING"
definition log_error :: "string \<Rightarrow> string \<Rightarrow> Logger \<Rightarrow> Logger" where "log_error stamp = log_message stamp LOG_ERROR"
definition log_critical :: "string \<Rightarrow> string \<Rightarrow> Logger \<Rightarrow> Logger" where "log_critical stamp = log_message stamp LOG_CRITICAL"

end
