(* ===== verification/Whot_Main.thy ===== *)
theory Whot_Main
  imports Whot_Handlers Whot_Database Whot_Utils "HOL-Library.Word"
begin

text \<open>
  \<open>main.cpp\<close>: the configuration of the server, from the environment and the command line.  An
  exception of \<open>stoi\<close> is outside the \<open>try\<close> of \<open>main\<close> and ends the program (\<open>None\<close>).
\<close>

record ApplicationConfig =
  cfg_websocketPort :: "16 word"
  cfg_httpPort :: "16 word"
  cfg_staticFilesPath :: string
  cfg_dbConfig :: DatabaseConfig
  cfg_maxGamesPerServer :: int
  cfg_maxPlayersPerGame :: int
  cfg_enableAI :: bool
  cfg_logFilePath :: string

definition application_config :: "DatabaseConfig \<Rightarrow> ApplicationConfig" where
  "application_config db = \<lparr>cfg_websocketPort = 8080, cfg_httpPort = 8081, cfg_staticFilesPath = ''./web'',
     cfg_dbConfig = db, cfg_maxGamesPerServer = 100, cfg_maxPlayersPerGame = 8, cfg_enableAI = True,
     cfg_logFilePath = ''./logs/whot.log''\<rparr>"

text \<open>\<open>Help\<close>: the help text was printed, and the program ends.\<close>

datatype CommandLine = Help | Run ApplicationConfig string

text \<open>The path of the database before the arguments are read.\<close>

definition initial_db_path :: "string option \<Rightarrow> string" where
  "initial_db_path env = (case env of Some v \<Rightarrow> if v = '''' then ''./whot.db'' else v | None \<Rightarrow> ''./whot.db'')"

function parse_args :: "string list \<Rightarrow> ApplicationConfig \<Rightarrow> string \<Rightarrow> CommandLine option" where
  "parse_args [] cfg db = Some (Run cfg db)"
| "parse_args (arg # rest) cfg db =
     (if arg = ''--ws-port'' \<and> rest \<noteq> [] then
        (case stoi (hd rest) of
           None \<Rightarrow> None
         | Some n \<Rightarrow> parse_args (tl rest) (cfg\<lparr>cfg_websocketPort := word_of_int n\<rparr>) db)
      else if arg = ''--http-port'' \<and> rest \<noteq> [] then
        (case stoi (hd rest) of
           None \<Rightarrow> None
         | Some n \<Rightarrow> parse_args (tl rest) (cfg\<lparr>cfg_httpPort := word_of_int n\<rparr>) db)
      else if arg = ''--static-path'' \<and> rest \<noteq> [] then
        parse_args (tl rest) (cfg\<lparr>cfg_staticFilesPath := hd rest\<rparr>) db
      else if arg = ''--log-file'' \<and> rest \<noteq> [] then
        parse_args (tl rest) (cfg\<lparr>cfg_logFilePath := hd rest\<rparr>) db
      else if arg = ''--db-path'' \<and> rest \<noteq> [] then parse_args (tl rest) cfg (hd rest)
      else if arg = ''--no-ai'' then parse_args rest (cfg\<lparr>cfg_enableAI := False\<rparr>) db
      else if arg = ''--help'' \<or> arg = ''-h'' then Some Help
      else parse_args rest cfg db)"
  by pat_completeness auto
termination by (relation "measure (\<lambda>(args, cfg, db). length args)") auto

text \<open>The configuration \<open>main\<close> makes of the path and gives to the application.\<close>

definition final_config :: "ApplicationConfig \<Rightarrow> string \<Rightarrow> ApplicationConfig" where
  "final_config cfg path = cfg\<lparr>cfg_dbConfig := (cfg_dbConfig cfg)\<lparr>dbc_type := SQLITE, dbc_filepath := path\<rparr>\<rparr>"

definition main_config :: "string option \<Rightarrow> string list \<Rightarrow> ApplicationConfig \<Rightarrow> CommandLine option" where
  "main_config env args cfg =
     (case parse_args args cfg (initial_db_path env) of
        Some (Run cfg1 path) \<Rightarrow> Some (Run (final_config cfg1 path) path)
      | r \<Rightarrow> r)"

text \<open>How \<open>main\<close> sets up the logger.\<close>

definition setup_logger :: "(string \<Rightarrow> bool) \<Rightarrow> ApplicationConfig \<Rightarrow> Logger \<Rightarrow> Logger" where
  "setup_logger opens cfg lg =
     enableFileOutput True (enableConsoleOutput True (setLogLevel LOG_INFO (setLogFile opens (cfg_logFilePath cfg) lg)))"

section \<open>Written options\<close>

datatype Option =
    WsPort int | HttpPort int | StaticPath string | LogFile string | DbPath string | NoAi

fun option_args :: "Option \<Rightarrow> string list" where
  "option_args (WsPort n) = [''--ws-port'', int_to_string n]"
| "option_args (HttpPort n) = [''--http-port'', int_to_string n]"
| "option_args (StaticPath p) = [''--static-path'', p]"
| "option_args (LogFile p) = [''--log-file'', p]"
| "option_args (DbPath p) = [''--db-path'', p]"
| "option_args NoAi = [''--no-ai'']"

fun option_ok :: "Option \<Rightarrow> bool" where
  "option_ok (WsPort n) \<longleftrightarrow> - (2 ^ 31) \<le> n \<and> n < 2 ^ 31"
| "option_ok (HttpPort n) \<longleftrightarrow> - (2 ^ 31) \<le> n \<and> n < 2 ^ 31"
| "option_ok _ \<longleftrightarrow> True"

fun apply_option :: "Option \<Rightarrow> ApplicationConfig \<times> string \<Rightarrow> ApplicationConfig \<times> string" where
  "apply_option (WsPort n) (cfg, db) = (cfg\<lparr>cfg_websocketPort := word_of_int n\<rparr>, db)"
| "apply_option (HttpPort n) (cfg, db) = (cfg\<lparr>cfg_httpPort := word_of_int n\<rparr>, db)"
| "apply_option (StaticPath p) (cfg, db) = (cfg\<lparr>cfg_staticFilesPath := p\<rparr>, db)"
| "apply_option (LogFile p) (cfg, db) = (cfg\<lparr>cfg_logFilePath := p\<rparr>, db)"
| "apply_option (DbPath p) (cfg, db) = (cfg, p)"
| "apply_option NoAi (cfg, db) = (cfg\<lparr>cfg_enableAI := False\<rparr>, db)"

lemma parse_option:
  assumes "option_ok x"
  shows "parse_args (option_args x @ rest) cfg db =
    (case apply_option x (cfg, db) of (cfg1, db1) \<Rightarrow> parse_args rest cfg1 db1)"
  using assms by (cases x) (simp_all add: stoi_int_to_string)

lemma parse_options:
  "list_all option_ok xs \<Longrightarrow>
   parse_args (concat (map option_args xs)) cfg db =
     (case fold apply_option xs (cfg, db) of (cfg1, db1) \<Rightarrow> Some (Run cfg1 db1))"
proof (induction xs arbitrary: cfg db)
  case (Cons x xs)
  then show ?case by (cases "apply_option x (cfg, db)") (simp add: parse_option)
qed simp

end
