(* ===== verification/Whot_UtilProps.thy ===== *)
theory Whot_UtilProps
  imports Whot_Main Whot_MessageProps
begin

text \<open>
  The command line, the JSON helpers and the logger.
\<close>

text \<open>C35: Options with their values, in any number and any order, set exactly what they name, a later one
  replacing an earlier one; a port is reduced to sixteen bits without a word of warning, so that every
  port given starts the server on the port congruent to it modulo 65536.  A request for help anywhere
  after them ends the program.\<close>

theorem command_line_options:
  assumes "list_all option_ok xs"
  shows "main_config env (concat (map option_args xs)) cfg =
      (case fold apply_option xs (cfg, initial_db_path env) of
         (cfg1, path) \<Rightarrow> Some (Run (final_config cfg1 path) path)) \<and>
    (h \<in> {''--help'', ''-h''} \<longrightarrow> main_config env (concat (map option_args xs) @ h # rest) cfg = Some Help) \<and>
    (- (2 ^ 31) \<le> n \<and> n < 2 ^ 31 \<longrightarrow>
       (\<exists>cfg1. parse_args [''--ws-port'', int_to_string n] cfg path = Some (Run cfg1 path) \<and>
          uint (cfg_websocketPort cfg1) = n mod 65536))"
proof (intro conjI impI)
  show "main_config env (concat (map option_args xs)) cfg =
      (case fold apply_option xs (cfg, initial_db_path env) of
         (cfg1, path) \<Rightarrow> Some (Run (final_config cfg1 path) path))"
    by (cases "fold apply_option xs (cfg, initial_db_path env)") (simp add: main_config_def parse_options [OF assms])
next
  assume "h \<in> {''--help'', ''-h''}"
  then have helped: "parse_args (h # rest) c d = Some Help" for c d by auto
  have "parse_args (concat (map option_args xs) @ h # rest) c d = Some Help" for c d
    using assms
  proof (induction xs arbitrary: c d)
    case (Cons x xs)
    then show ?case by (cases "apply_option x (c, d)") (simp add: parse_option)
  qed (simp only: concat.simps list.map append_Nil helped)
  then show "main_config env (concat (map option_args xs) @ h # rest) cfg = Some Help"
    by (simp add: main_config_def)
next
  assume "- (2 ^ 31) \<le> n \<and> n < 2 ^ 31"
  then have "stoi (int_to_string n) = Some n" by (simp add: stoi_int_to_string)
  then show "\<exists>cfg1. parse_args [''--ws-port'', int_to_string n] cfg path = Some (Run cfg1 path) \<and>
      uint (cfg_websocketPort cfg1) = n mod 65536"
    by (simp add: uint_word_of_int)
qed

definition sample_db_config :: DatabaseConfig where
  "sample_db_config = \<lparr>dbc_type = SQLITE, dbc_host = '''', dbc_port = 0, dbc_database = '''',
     dbc_username = '''', dbc_password = '''', dbc_filepath = '''', dbc_poolSize = 10\<rparr>"

theorem command_line_options_witness:
  "main_config None [''--ws-port'', int_to_string 70000, ''--no-ai''] (application_config sample_db_config) =
     Some (Run (final_config ((application_config sample_db_config)\<lparr>cfg_websocketPort := word_of_int 70000,
        cfg_enableAI := False\<rparr>) ''./whot.db'') ''./whot.db'')"
  using command_line_options [of "[WsPort 70000, NoAi]" None "application_config sample_db_config"]
  by (simp add: initial_db_path_def)

text \<open>A map of texts and a list of texts are read back from the text they are written to.\<close>

theorem json_helpers_round_trip:
  assumes "map_wf m" "\<forall>j \<in> {json_of_map m, JArray (map JString xs)}. dump j \<noteq> '''' \<and> parse (dump j) = Some j"
  shows "deserializeObject parse dump (serialize_map dump m) = m \<and>
    deserializeArray parse dump (serialize_list dump xs) = xs"
proof
  have obj: "json_object (map (\<lambda>(k, v). (k, JString v)) m) = JObject (map (\<lambda>(k, v). (k, JString v)) m)"
  proof -
    have "map_wf (map (\<lambda>(k, v). (k, JString v)) m)"
      using assms(1) by (simp add: map_wf_def o_def case_prod_unfold)
    then show ?thesis
      using fold_scores [OF map_wf_Nil, of "map (\<lambda>(k, v). (k, JString v)) m"] by (simp add: json_object_def)
  qed
  have read: "fold (\<lambda>(k, v). map_put k (payload_text dump v)) (map (\<lambda>(k, v). (k, JString v)) m) [] = m"
    using fold_scores [OF map_wf_Nil assms(1)] by (simp add: fold_map o_def case_prod_unfold)
  show "deserializeObject parse dump (serialize_map dump m) = m"
    using assms(2) read obj
    by (cases "m = []")
      (simp_all add: deserializeObject_def serialize_map_def valid_parse_def isValidJson_def json_of_map_def)
  show "deserializeArray parse dump (serialize_list dump xs) = xs"
    using assms(2)
    by (simp add: deserializeArray_def serialize_list_def valid_parse_def isValidJson_def o_def)
qed

theorem json_helpers_round_trip_witness:
  "\<exists>parse dump. deserializeObject parse dump (serialize_map dump [(''a'', ''1'')]) = [(''a'', ''1'')]"
proof -
  let ?m = "json_of_map [(''a'', ''1'')]" and ?l = "JArray (map JString [''x''])"
  let ?dump = "\<lambda>j. if j = ?m then ''m'' else ''l''"
  let ?parse = "\<lambda>s. Some (if s = ''m'' then ?m else ?l)"
  have "\<forall>j \<in> {json_of_map [(''a'', ''1'')], JArray (map JString [''x''])}.
      ?dump j \<noteq> '''' \<and> ?parse (?dump j) = Some j"
    by simp
  then have "deserializeObject ?parse ?dump (serialize_map ?dump [(''a'', ''1'')]) = [(''a'', ''1'')]"
    by (rule json_helpers_round_trip [OF _ , THEN conjunct1, rotated]) (simp add: map_wf_def)
  then show ?thesis by (intro exI)
qed

text \<open>The logger writes exactly the messages at or above its level: to the console when that is
  enabled, to the open file when that is, and nothing else changes.\<close>

theorem logger_writes_from_level:
  "log_message stamp level message lg = lg
     \<lparr>log_console := log_console lg @
        (if level_int (log_minLevel lg) \<le> level_int level \<and> log_consoleOutput lg
         then [formatMessage stamp level message lg] else []),
      log_lines := log_lines lg @
        (case log_file lg of
           None \<Rightarrow> []
         | Some f \<Rightarrow> if level_int (log_minLevel lg) \<le> level_int level \<and> log_fileOutput lg
             then [(f, formatMessage stamp level message lg)] else [])\<rparr>"
  by (cases lg) (auto simp: log_message_def Let_def split: option.split)

end
