(* ===== verification/Whot_BotProps.thy ===== *)
theory Whot_BotProps
  imports Whot_HandlerProps Whot_AIProps
begin

text \<open>
  The turns the server makes for its bots, and what it writes to the database when a player acts.
\<close>

section \<open>Turns of the bots\<close>

definition waits_for_human :: "GameEngine \<Rightarrow> bool" where
  "waits_for_human eng \<longleftrightarrow> phase (eng_state eng) \<noteq> IN_PROGRESS \<or>
     (case getCurrentPlayer (eng_state eng) of
        None \<Rightarrow> True | Some i \<Rightarrow> player_type (players (eng_state eng) ! i) = HUMAN)"

definition bot_ready :: "GameEngine \<Rightarrow> bool" where
  "bot_ready eng \<longleftrightarrow> distinct (map player_id (players (eng_state eng))) \<and> demandedSuit (eng_state eng) = None"

lemma ready_process:
  assumes "processAction a eng = Some (res, eng')" "act_type a \<noteq> CHOOSE_SUIT" "bot_ready eng"
  shows "bot_ready eng'"
  using move_keeps_no_demand [OF assms(1,2)] badge_process [OF assms(1)] assms(3)
  by (simp add: bot_ready_def badge_def)

lemma ready_newRound: "bot_ready eng \<Longrightarrow> bot_ready (startNewRound now eng)"
  using badge_newRound [of now eng]
  by (simp add: bot_ready_def badge_def startNewRound_state dealt_state_def flip_call_card_def setCallCard_def
      state_startRound_def Let_def split: option.split prod.split)

lemma ai_new_strategy: "\<exists>st. ai_strategy (ai_new pid name lv) = Some st"
  by (simp add: ai_new_def)

text \<open>One pass of the loop at a table that is ready.\<close>

lemma bot_turn_ready:
  assumes "map_wf (activeGames app)" "getGame gid app = Some eng" "bot_ready eng"
  shows "if waits_for_human eng then bot_turn L gid app = Some (False, app)
     else \<exists>app1 eng1. bot_turn L gid app = Some (True, app1) \<and> map_wf (activeGames app1) \<and>
            getGame gid app1 = Some eng1 \<and> bot_ready eng1"
proof (cases "waits_for_human eng")
  case True
  then show ?thesis
    using assms(2) by (auto simp: bot_turn_def waits_for_human_def Let_def split: option.splits)
next
  case False
  then obtain i where cur: "phase (eng_state eng) = IN_PROGRESS" "getCurrentPlayer (eng_state eng) = Some i"
    "player_type (players (eng_state eng) ! i) \<noteq> HUMAN"
    by (auto simp: waits_for_human_def split: option.splits)
  let ?p = "players (eng_state eng) ! i"
  let ?ai = "ai_new (player_id ?p) (player_name ?p) (bot_level (player_type ?p))"
  obtain st where st: "ai_strategy ?ai = Some st" using ai_new_strategy by blast
  have id: "player_id ?p = ai_id ?ai" by (simp add: ai_new_def)
  obtain a r res eng1 where d: "decideAction ?ai (eng_state eng) (app_rng app) = Some (a, r)"
    and pr: "processAction a eng = Some (res, eng1)" "res_success res" "act_type a \<in> {PLAY_CARD, DRAW_CARD}"
    using bot_moves [OF cur(2) id conjunct1 conjunct2 st, OF assms(3) [unfolded bot_ready_def]
        assms(3) [unfolded bot_ready_def], of "app_rng app"] by blast
  let ?app1 = "answer_dumped res (put_engine gid eng1 (app\<lparr>app_rng := r\<rparr>))"
  let ?app2 = "broadcastGameState L gid ?app1"
  have turn: "bot_turn L gid app = Some (True, next_round L gid eng1 ?app2)"
    using assms(2) cur d pr by (simp add: bot_turn_def Let_def)
  have wf: "map_wf (activeGames ?app2)" using assms(1) by (simp add: wf_put)
  have ready: "bot_ready eng1" using ready_process [OF pr(1) _ assms(3)] pr(3) by auto
  show ?thesis
  proof (cases "phase (eng_state eng1) = ROUND_ENDED \<and> \<not> checkGameEnd (eng_state eng1)")
    case True
    let ?new = "startNewRound (app_steady ?app2) eng1"
    have "next_round L gid eng1 ?app2 = broadcastGameState L gid (put_new_round gid eng1 ?app2)"
      using True by (simp add: next_round_def)
    then show ?thesis
      using turn \<open>\<not> waits_for_human eng\<close> wf ready_newRound [OF ready, of "app_steady ?app2"]
      by (simp add: wf_put get_put getGame_def)
  next
    case False
    then have "next_round L gid eng1 ?app2 = ?app2" by (auto simp: next_round_def)
    then show ?thesis
      using turn \<open>\<not> waits_for_human eng\<close> wf ready assms(1) by (simp add: get_put getGame_def)
  qed
qed

definition bot_step :: "JsonLib \<Rightarrow> string \<Rightarrow> (Application \<times> Application) set" where
  "bot_step L gid = {(app, app1). bot_turn L gid app = Some (True, app1)}"

lemma bot_turns_ready:
  assumes "map_wf (activeGames app)" "getGame gid app = Some eng" "bot_ready eng"
  shows "\<exists>app' eng' k. bot_turns L gid n app = Some app' \<and> getGame gid app' = Some eng' \<and> k \<le> n \<and>
    (app, app') \<in> bot_step L gid ^^ k \<and> (k = n \<or> waits_for_human eng')"
  using assms
proof (induction n arbitrary: app eng)
  case (Suc n)
  note turn = bot_turn_ready [OF Suc.prems, of L]
  show ?case
  proof (cases "waits_for_human eng")
    case True
    with turn Suc.prems(2) show ?thesis by (intro exI [of _ app] exI [of _ eng] exI [of _ 0]) simp
  next
    case False
    with turn obtain app1 eng1 where t: "bot_turn L gid app = Some (True, app1)" "map_wf (activeGames app1)"
      "getGame gid app1 = Some eng1" "bot_ready eng1" by auto
    from Suc.IH [OF t(2-4)] obtain app' eng' k where k: "bot_turns L gid n app1 = Some app'"
      "getGame gid app' = Some eng'" "k \<le> n" "(app1, app') \<in> bot_step L gid ^^ k" "k = n \<or> waits_for_human eng'"
      by blast
    have "(app, app') \<in> bot_step L gid ^^ Suc k"
      using t(1) k(4) by (intro relpow_Suc_I2) (simp_all add: bot_step_def)
    with t(1) k show ?thesis
      by (intro exI [of _ app'] exI [of _ eng'] exI [of _ "Suc k"]) simp
  qed
qed auto

text \<open>C12: The bots move as long as they can.  While no suit is demanded, the loop returns (no
  decision and no move throws, and no null pointer is dereferenced; only writing a state with a name that is not
  UTF-8 could throw), every move a bot decides on is accepted, and when the loop
  is over the game waits for a human player, is between rounds, or the bots have made fifty moves in
  a row.\<close>

theorem bots_move_until_human:
  assumes "map_wf (activeGames app)" "getGame gid app = Some eng"
    "distinct (map player_id (players (eng_state eng)))" "demandedSuit (eng_state eng) = None"
  shows "\<exists>app' eng' k. runBotTurnsIfNeeded L gid app = Some app' \<and> getGame gid app' = Some eng' \<and> k \<le> 50 \<and>
    (app, app') \<in> bot_step L gid ^^ k \<and> (k = 50 \<or> waits_for_human eng')"
  using bot_turns_ready [OF assms(1,2), of L 50] assms(3,4) by (simp add: runBotTurnsIfNeeded_def bot_ready_def)

definition bot_table :: GameEngine where
  "bot_table = (sample_engine [Card STAR ONE] [] (Card STAR TEN))
     \<lparr>eng_state := (sample_state [Card STAR ONE] [] (Card STAR TEN))
        \<lparr>players := [(sample_player ''a'' [Card STAR ONE])\<lparr>player_type := AI_EASY\<rparr>, sample_player ''b'' []]\<rparr>\<rparr>"

theorem bots_move_until_human_witness:
  "\<exists>app'. runBotTurnsIfNeeded sample_lib ''g'' (put_engine ''g'' bot_table (sample_app [])) = Some app'"
proof -
  have "activeGames (put_engine ''g'' bot_table (sample_app [])) = [(''g'', bot_table)]" by simp
  then have "map_wf (activeGames (put_engine ''g'' bot_table (sample_app [])))"
    "getGame ''g'' (put_engine ''g'' bot_table (sample_app [])) = Some bot_table"
    by (simp_all add: map_wf_def getGame_def map_get_def)
  moreover have "distinct (map player_id (players (eng_state bot_table)))" "demandedSuit (eng_state bot_table) = None"
    by (simp_all add: bot_table_def)
  ultimately show ?thesis using bots_move_until_human by blast
qed

section \<open>What is saved\<close>

lemma bot_turn_store:
  assumes "bot_turn L gid app = Some (go_on, app')"
  shows "app_store app' = app_store app \<and> app_db app' = app_db app"
  using assms by (cases rule: bot_turn_cases) (simp_all add: next_round_def put_engine_def Let_def)

lemma bot_turns_store:
  "bot_turns L gid n app = Some app' \<Longrightarrow> app_store app' = app_store app \<and> app_db app' = app_db app"
proof (induction n arbitrary: app)
  case (Suc n)
  from Suc.prems obtain go_on app1 where t: "bot_turn L gid app = Some (go_on, app1)"
    "(if go_on then bot_turns L gid n app1 else Some app1) = Some app'" by (auto split: option.splits)
  show ?case using Suc.IH [of app1] bot_turn_store [OF t(1)] t(2) by (cases go_on) auto
qed simp

definition saved :: "Application \<Rightarrow> StoreCall list \<Rightarrow> StoreCall list" where
  "saved app calls = (if app_db app then calls else [])"

lemma store_calls:
  "app_store (store c app) = app_store app @ saved app [c]" "app_db (store c app) = app_db app"
  by (simp_all add: store_def saved_def Let_def split: StoreCall.split)

lemma fold_store_calls:
  "app_store (fold (\<lambda>x. store (f x)) xs app) = app_store app @ saved app (map f xs) \<and>
   app_db (fold (\<lambda>x. store (f x)) xs app) = app_db app"
  by (induction xs arbitrary: app) (simp_all add: store_calls saved_def)

text \<open>C24: What any accepted action hands to the database: the state it leaves, then, had the game ended, the
  statistics of every player, and the new round if the action ended one; what the bots do after it is
  not saved, and a player who leaves is not either.  The handling of the action returns when no suit is demanded
  and the action demands none.\<close>

theorem accepted_action_saved:
  assumes "session_defaults sid m app = (gid, pid)" "getGame gid app = Some eng" "pid \<noteq> ''''"
    "action_of_message L pid m = Some a" "processAction a eng = Some (res, eng1)" "res_success res"
    "map_wf (activeGames app)"
  shows "(\<forall>app'. handleGameAction L sid m app = Some app' \<longrightarrow>
      app_store app' = app_store app @ saved app
        (SaveGame (eng_state eng1) #
         (if phase (eng_state eng1) = GAME_ENDED
          then map (\<lambda>p. UpdateStats (player_id p) (getWinnerId (eng_state eng1) = Some (player_id p)) (cumulativeScore p))
            (players (eng_state eng1)) else []) @
         (if phase (eng_state eng1) = ROUND_ENDED
          then [SaveGame (eng_state (startNewRound (app_steady app) eng1))] else []))) \<and>
    (distinct (map player_id (players (eng_state eng))) \<and> demandedSuit (eng_state eng) = None \<and> act_type a \<noteq> CHOOSE_SUIT \<longrightarrow>
      handleGameAction L sid m app \<noteq> None) \<and>
    app_store (snd (leaveGame L gref pid app)) = app_store app"
proof -
  let ?app1 = "answer_dumped res (put_engine gid eng1 app)" and ?new = "startNewRound (app_steady app) eng1"
  let ?app2 = "action_accepted L gid eng1 ?app1"
  have calls: "app_store ?app2 = app_store app @ saved app
      (SaveGame (eng_state eng1) #
       (if phase (eng_state eng1) = GAME_ENDED
        then map (\<lambda>p. UpdateStats (player_id p) (getWinnerId (eng_state eng1) = Some (player_id p)) (cumulativeScore p))
          (players (eng_state eng1)) else []) @
       (if phase (eng_state eng1) = ROUND_ENDED then [SaveGame (eng_state ?new)] else []))"
    by (simp add: action_accepted_def store_stats_def Let_def store_calls fold_store_calls saved_def put_engine_def
        checkGameEnd_def)
  have handled: "handleGameAction L sid m app = bot_turns L gid 50 ?app2"
    using assms(1-6) by (simp add: handleGameAction_def runBotTurnsIfNeeded_def Let_def)
  have returns: "handleGameAction L sid m app \<noteq> None"
    if "distinct (map player_id (players (eng_state eng)))" "demandedSuit (eng_state eng) = None" "act_type a \<noteq> CHOOSE_SUIT"
  proof -
    have ready: "bot_ready eng1" using ready_process [OF assms(5) that(3)] that(1,2) by (simp add: bot_ready_def)
    have "map_wf (activeGames ?app2)"
      using assms(7) by (simp add: action_accepted_def Let_def wf_put)
    moreover have "\<exists>eng2. getGame gid ?app2 = Some eng2 \<and> bot_ready eng2"
      using assms(7) ready ready_newRound [OF ready, of "app_steady app"]
      by (simp add: action_accepted_def Let_def getGame_def get_put wf_put put_engine_def)
    ultimately show ?thesis unfolding handled using bot_turns_ready by blast
  qed
  have "app_store (snd (leaveGame L gref pid app)) = app_store app"
    by (simp add: leaveGame_def put_engine_def Let_def split: option.split)
  then show ?thesis
    using returns calls bot_turns_store [of L gid 50 ?app2] unfolding handled by auto
qed

theorem accepted_action_saved_witness:
  "\<exists>app' calls. handleGameAction sample_lib ''s'' \<lparr>msg_type = MSG_PLAY_CARD, msg_playerId = ''a'', msg_gameId = ''g'',
      msg_payload = '''', msg_timestamp = 0\<rparr> ((sample_app [])\<lparr>app_db := True\<rparr>) = Some app' \<and>
    app_store app' = SaveGame calls # tl (app_store app')"
proof -
  let ?m = "\<lparr>msg_type = MSG_PLAY_CARD, msg_playerId = ''a'', msg_gameId = ''g'', msg_payload = '''', msg_timestamp = 0\<rparr>"
  let ?app = "(sample_app [])\<lparr>app_db := True\<rparr>"
  let ?eng = "sample_engine [Card STAR ONE] [] (Card STAR TEN)"
  have "canPlayOn (Card STAR ONE) (Card STAR TEN)" by (simp add: canPlayOn_iff)
  from sample_play_success [OF this, of Nil Nil] obtain eng1 where
    p: "processAction (sample_action PLAY_CARD) ?eng =
        Some (res_ok [''a''] (state_toJson (eng_state (play_core 0 0 ?eng))), eng1)" by blast
  have "session_defaults ''s'' ?m ?app = (''g'', ''a'')" by (simp add: session_defaults_def split: option.split)
  moreover have "getGame ''g'' ?app = Some ?eng" by (simp add: getGame_def map_get_def)
  moreover have "action_of_message sample_lib ''a'' ?m = Some (sample_action PLAY_CARD)"
    by (simp add: action_of_message_def sample_action_def playCard_fromJson_def read_with_def sample_lib_def Let_def)
  moreover have "map_wf (activeGames ?app)" by (simp add: map_wf_def)
  moreover have "res_success (res_ok [''a''] (state_toJson (eng_state (play_core 0 0 ?eng))))" by (simp add: res_ok_def)
  moreover have "distinct (map player_id (players (eng_state ?eng))) \<and> demandedSuit (eng_state ?eng) = None \<and>
      act_type (sample_action PLAY_CARD) \<noteq> CHOOSE_SUIT" by (simp add: sample_state_def)
  ultimately obtain app' rest where "handleGameAction sample_lib ''s'' ?m ?app = Some app'"
    and st: "app_store app' = app_store ?app @ saved ?app (SaveGame (eng_state eng1) # rest)"
    using accepted_action_saved [OF _ _ _ _ p, of "''s''" ?m ?app "''g''" "''a''" sample_lib] by blast
  moreover have "app_store ?app = []" "saved ?app cs = cs" for cs
    by (simp_all add: sample_app_def app_new_def saved_def)
  ultimately show ?thesis by (intro exI [of _ app'] exI [of _ "eng_state eng1"]) simp
qed

end
