(* ===== verification/Whot_Startup.thy ===== *)
theory Whot_Startup
  imports Whot_PersistProps Whot_AppProps Whot_SqliteSample Whot_Main
begin

text \<open>
  The life of the whole program: \<open>initialize\<close> opens the database of the configuration and puts the
  stored games back, \<open>run\<close> starts the servers, and \<open>shutdown\<close> stops them and closes the database.
\<close>

record 'h Server =
  sv_app :: Application
  sv_db :: "'h SQLiteDatabase option"

text \<open>\<open>setupDatabase\<close>: the database object, and whether the repositories are there.  A kind of database
  other than SQLite has no object; one that cannot be opened stays without repositories.\<close>

definition setupDatabase :: "('h, 's) Sqlite \<Rightarrow> DatabaseConfig \<Rightarrow> 'h SQLiteDatabase option \<times> bool" where
  "setupDatabase Q cfg =
     (case database_create cfg of
        None \<Rightarrow> (None, False)
      | Some db \<Rightarrow>
          let (ok, db1) = sq_connect Q db
          in if ok then (Some (initializeSchema Q db1), True) else (Some db1, False))"

text \<open>\<open>initialize\<close> and the start of \<open>run\<close>, at the times and with the generators given.  \<open>None\<close>: a stored
  game could not be read, and the exception ends the program.\<close>

definition server_start ::
    "('h, 's) Sqlite \<Rightarrow> JsonLib \<Rightarrow> ApplicationConfig \<Rightarrow> int \<Rightarrow> nat \<Rightarrow> nat \<Rightarrow> rng \<Rightarrow> rng list \<Rightarrow> rng list \<Rightarrow>
     'h Server option" where
  "server_start Q L cfg steady wall junk r seeds loadSeeds =
     (let (dbo, ok) = setupDatabase Q (cfg_dbConfig cfg);
          app = app_new (cfg_maxGamesPerServer cfg) ok steady wall junk r seeds
      in if ok
         then map_option (\<lambda>(recs, dbo1). \<lparr>sv_app = loadExistingGames recs app, sv_db = dbo1\<rparr>)
                (stored_games (sqlite_database Q) (lib_parse L) steady loadSeeds dbo)
         else Some \<lparr>sv_app = app, sv_db = dbo\<rparr>)"

text \<open>\<open>shutdown\<close>: the WebSocket server is stopped, then the HTTP server, then the database is closed.
  \<open>http_ends\<close>: whether the call that stops the HTTP server returns (see \<open>Whot_Run\<close>); if it does not, the
  last step is never reached.\<close>

definition server_shutdown :: "bool \<Rightarrow> 'h Server \<Rightarrow> 'h Server" where
  "server_shutdown http_ends sv =
     (let ws = app_ws (sv_app sv);
          sv1 = (if ws_running ws then sv\<lparr>sv_app := (sv_app sv)\<lparr>app_ws := ws_stop ws\<rparr>\<rparr> else sv)
      in if http_ends
         then sv1\<lparr>sv_db := map_option (\<lambda>db. if sq_isConnected db then sq_disconnect db else db) (sv_db sv1)\<rparr>
         else sv1)"

section \<open>What is saved\<close>

text \<open>What happens to the log of the repositories: it grows, and only where there are repositories.\<close>

definition logs :: "Application \<Rightarrow> Application \<Rightarrow> bool" where
  "logs app app' \<longleftrightarrow> app_db app' = app_db app \<and>
     (\<exists>cs. app_store app' = app_store app @ cs \<and> (cs \<noteq> [] \<longrightarrow> app_db app))"

lemma logs_refl [simp, intro]: "logs app app"
  by (simp add: logs_def)

lemma logs_trans: "logs app app1 \<Longrightarrow> logs app1 app2 \<Longrightarrow> logs app app2"
  by (auto simp: logs_def)

lemma logs_store [simp]: "logs app (store call app)"
  by (simp add: logs_def store_def Let_def split: StoreCall.split)

lemma logs_store_after: "logs app app1 \<Longrightarrow> logs app (store call app1)"
  using logs_trans [OF _ logs_store] .

lemma logs_same: "app_db app' = app_db app \<Longrightarrow> app_store app' = app_store app \<Longrightarrow> logs app app'"
  by (simp add: logs_def)

lemma logs_into_update [simp]:
  "logs app (app'\<lparr>activeGames := g\<rparr>) = logs app app'" "logs app (app'\<lparr>gameActivity := t\<rparr>) = logs app app'"
  "logs app (app'\<lparr>app_ws := ws\<rparr>) = logs app app'" "logs app (app'\<lparr>app_rng := r\<rparr>) = logs app app'"
  "logs app (app'\<lparr>app_counter := n\<rparr>) = logs app app'" "logs app (app'\<lparr>app_seeds := ss\<rparr>) = logs app app'"
  "logs app (dumped j app') = logs app app'"
  by (simp_all add: logs_def)

lemma logs_from_update [simp]:
  "logs (app\<lparr>app_ws := ws\<rparr>) app' = logs app app'" "logs (app\<lparr>app_rng := r\<rparr>) app' = logs app app'"
  "logs (app\<lparr>activeGames := g\<rparr>) app' = logs app app'"
  by (simp_all add: logs_def)

lemma logs_steps [simp]:
  "logs app (put_engine gid eng app') = logs app app'" "logs app (app_send L sid m app') = logs app app'"
  "logs app (bind_session sid gid pid app') = logs app app'"
  "logs app (touchGameActivity gid app') = logs app app'" "logs app (answer_dumped res app') = logs app app'"
  "logs app (put_new_round gid eng app') = logs app app'" "logs app (send_state L gid gs ts sid pid app') = logs app app'"
  by (simp_all add: put_engine_def app_send_def bind_session_def touchGameActivity_def answer_dumped_def
      put_new_round_def send_state_def Let_def split: option.split)

lemma logs_broadcast [simp]: "logs app (broadcastGameState L gid app') = logs app app'"
proof -
  have "logs app (fold (\<lambda>(sid, pid). send_state L gid gs ts sid pid) ps app1) = logs app app1" for gs ts ps app1
    by (induction ps arbitrary: app1) (simp_all add: split_beta)
  then show ?thesis by (simp add: broadcastGameState_def Let_def split: option.split)
qed

lemma logs_next_round [simp]: "logs app (next_round L gid eng app') = logs app app'"
  by (simp add: next_round_def)

lemma logs_createGame: "logs app (snd (createGame cfg app))"
  by (simp add: createGame_def Let_def split_beta next_seed_def logs_store_after split: list.split)

lemma logs_addBots: "logs app app' \<Longrightarrow> logs app (addBotsToGame gid n app')"
  by (simp add: addBotsToGame_def Let_def logs_store_after split: option.split)

lemma logs_joinGame: "logs app app' \<Longrightarrow> logs app (snd (joinGame gid pid name app'))"
  by (simp add: joinGame_def Let_def logs_store_after split: option.split)

lemma logs_leaveGame: "logs app app' \<Longrightarrow> logs app (snd (leaveGame L gref pid app'))"
  by (simp add: leaveGame_def Let_def split: option.split)

lemma logs_fold: "(\<And>x app'. logs app app' \<Longrightarrow> logs app (f x app')) \<Longrightarrow> logs app app' \<Longrightarrow> logs app (fold f xs app')"
  by (induction xs arbitrary: app') simp_all

lemma logs_remove_stale: "logs app (remove_stale n app)"
  unfolding remove_stale_def by (rule logs_fold) (simp_all add: removeGame_def logs_store_after)

lemma logs_bot_turns: "bot_turns L gid n app = Some app' \<Longrightarrow> logs app app'"
proof (induction n arbitrary: app)
  case (Suc n)
  from Suc.prems obtain go_on app1 where turn: "bot_turn L gid app = Some (go_on, app1)"
      "(if go_on then bot_turns L gid n app1 else Some app1) = Some app'"
    by (auto split: option.splits)
  from turn(1) have "logs app app1" by (cases rule: bot_turn_cases) (simp_all add: Let_def)
  then show ?case using Suc.IH [of app1] turn(2) logs_trans by (cases go_on) auto
qed simp

lemma logs_runBotTurns: "runBotTurnsIfNeeded L gid app1 = Some app' \<Longrightarrow> logs app app1 \<Longrightarrow> logs app app'"
  unfolding runBotTurnsIfNeeded_def using logs_bot_turns logs_trans by blast

lemma logs_action_accepted: "logs app app' \<Longrightarrow> logs app (action_accepted L gid eng app')"
  by (simp add: action_accepted_def store_stats_def Let_def logs_store_after logs_fold)

lemma logs_handleClientMessage:
  assumes "handleClientMessage L sid m app = Some app'"
  shows "logs app app'"
  using assms
proof (cases rule: handleClientMessage_cases)
  case joins
  then show ?thesis
    by (simp add: handleJoinGame_def reattach_def Let_def split_beta logs_joinGame split: option.split)
next
  case starts
  then show ?thesis
    by (cases rule: handleStartGame_cases) (auto simp: start_error_def logs_store_after elim!: logs_runBotTurns)
next
  case left
  then show ?thesis by (simp add: handleLeaveGame_def Let_def split_beta logs_leaveGame)
next
  case acts
  then show ?thesis
    by (cases rule: handleGameAction_cases) (auto simp: action_error_def elim!: logs_runBotTurns intro: logs_action_accepted)
qed simp

lemma logs_api_call: "logs app (snd (api_call L board h req app))"
  by (cases h)
    (simp_all add: handleCreateGame_def joined_response_def handleJoinGameHttp_def handleJoinByCode_def
       handleCleanupStaleLobbies_def Let_def split_beta logs_createGame logs_joinGame logs_addBots
       logs_remove_stale split: option.split)

lemma logs_server_step:
  assumes "server_step L board fs path app app'"
  shows "logs app app'"
  using assms
proof (cases rule: server_step.cases)
  case (received hdl data)
  then show ?thesis
    using logs_handleClientMessage by (fastforce simp: text_received_def Let_def split_beta split: if_splits)
next
  case (requested buf)
  then show ?thesis using logs_api_call by (cases rule: api_connection_cases [of L board fs path buf app]) auto
qed (auto simp: connection_opened_def connection_closed_def handleDisconnection_def timeouts_checked_def Let_def
    split_beta logs_leaveGame logs_same split: option.splits)

lemma logs_server_runs: "server_runs L board fs path app app' \<Longrightarrow> logs app app'"
  by (induction rule: server_runs.induct) (auto intro: logs_server_step logs_trans)

section \<open>Without a database\<close>

text \<open>C25: A database of a kind the program does not have, or whose file cannot be opened, does not stop the
  server: it starts, without games; whatever happens then, nothing is ever handed to a repository,
  and shutting down has nothing to close.  Nobody is told.\<close>

theorem no_database_nothing_saved:
  assumes "dbc_type (cfg_dbConfig cfg) \<noteq> SQLITE \<or>
    fst (sqlite3_open Q (if dbc_filepath (cfg_dbConfig cfg) = '''' then '':memory:''
      else dbc_filepath (cfg_dbConfig cfg))) \<noteq> SQLITE_OK"
  shows "\<exists>sv. server_start Q L cfg steady wall junk r seeds loadSeeds = Some sv \<and>
    activeGames (sv_app sv) = [] \<and> ws_running (app_ws (sv_app sv)) \<and>
    (\<forall>board fs path app. server_runs L board fs path (sv_app sv) app \<longrightarrow>
       app_store app = [] \<and>
       (\<forall>ends. server_shutdown ends (sv\<lparr>sv_app := app\<rparr>) = sv\<lparr>sv_app := app\<lparr>app_ws := ws_stop (app_ws app)\<rparr>\<rparr>))"
proof -
  let ?app = "app_new (cfg_maxGamesPerServer cfg) False steady wall junk r seeds"
  obtain dbo where opened: "setupDatabase Q (cfg_dbConfig cfg) = (dbo, False)"
    and closed: "map_option (\<lambda>db. if sq_isConnected db then sq_disconnect db else db) dbo = dbo"
    using assms
    by (fastforce simp: setupDatabase_def database_create_def sq_connect_def Let_def split_beta sq_isConnected_def
        option.map_id0 split: if_splits)
  have start: "server_start Q L cfg steady wall junk r seeds loadSeeds = Some \<lparr>sv_app = ?app, sv_db = dbo\<rparr>"
    by (simp add: server_start_def opened)
  have new: "app_store ?app = []" "\<not> app_db ?app" "activeGames ?app = []" "ws_running (app_ws ?app)"
    by (simp_all add: app_new_def ws_start_def)
  have quiet: "app_store app = []" if "server_runs L board fs path ?app app" for board fs path app
    using logs_server_runs [OF that] new by (auto simp: logs_def)
  show ?thesis
    using start new(3,4) quiet closed by (auto simp: server_shutdown_def ws_stop_def Let_def)
qed

text \<open>A file that does not open.\<close>

definition closed_sqlite :: "(unit, unit) Sqlite" where
  "closed_sqlite = \<lparr>sqlite3_open = \<lambda>p. (SQLITE_ERROR 14, ()), sqlite3_exec = \<lambda>h s. (SQLITE_OK, ()),
     sqlite3_prepare = \<lambda>h s. Some (), sqlite3_bind = \<lambda>s n p. (SQLITE_OK, ()),
     sqlite3_step = \<lambda>h s. (SQLITE_DONE, (), ()), sqlite3_columns = \<lambda>s. []\<rparr>"

definition file_config :: ApplicationConfig where
  "file_config = application_config \<lparr>dbc_type = SQLITE, dbc_host = '''', dbc_port = 0, dbc_database = '''',
     dbc_username = '''', dbc_password = '''', dbc_filepath = ''whot.db'', dbc_poolSize = 1\<rparr>"

theorem no_database_nothing_saved_witness:
  "\<exists>sv. server_start closed_sqlite \<lparr>lib_parse = \<lambda>s. None, lib_dump = \<lambda>j. ''''\<rparr> file_config 0 0 0 [] [] [] = Some sv \<and>
     activeGames (sv_app sv) = []"
  using no_database_nothing_saved [of file_config closed_sqlite "\<lparr>lib_parse = \<lambda>s. None, lib_dump = \<lambda>j. ''''\<rparr>" 0 0 0 "[]" "[]" "[]"]
  by (auto simp: closed_sqlite_def)

section \<open>Over a database\<close>

lemma initializeSchema_open: "sq_db db \<noteq> None \<Longrightarrow> sq_db (initializeSchema Q db) \<noteq> None"
proof -
  have "sq_db (fold (\<lambda>sql db. snd (sq_execute Q sql db)) sqls db) \<noteq> None" if "sq_db db \<noteq> None" for sqls db
    using that
    by (induction sqls arbitrary: db) (auto simp: sq_execute_def split_beta Let_def)
  then show "sq_db db \<noteq> None \<Longrightarrow> ?thesis" by (simp add: initializeSchema_def)
qed

lemma setupDatabase_open:
  assumes "setupDatabase Q cfg = (dbo, True)"
  shows "\<exists>d. dbo = Some d \<and> sq_db d \<noteq> None"
proof -
  obtain db where db: "database_create cfg = Some db" "fst (sq_connect Q db)"
    "dbo = Some (initializeSchema Q (snd (sq_connect Q db)))"
    using assms by (auto simp: setupDatabase_def Let_def split_beta split: option.splits if_splits)
  then have "sq_db (snd (sq_connect Q db)) \<noteq> None"
    by (auto simp: sq_connect_def Let_def split_beta split: if_splits)
  from initializeSchema_open [OF this, of Q] show ?thesis using db(3) by simp
qed

lemma put_loaded_keeps: "app_db (put_loaded rec app) = app_db app" "app_ws (put_loaded rec app) = app_ws app"
  by (cases rec; cases "snd rec"; simp add: put_loaded_def put_engine_def)+

lemma fold_put_loaded_keeps:
  "app_db (fold put_loaded recs app) = app_db app" "app_ws (fold put_loaded recs app) = app_ws app"
  by (induction recs arbitrary: app) (simp_all add: put_loaded_keeps)

lemma wf_put_loaded: "map_wf (activeGames app) \<Longrightarrow> map_wf (activeGames (put_loaded rec app))"
  by (cases rec; cases "snd rec"; simp add: put_loaded_def put_engine_def wf_put)

lemma put_loaded_store: "app_store (put_loaded rec app) = app_store app"
  by (cases rec; cases "snd rec"; simp add: put_loaded_def put_engine_def)

lemma loaded_frame:
  assumes "map_wf (activeGames app)"
  shows "map_wf (activeGames (loadExistingGames recs app)) \<and> app_store (loadExistingGames recs app) = app_store app \<and>
    app_db (loadExistingGames recs app) = app_db app"
proof -
  have "map_wf (activeGames (fold put_loaded recs app)) \<and> app_store (fold put_loaded recs app) = app_store app"
    using assms by (induction recs arbitrary: app) (simp_all add: wf_put_loaded put_loaded_store)
  then show ?thesis
    using assms fold_put_loaded_keeps(1) [of recs app] by (simp add: loadExistingGames_fold loadExistingGames_def)
qed

text \<open>A start over an opened database, whatever it holds.\<close>

lemma server_start_over:
  assumes "setupDatabase Q (cfg_dbConfig cfg) = (Some d, True)" "game_table (sqlite_database Q) T"
    "all_written (lib_parse L) (T d)"
  shows "\<exists>sv. server_start Q L cfg steady wall junk r seeds loadSeeds = Some sv \<and> sv_db sv = Some d \<and>
    db_isConnected (sqlite_database Q) d \<and> app_db (sv_app sv) \<and> app_store (sv_app sv) = [] \<and>
    map_wf (activeGames (sv_app sv)) \<and>
    app_ws (sv_app sv) = app_ws (app_new (cfg_maxGamesPerServer cfg) True steady wall junk r seeds) \<and>
    (\<forall>g. stored_as (lib_parse L) (T d) steady g (getGame g (sv_app sv)))"
proof -
  let ?app = "app_new (cfg_maxGamesPerServer cfg) True steady wall junk r seeds"
  have open_db: "db_isConnected (sqlite_database Q) d"
    using setupDatabase_open [OF assms(1)] by (simp add: sqlite_database_def sq_isConnected_def)
  have new: "app_db ?app" "activeGames ?app = []" "app_steady ?app = steady" "app_store ?app = []" "map_wf (activeGames ?app)"
    by (simp_all add: app_new_def map_wf_def)
  obtain loaded where l: "stored_games (sqlite_database Q) (lib_parse L) steady loadSeeds (Some d) = Some (loaded, Some d)"
    "\<forall>g. stored_as (lib_parse L) (T d) steady g (getGame g (loadExistingGames loaded ?app))"
    using stored_games_exact [OF assms(2) open_db assms(3), of steady loadSeeds] new by blast
  have "server_start Q L cfg steady wall junk r seeds loadSeeds =
      Some \<lparr>sv_app = loadExistingGames loaded ?app, sv_db = Some d\<rparr>"
    using assms(1) l(1) by (simp add: server_start_def)
  moreover have "app_ws (loadExistingGames loaded ?app) = app_ws ?app"
    using new(1) by (simp add: loadExistingGames_fold fold_put_loaded_keeps)
  ultimately show ?thesis using l(2) open_db loaded_frame [OF new(5), of loaded] new(1,4) by simp
qed

text \<open>C15: After a start the server has exactly the games that were saved in their lobby or during a round, each
  restored from its stored text; a game between two rounds or at its end is gone.  No stored text keeps
  the server from starting, the database is left as it is, and what the server saves from then on is
  handed to the repositories.\<close>

theorem start_restores:
  assumes "setupDatabase Q (cfg_dbConfig cfg) = (Some d, True)" "game_table (sqlite_database Q) T"
    "all_written (lib_parse L) (T d)"
  shows "\<exists>sv. server_start Q L cfg steady wall junk r seeds loadSeeds = Some sv \<and> sv_db sv = Some d \<and>
    app_db (sv_app sv) \<and> (\<forall>g. stored_as (lib_parse L) (T d) steady g (getGame g (sv_app sv)))"
  using server_start_over [OF assms, of steady wall junk r seeds loadSeeds] by blast

text \<open>The small SQLite opens with the rows it has.\<close>

lemma small_opens_any:
  assumes "dbc_type cfg = SQLITE" "dbc_filepath cfg \<noteq> ''''"
  shows "setupDatabase (small_sqlite h) cfg = (Some \<lparr>sq_config = cfg, sq_db = Some h\<rparr>, True)"
proof -
  have exec: "sq_execute (small_sqlite h) sql db = (sq_db db \<noteq> None, db)" for sql db
    by (simp add: sq_execute_def split: option.split)
  have "initializeSchema (small_sqlite h) db = db" for db
    by (simp add: initializeSchema_def exec fold_invariant_set [where P = "\<lambda>x. x = db"])
  then show ?thesis using assms by (simp add: setupDatabase_def database_create_def sq_connect_def)
qed

lemma small_opens:
  "setupDatabase (small_sqlite h) (cfg_dbConfig file_config) =
     (Some \<lparr>sq_config = cfg_dbConfig file_config, sq_db = Some h\<rparr>, True)"
  by (rule small_opens_any) (simp_all add: file_config_def application_config_def)

text \<open>The small SQLite with one stored game.\<close>

theorem start_restores_witness:
  "\<exists>sv. server_start (small_sqlite [(''g'', ''{}'', ''active'')]) \<lparr>lib_parse = sample_parse, lib_dump = sample_text\<rparr>
     file_config 5 0 0 [] [] [] = Some sv \<and> getGame ''g'' (sv_app sv) \<noteq> None"
proof -
  let ?Q = "small_sqlite [(''g'', ''{}'', ''active'')]" and ?L = "\<lparr>lib_parse = sample_parse, lib_dump = sample_text\<rparr>"
  let ?d = "\<lparr>sq_config = cfg_dbConfig file_config, sq_db = Some [(''g'', ''{}'', ''active'')]\<rparr>"
  have "setupDatabase ?Q (cfg_dbConfig file_config) = (Some ?d, True)" by (rule small_opens)
  moreover have t: "small_table ?d = map_of [(''g'', ''{}'', ''active'')]" by (simp add: small_table_def)
  moreover have "all_written (lib_parse ?L) (map_of [(''g'', ''{}'', ''active'')])" unfolding JsonLib.simps by (rule sample_memory)
  ultimately obtain sv where sv: "server_start ?Q ?L file_config 5 0 0 [] [] [] = Some sv"
    "stored_as (lib_parse ?L) (map_of [(''g'', ''{}'', ''active'')]) 5 ''g'' (getGame ''g'' (sv_app sv))"
    using start_restores [OF _ small_game_table, of _ file_config ?d ?L 5 0 0 "[]" "[]" "[]"] by metis
  have "is_written sample_parse ''g'' ''{}'' ''active'' sample_table" "phase sample_table \<notin> {ROUND_ENDED, GAME_ENDED}"
    using sample_written by (auto simp: is_written_def status_of_def sample_table_def)
  then have "\<exists>s st gs. map_of [(''g'', ''{}'', ''active'')] ''g'' = Some (s, st) \<and> is_written sample_parse ''g'' s st gs \<and>
      phase gs \<noteq> ROUND_ENDED \<and> phase gs \<noteq> GAME_ENDED"
    by (intro exI [of _ "''{}''"] exI [of _ "''active''"] exI [of _ sample_table]) simp
  then have "getGame ''g'' (sv_app sv) \<noteq> None"
    using sv(2) unfolding stored_as_def JsonLib.simps by (cases "getGame ''g'' (sv_app sv)") simp_all
  then show ?thesis using sv(1) by blast
qed

section \<open>The games of a server that has started\<close>

text \<open>A game is under its id, seats different players, no more than its limit or than it was restored with
  (\<open>seats0\<close>), and has a valid code in normal form.\<close>

definition order_law :: "(string \<Rightarrow> nat) \<Rightarrow> string \<Rightarrow> badge \<Rightarrow> bool" where
  "order_law seats0 = (\<lambda>gid (i, code, cr, cfg, ids).
     i = gid \<and> distinct ids \<and> length ids \<le> max (to_size_t (maxPlayers cfg)) (seats0 gid) \<and>
     isValidGameCode code \<and> normalizeGameCode code = code)"

interpretation in_order: lobby_law "order_law seats0" for seats0
proof unfold_locales
  fix gid i code cr cfg ids pid
  assume "order_law seats0 gid (i, code, cr, cfg, ids)"
  then show "order_law seats0 gid (i, code, cr, cfg, filter (\<lambda>x. x \<noteq> pid) ids)"
    using length_filter_le [of "\<lambda>x. x \<noteq> pid" ids] by (auto simp: order_law_def simp del: length_filter_le)
qed (auto simp: order_law_def codes_valid)

definition seats_of :: "Application \<Rightarrow> string \<Rightarrow> nat" where
  "seats_of app gid = (case getGame gid app of None \<Rightarrow> 0 | Some eng \<Rightarrow> length (players (eng_state eng)))"

text \<open>What a stored game needs for that: different players and a valid code.\<close>

definition sound_table :: "(string \<Rightarrow> json option) \<Rightarrow> (string \<Rightarrow> (string \<times> string) option) \<Rightarrow> bool" where
  "sound_table parse t \<longleftrightarrow> all_written parse t \<and>
     (\<forall>g s st gs. t g = Some (s, st) \<and> is_written parse g s st gs \<longrightarrow>
        distinct (map player_id (players gs)) \<and> isValidGameCode (gameCode gs) \<and> normalizeGameCode (gameCode gs) = gameCode gs)"

lemma start_in_order:
  assumes "server_start Q L cfg steady wall junk r seeds loadSeeds = Some sv"
    "\<And>d. setupDatabase Q (cfg_dbConfig cfg) = (Some d, True) \<Longrightarrow>
       game_table (sqlite_database Q) T \<and> sound_table (lib_parse L) (T d)"
  shows "all_games (order_law (seats_of (sv_app sv))) (activeGames (sv_app sv))"
proof (cases "snd (setupDatabase Q (cfg_dbConfig cfg))")
  case False
  then have "activeGames (sv_app sv) = []"
    using assms(1) by (auto simp: server_start_def app_new_def split: prod.splits)
  then show ?thesis by (simp add: all_games_def map_wf_def map_get_def)
next
  case True
  then obtain d where d: "setupDatabase Q (cfg_dbConfig cfg) = (Some d, True)"
    using setupDatabase_open by (metis prod.collapse)
  note db = assms(2) [OF d]
  obtain sv' where "server_start Q L cfg steady wall junk r seeds loadSeeds = Some sv'" "map_wf (activeGames (sv_app sv'))"
    "\<forall>g. stored_as (lib_parse L) (T d) steady g (getGame g (sv_app sv'))"
    using server_start_over [OF d conjunct1 [OF db], of L steady wall junk r seeds loadSeeds] db
    by (auto simp: sound_table_def)
  then have sv: "map_wf (activeGames (sv_app sv))" "\<And>g. stored_as (lib_parse L) (T d) steady g (getGame g (sv_app sv))"
    using assms(1) by simp_all
  have "order_law (seats_of (sv_app sv)) g (badge (eng_state eng))" if get: "getGame g (sv_app sv) = Some eng" for g eng
  proof -
    obtain s st gs seed where "T d g = Some (s, st)" "is_written (lib_parse L) g s st gs"
      "eng = engine_new steady (restored steady seed gs)"
      using sv(2) [of g] get by (auto simp: stored_as_def)
    moreover from this have "distinct (map player_id (players gs)) \<and> isValidGameCode (gameCode gs) \<and>
        normalizeGameCode (gameCode gs) = gameCode gs" "gameId gs = g"
      using db by (auto simp: sound_table_def is_written_def)
    ultimately show ?thesis
      using get by (simp add: order_law_def badge_def seats_of_def restored_def engine_new_def o_def)
  qed
  then show ?thesis using sv(1) by (simp add: all_games_def getGame_def)
qed

text \<open>C17: Whatever database the server starts over, or none, and whatever messages, requests, closed connections
  and timeouts come then, each game is stored under its own id, no two of its seats have the same player, its
  code is valid and in normal form, and it has no more players than it allows or than it was restored with (a
  restored game has the default limit of eight, whatever it had before).  The games in the database must have
  different players and valid codes, as the ones this server saves do.\<close>

theorem games_in_order:
  assumes "server_start Q L cfg steady wall junk r seeds loadSeeds = Some sv"
    "\<And>d. setupDatabase Q (cfg_dbConfig cfg) = (Some d, True) \<Longrightarrow>
       game_table (sqlite_database Q) T \<and> sound_table (lib_parse L) (T d)"
    "server_runs L board fs path (sv_app sv) app"
  shows "map_wf (activeGames app) \<and>
    list_all (\<lambda>(gid, eng). let gs = eng_state eng in
       gameId gs = gid \<and> distinct (map player_id (players gs)) \<and>
       length (players gs) \<le> max (to_size_t (maxPlayers (config gs)))
         (case getGame gid (sv_app sv) of None \<Rightarrow> 0 | Some eng0 \<Rightarrow> length (players (eng_state eng0))) \<and>
       isValidGameCode (gameCode gs) \<and> normalizeGameCode (gameCode gs) = gameCode gs) (activeGames app)"
proof -
  have law: "all_games (order_law (seats_of (sv_app sv))) (activeGames app)"
    by (rule in_order.server_runs_law [OF assms(3)]) (rule start_in_order [OF assms(1,2)])
  have wf: "map_wf (activeGames app)" using law by (rule all_games_wf)
  have "order_law (seats_of (sv_app sv)) gid (badge (eng_state eng))" if "(gid, eng) \<in> set (activeGames app)" for gid eng
    using all_games_get [OF law, of gid eng] that get_Some [OF wf] by blast
  then show ?thesis
    using wf by (auto simp: list_all_iff Let_def order_law_def badge_def seats_of_def)
qed

text \<open>A server that restores one game, and opens another on request.\<close>

lemma sample_sound: "sound_table sample_parse (map_of [(''g'', ''{}'', ''active'')])"
proof -
  have "distinct (map player_id (players gs)) \<and> isValidGameCode (gameCode gs) \<and> normalizeGameCode (gameCode gs) = gameCode gs"
    if "is_written sample_parse g s st gs" for g s st gs
  proof -
    have "state_toJson gs = state_toJson sample_table" using that by (simp add: is_written_def sample_parse_def)
    then have "restored 0 [] gs = restored 0 [] sample_table"
      using that sample_table_wf state_fromJson_toJson [of gs "''''" 0 "[]"] state_fromJson_toJson [of sample_table "''''" 0 "[]"]
      by (simp add: is_written_def)
    then have "map player_id (players (restored 0 [] gs)) = map player_id (players (restored 0 [] sample_table))"
      "gameCode (restored 0 [] gs) = gameCode (restored 0 [] sample_table)"
      by simp_all
    moreover have "isValidGameCode (gameCode sample_table) \<and> normalizeGameCode (gameCode sample_table) = gameCode sample_table"
      by (rule codes_valid) (simp_all add: sample_table_def sample_state_def code_chars_def)
    ultimately show ?thesis by (simp add: restored_def o_def) (simp add: sample_table_def)
  qed
  then show ?thesis using sample_memory by (auto simp: sound_table_def)
qed

theorem games_in_order_witness:
  "\<exists>sv. server_start (small_sqlite [(''g'', ''{}'', ''active'')]) \<lparr>lib_parse = sample_parse, lib_dump = sample_text\<rparr>
     file_config 5 0 0 [] [] [] = Some sv \<and> map_wf (activeGames (sv_app sv)) \<and>
     list_all (\<lambda>(gid, eng). isValidGameCode (gameCode (eng_state eng))) (activeGames (sv_app sv))"
proof -
  let ?Q = "small_sqlite [(''g'', ''{}'', ''active'')]" and ?L = "\<lparr>lib_parse = sample_parse, lib_dump = sample_text\<rparr>"
  have t: "small_table \<lparr>sq_config = cfg_dbConfig file_config, sq_db = Some [(''g'', ''{}'', ''active'')]\<rparr> =
      map_of [(''g'', ''{}'', ''active'')]" by (simp add: small_table_def)
  have sound: "game_table (sqlite_database ?Q) small_table \<and> sound_table (lib_parse ?L) (small_table d)"
    if "setupDatabase ?Q (cfg_dbConfig file_config) = (Some d, True)" for d
    using that small_game_table sample_sound t unfolding small_opens by auto
  have written: "all_written (lib_parse ?L)
      (small_table \<lparr>sq_config = cfg_dbConfig file_config, sq_db = Some [(''g'', ''{}'', ''active'')]\<rparr>)"
    using sample_sound t by (simp add: sound_table_def)
  obtain sv where sv: "server_start ?Q ?L file_config 5 0 0 [] [] [] = Some sv"
    using server_start_over [OF small_opens small_game_table written, of 5 0 0 "[]" "[]" "[]"] by blast
  show ?thesis
    using games_in_order [OF sv sound server_runs.none] sv by (auto simp: list_all_iff Let_def)
qed

end
