(* ===== verification/Whot_Life.thy ===== *)
theory Whot_Life
  imports Whot_Startup "HOL-Library.Countable"
begin

text \<open>
  From the running server through its database to the next start: which states the handlers save, what
  the saved calls make of the tables, and what the server has when it is started again.
\<close>

section \<open>The game on record\<close>

text \<open>The state last saved of every game, after a list of calls.\<close>

fun note_call :: "StoreCall \<Rightarrow> (string \<Rightarrow> GameState option) \<Rightarrow> string \<Rightarrow> GameState option" where
  "note_call (SaveGame gs) m = m(gameId gs \<mapsto> gs)"
| "note_call (DeleteGame gid) m = m(gid := None)"
| "note_call _ m = m"

definition saved_games :: "StoreCall list \<Rightarrow> string \<Rightarrow> GameState option" where
  "saved_games calls = fold note_call calls Map.empty"

lemma saved_games_snoc [simp]: "saved_games (calls @ [c]) = note_call c (saved_games calls)"
  by (simp add: saved_games_def)

lemma saved_games_Nil [simp]: "saved_games [] = Map.empty"
  by (simp add: saved_games_def)

text \<open>A saved state has the badge of the game, and a seat for everybody at the table; players who have left
  may still be in it.\<close>

fun seated_in :: "badge \<Rightarrow> badge \<Rightarrow> bool" where
  "seated_in (i, code, cr, cfg, ids) (i', code', cr', cfg', ids') \<longleftrightarrow>
     i = i' \<and> code = code' \<and> cr = cr' \<and> cfg = cfg' \<and> set ids \<subseteq> set ids'"

lemma seated_refl [simp]: "seated_in b b"
  by (cases b) simp

lemma seated_removePlayer: "seated_in (badge gs) b \<Longrightarrow> seated_in (badge (removePlayer pid gs)) b"
  by (cases b) (auto simp: badge_def removePlayer_def)

definition on_record :: "(string \<Rightarrow> GameState option) \<Rightarrow> string \<Rightarrow> GameEngine option \<Rightarrow> bool" where
  "on_record saved g game \<longleftrightarrow>
     (case game of
        None \<Rightarrow> saved g = None
      | Some eng \<Rightarrow> gameId (eng_state eng) = g \<and> (\<exists>gs. saved g = Some gs \<and> seated_in (badge (eng_state eng)) (badge gs)))"

definition tracks :: "Application \<Rightarrow> bool" where
  "tracks app \<longleftrightarrow> map_wf (activeGames app) \<and> app_db app \<and>
     (\<forall>g. on_record (saved_games (app_store app)) g (map_get (activeGames app) g))"

lemma tracksD:
  assumes "tracks app"
  shows "map_wf (activeGames app)" "app_db app" "on_record (saved_games (app_store app)) g (getGame g app)"
  using assms by (simp_all add: tracks_def getGame_def)

lemma tracks_id: "tracks app \<Longrightarrow> getGame gid app = Some eng \<Longrightarrow> gameId (eng_state eng) = gid"
  using tracksD(3) [of app gid] by (simp add: on_record_def)

section \<open>Steps that keep it\<close>

lemma tracks_frame [simp]:
  "tracks (app\<lparr>app_ws := ws\<rparr>) = tracks app" "tracks (app\<lparr>app_rng := r\<rparr>) = tracks app"
  "tracks (app\<lparr>gameActivity := t\<rparr>) = tracks app" "tracks (app\<lparr>app_seeds := ss\<rparr>) = tracks app"
  "tracks (app\<lparr>app_counter := n\<rparr>) = tracks app"
  "tracks (app\<lparr>app_steady := s, app_wall := w, app_junk := j\<rparr>) = tracks app"
  "tracks (app_send L sid m app) = tracks app" "tracks (bind_session sid gid pid app) = tracks app"
  "tracks (touchGameActivity gid app) = tracks app" "tracks (broadcastGameState L gid app) = tracks app"
  "tracks (dumped tree app) = tracks app" "tracks (answer_dumped res app) = tracks app"
  "tracks (send_state L gid gs ts sid pid app) = tracks app"
  by (simp_all add: tracks_def bind_session_def)

lemma tracks_other_call [simp]:
  "tracks (store (SavePlayer p) app) = tracks app" "tracks (store (UpdateStats pid won n) app) = tracks app"
  by (simp_all add: tracks_def store_def)

lemma tracksI:
  assumes "map_wf (activeGames app)" "app_db app"
    "\<And>g. on_record (saved_games (app_store app)) g (map_get (activeGames app) g)"
  shows "tracks app"
  using assms by (simp add: tracks_def)

lemma put_engine_frame [simp]:
  "app_db (put_engine gid eng app) = app_db app" "app_store (put_engine gid eng app) = app_store app"
  by (simp_all add: put_engine_def)

text \<open>A game is put back with its badge, with a player less, or saved as it is.\<close>

lemma tracks_put_seated:
  assumes "tracks app" "getGame gid app = Some eng" "gameId (eng_state eng') = gid"
    "\<forall>gs. seated_in (badge (eng_state eng)) (badge gs) \<longrightarrow> seated_in (badge (eng_state eng')) (badge gs)"
  shows "tracks (put_engine gid eng' app)"
proof (rule tracksI)
  fix g
  show "on_record (saved_games (app_store (put_engine gid eng' app))) g (map_get (activeGames (put_engine gid eng' app)) g)"
    using tracksD(1) [OF assms(1)] tracksD(3) [OF assms(1), of g] assms(2-4)
    by (cases "g = gid") (auto simp: get_put getGame_def on_record_def)
qed (use tracksD [OF assms(1)] in \<open>simp_all add: wf_put\<close>)

lemma tracks_put:
  assumes "tracks app" "getGame gid app = Some eng" "badge (eng_state eng') = badge (eng_state eng)"
  shows "tracks (put_engine gid eng' app)"
proof (rule tracks_put_seated [OF assms(1,2)])
  show "gameId (eng_state eng') = gid" using tracks_id [OF assms(1,2)] assms(3) by (simp add: badge_def)
qed (simp add: assms(3))

lemma tracks_new_round:
  "tracks app \<Longrightarrow> getGame gid app = Some eng \<Longrightarrow> tracks (put_new_round gid eng app)"
  by (simp add: put_new_round_def Let_def tracks_put)

lemma tracks_leave:
  assumes "tracks app" "getGame gid app = Some eng"
  shows "tracks (put_engine gid (eng\<lparr>eng_state := removePlayer pid (eng_state eng)\<rparr>) app)"
  using tracks_put_seated [OF assms, of "eng\<lparr>eng_state := removePlayer pid (eng_state eng)\<rparr>"]
    tracks_id [OF assms] seated_removePlayer
  by (simp add: removePlayer_def)

text \<open>A game is put back in any state and then saved in that state.\<close>

lemma tracks_resave:
  assumes "tracks app" "gameId gs = gid" "eng_state eng = gs" "app_db app1"
    "activeGames app1 = map_put gid eng (activeGames app)"
    "saved_games (app_store app1) = saved_games (app_store app)"
  shows "tracks (store (SaveGame gs) app1)"
proof (rule tracksI)
  fix g
  show "on_record (saved_games (app_store (store (SaveGame gs) app1))) g (map_get (activeGames (store (SaveGame gs) app1)) g)"
    using tracksD(1) [OF assms(1)] tracksD(3) [OF assms(1), of g] assms(2-6)
    by (cases "g = gid") (auto simp: store_def get_put getGame_def on_record_def split: option.splits)
qed (use tracksD [OF assms(1)] assms(4,5) in \<open>simp_all add: wf_put\<close>)

lemma tracks_put_save:
  assumes "tracks app" "gameId gs = gid" "eng_state eng = gs"
  shows "tracks (store (SaveGame gs) (put_engine gid eng app))"
    and "tracks (store (SaveGame gs) (store (SavePlayer p) (put_engine gid eng app)))"
proof -
  show "tracks (store (SaveGame gs) (put_engine gid eng app))"
    by (rule tracks_resave [OF assms]) (use tracksD(2) [OF assms(1)] in simp_all)
  show "tracks (store (SaveGame gs) (store (SavePlayer p) (put_engine gid eng app)))"
    by (rule tracks_resave [OF assms]) (use tracksD(2) [OF assms(1)] in \<open>simp_all add: store_def\<close>)
qed

lemma tracks_save:
  assumes "tracks app" "getGame gid app = Some eng" "gs = eng_state eng"
  shows "tracks (store (SaveGame gs) app)"
proof (rule tracksI)
  fix g
  show "on_record (saved_games (app_store (store (SaveGame gs) app))) g (map_get (activeGames (store (SaveGame gs) app)) g)"
    using tracksD(2) [OF assms(1)] tracksD(3) [OF assms(1), of g] assms(2,3) tracks_id [OF assms(1,2)]
    by (cases "g = gid") (auto simp: store_def getGame_def on_record_def split: option.splits)
qed (use tracksD [OF assms(1)] in simp_all)

lemma tracks_removeGame:
  assumes "tracks app"
  shows "tracks (removeGame gid app)"
proof (rule tracksI)
  fix g
  show "on_record (saved_games (app_store (removeGame gid app))) g (map_get (activeGames (removeGame gid app)) g)"
    using tracksD(2) [OF assms] tracksD(3) [OF assms, of g]
    by (cases "g = gid") (auto simp: removeGame_def store_def get_del getGame_def on_record_def split: option.splits)
qed (use tracksD [OF assms] in \<open>simp_all add: removeGame_def wf_del\<close>)

section \<open>Every event of the server keeps it\<close>

lemma tracks_next_round:
  "tracks app \<Longrightarrow> getGame gid app = Some eng \<Longrightarrow> tracks (next_round L gid eng app)"
  by (simp add: next_round_def tracks_new_round)

lemma tracks_bot_turns: "bot_turns L gid n app = Some app' \<Longrightarrow> tracks app \<Longrightarrow> tracks app'"
proof (induction n arbitrary: app)
  case (Suc n)
  from Suc.prems(1) obtain go_on app1 where turn: "bot_turn L gid app = Some (go_on, app1)"
      "(if go_on then bot_turns L gid n app1 else Some app1) = Some app'"
    by (auto split: option.splits)
  from turn(1) have "tracks app1"
  proof (cases rule: bot_turn_cases)
    case (moves eng i a r res eng1)
    let ?app1 = "put_engine gid eng1 (app\<lparr>app_rng := r\<rparr>)"
    have "getGame gid (app\<lparr>app_rng := r\<rparr>) = Some eng" using moves(1) by (simp add: getGame_def)
    then have kept: "tracks ?app1" using Suc.prems(2) badge_process [OF moves(6)] by (simp add: tracks_put)
    moreover have "getGame gid ?app1 = Some eng1"
      using tracksD(1) [OF Suc.prems(2)] by (simp add: getGame_def get_put)
    ultimately show ?thesis using moves(8) by (simp add: tracks_next_round Let_def)
  qed (use Suc.prems in simp)
  then show ?case using Suc.IH [of app1] turn(2) by (cases go_on) simp_all
qed simp

lemma tracks_runBotTurns: "runBotTurnsIfNeeded L gid app = Some app' \<Longrightarrow> tracks app \<Longrightarrow> tracks app'"
  unfolding runBotTurnsIfNeeded_def by (rule tracks_bot_turns)

lemma tracks_createGame: "tracks app \<Longrightarrow> tracks (snd (createGame cfg app))"
  by (simp add: createGame_def Let_def split_beta tracks_put_save engine_new_def state_initialize_def state_new_def
      next_seed_def split: list.split)

lemma addPlayer_id: "gameId (addPlayer po gs) = gameId gs"
  by (simp add: addPlayer_def Let_def split: option.split)

lemma tracks_addBots: "tracks app \<Longrightarrow> tracks (addBotsToGame gid n app)"
proof -
  have "gameId (fold (\<lambda>i. addPlayer (f i)) ks gs) = gameId gs" for f gs and ks :: "nat list"
    by (induction ks arbitrary: gs) (simp_all add: addPlayer_id)
  then show "tracks app \<Longrightarrow> ?thesis"
    by (simp add: addBotsToGame_def Let_def tracks_put_save tracks_id split: option.split)
qed

lemma tracks_joinGame: "tracks app \<Longrightarrow> tracks (snd (joinGame gid pid name app))"
  by (simp add: joinGame_def Let_def tracks_put_save tracks_id addPlayer_id split: option.split)

lemma tracks_leaveGame: "tracks app \<Longrightarrow> tracks (snd (leaveGame L gref pid app))"
  by (simp add: leaveGame_def Let_def tracks_leave split: option.split)

lemma tracks_remove_stale: "tracks app \<Longrightarrow> tracks (remove_stale n app)"
  unfolding remove_stale_def by (rule fold_invariant_set) (simp_all add: tracks_removeGame)

lemma tracks_store_stats: "tracks app \<Longrightarrow> tracks (store_stats gs app)"
  unfolding store_stats_def by (auto intro: fold_invariant_set)

lemma tracks_action_accepted:
  assumes "tracks app" "getGame gid app = Some eng"
  shows "tracks (action_accepted L gid eng app)"
proof -
  let ?app1 = "store_stats (eng_state eng) (store (SaveGame (eng_state eng)) (broadcastGameState L gid app))"
  have "getGame gid (broadcastGameState L gid app) = Some eng" using assms(2) by (simp add: getGame_def)
  then have kept: "tracks ?app1" using assms(1) by (intro tracks_store_stats tracks_save) simp_all
  have "gameId (eng_state (startNewRound now eng)) = gid" for now
    using badge_newRound [of now eng] tracks_id [OF assms] by (simp add: badge_def)
  then have "tracks (store (SaveGame (eng_state (startNewRound now eng)))
      (broadcastGameState L gid (put_new_round gid eng ?app1)))" if "now = app_steady ?app1" for now
    using kept tracksD(2) [OF kept] that by (intro tracks_resave [OF kept]) simp_all
  then show ?thesis using kept by (simp add: action_accepted_def Let_def)
qed

lemma tracks_handleClientMessage:
  assumes "handleClientMessage L sid m app = Some app'" "tracks app"
  shows "tracks app'"
  using assms(1)
proof (cases rule: handleClientMessage_cases)
  case joins
  then show ?thesis
    using assms(2)
    by (simp add: handleJoinGame_def reattach_def Let_def split_beta tracks_joinGame split: option.split)
next
  case starts
  then show ?thesis
  proof (cases rule: handleStartGame_cases)
    case (refused gid pid what)
    then show ?thesis using assms(2) by (simp add: start_error_def)
  next
    case (started gid pid eng eng1)
    have "gameId (eng_state eng1) = gid"
      using started(8) tracks_id [OF assms(2) started(3)] by (simp add: badge_def)
    moreover have "put_new_round gid (engine_startGame eng) app =
        put_engine gid eng1 (dumped (state_toJson (eng_state eng1)) app)"
      using started(7) by (simp add: put_new_round_def Let_def)
    ultimately show ?thesis using tracks_runBotTurns [OF started(9)] assms(2) by (simp add: tracks_put_save)
  qed
next
  case left
  then show ?thesis using assms(2) by (simp add: handleLeaveGame_def Let_def split_beta tracks_leaveGame)
next
  case acts
  then show ?thesis
  proof (cases rule: handleGameAction_cases)
    case (refused gid pid eng a res eng1)
    then show ?thesis using assms(2) by (simp add: action_error_def tracks_put badge_process)
  next
    case (accepted gid pid eng a res eng1)
    have "tracks (put_engine gid eng1 app)" using assms(2) accepted(2,5) by (simp add: tracks_put badge_process)
    moreover have "getGame gid (put_engine gid eng1 app) = Some eng1"
      using tracksD(1) [OF assms(2)] by (simp add: getGame_def get_put)
    ultimately have "tracks (action_accepted L gid eng1 (answer_dumped res (put_engine gid eng1 app)))"
      by (intro tracks_action_accepted) simp_all
    then show ?thesis by (rule tracks_runBotTurns [OF accepted(7)])
  qed (use assms(2) in simp)
qed (use assms(2) in simp)

lemma tracks_api_call: "tracks app \<Longrightarrow> tracks (snd (api_call L board h req app))"
  by (cases h)
    (simp_all add: handleCreateGame_def joined_response_def handleJoinGameHttp_def handleJoinByCode_def
       handleCleanupStaleLobbies_def Let_def split_beta tracks_createGame tracks_joinGame tracks_addBots
       tracks_remove_stale split: option.split)

lemma tracks_server_step:
  assumes "server_step L board fs path app app'" "tracks app"
  shows "tracks app'"
  using assms(1)
proof (cases rule: server_step.cases)
  case (received hdl data)
  then show ?thesis
    using tracks_handleClientMessage assms(2)
    by (fastforce simp: text_received_def Let_def split_beta split: if_splits)
next
  case (requested buf)
  then show ?thesis
    using assms(2) tracks_api_call by (cases rule: api_connection_cases [of L board fs path buf app]) auto
qed (use assms(2) in \<open>auto simp: connection_opened_def connection_closed_def handleDisconnection_def
    timeouts_checked_def Let_def split_beta tracks_leaveGame split: option.splits\<close>)

lemma tracks_server_runs: "server_runs L board fs path app app' \<Longrightarrow> tracks app \<Longrightarrow> tracks app'"
  by (induction rule: server_runs.induct) (auto intro: tracks_server_step)

lemma tracks_new: "tracks (app_new maxGames True steady wall junk r seeds)"
  by (simp add: tracks_def app_new_def map_wf_def map_get_def on_record_def)

section \<open>The calls carried out\<close>

text \<open>The logged calls, each at its time in seconds.  No handler reads the table of the games, so carrying the
  calls out after the run is the same as during it.\<close>

definition replay :: "'d Database \<Rightarrow> JsonLib \<Rightarrow> (int \<times> StoreCall) list \<Rightarrow> 'd option \<Rightarrow> 'd option" where
  "replay D L timed repo = fold (\<lambda>(now, call). perform D L now call) timed repo"

text \<open>
  What else is asked of the statements: saving succeeds, deleting a game empties its row, and those on the
  players leave the table of the games alone, as do the queries.
\<close>

definition game_writes :: "'d Database \<Rightarrow> ('d \<Rightarrow> string \<Rightarrow> (string \<times> string) option) \<Rightarrow> bool" where
  "game_writes D T \<longleftrightarrow>
     (\<forall>d sql ps. db_isConnected D d \<and> sql \<in> {sql_save_game, sql_save_player, sql_save_stats} \<longrightarrow>
        fst (db_executeBound D sql ps d)) \<and>
     (\<forall>d g. db_isConnected D d \<and> plain_text g \<longrightarrow>
        db_isConnected D (exec_bound D sql_delete_game [SqlText g] d) \<and>
        T (exec_bound D sql_delete_game [SqlText g] d) = (T d)(g := None)) \<and>
     (\<forall>d sql ps. db_isConnected D d \<and> sql \<in> {sql_save_player, sql_save_stats} \<longrightarrow>
        db_isConnected D (exec_bound D sql ps d) \<and> T (exec_bound D sql ps d) = T d) \<and>
     (\<forall>d sql ps. db_isConnected D d \<and>
        sql \<in> {sql_stats_name, sql_total_games, sql_games_won, sql_total_score, sql_last_played} \<longrightarrow>
        db_isConnected D (snd (db_queryOneBound D sql ps d)) \<and> T (snd (db_queryOneBound D sql ps d)) = T d)"

lemma game_writesD:
  assumes "game_writes D T" "db_isConnected D d"
  shows "sql \<in> {sql_save_game, sql_save_player, sql_save_stats} \<Longrightarrow> fst (db_executeBound D sql ps d)"
    and "plain_text g \<Longrightarrow> db_isConnected D (exec_bound D sql_delete_game [SqlText g] d) \<and>
        T (exec_bound D sql_delete_game [SqlText g] d) = (T d)(g := None)"
    and "sql \<in> {sql_save_player, sql_save_stats} \<Longrightarrow>
        db_isConnected D (exec_bound D sql ps d) \<and> T (exec_bound D sql ps d) = T d"
    and "sql \<in> {sql_stats_name, sql_total_games, sql_games_won, sql_total_score, sql_last_played} \<Longrightarrow>
        db_isConnected D (snd (db_queryOneBound D sql ps d)) \<and> T (snd (db_queryOneBound D sql ps d)) = T d"
proof -
  note law = assms(1) [unfolded game_writes_def]
  show "sql \<in> {sql_save_game, sql_save_player, sql_save_stats} \<Longrightarrow> fst (db_executeBound D sql ps d)"
    using conjunct1 [OF law] assms(2) by blast
  note law = conjunct2 [OF law]
  show "plain_text g \<Longrightarrow> db_isConnected D (exec_bound D sql_delete_game [SqlText g] d) \<and>
      T (exec_bound D sql_delete_game [SqlText g] d) = (T d)(g := None)"
    using conjunct1 [OF law] assms(2) by blast
  note law = conjunct2 [OF law]
  show "sql \<in> {sql_save_player, sql_save_stats} \<Longrightarrow>
      db_isConnected D (exec_bound D sql ps d) \<and> T (exec_bound D sql ps d) = T d"
    using conjunct1 [OF law] assms(2) by blast
  show "sql \<in> {sql_stats_name, sql_total_games, sql_games_won, sql_total_score, sql_last_played} \<Longrightarrow>
      db_isConnected D (snd (db_queryOneBound D sql ps d)) \<and> T (snd (db_queryOneBound D sql ps d)) = T d"
    using conjunct2 [OF law] assms(2) by blast
qed

text \<open>What is asked of a saved state: its numbers fit an \<open>int\<close>, and its text is written and read back.\<close>

fun call_fits :: "JsonLib \<Rightarrow> StoreCall \<Rightarrow> bool" where
  "call_fits L (SaveGame gs) \<longleftrightarrow> state_wf gs \<and> plain_text (gameId gs) \<and> plain_text (lib_dump L (state_toJson gs)) \<and>
     lib_parse L (lib_dump L (state_toJson gs)) = Some (state_toJson gs)"
| "call_fits L (DeleteGame g) \<longleftrightarrow> plain_text g"
| "call_fits L _ \<longleftrightarrow> True"

definition written_table :: "JsonLib \<Rightarrow> (string \<Rightarrow> GameState option) \<Rightarrow> string \<Rightarrow> (string \<times> string) option" where
  "written_table L m g = map_option (\<lambda>gs. (lib_dump L (state_toJson gs), status_of (phase gs))) (m g)"

lemma written_table_upd [simp]:
  "written_table L (m(g \<mapsto> gs)) = (written_table L m)(g \<mapsto> (lib_dump L (state_toJson gs), status_of (phase gs)))"
  "written_table L (m(g := None)) = (written_table L m)(g := None)" "written_table L Map.empty = Map.empty"
  by (simp_all add: written_table_def fun_eq_iff)

text \<open>Each call does to the table of the games what it does to the games on record.\<close>

lemma perform_refines:
  assumes laws: "game_table D T" "game_writes D T" and d: "db_isConnected D d" "T d = written_table L m"
    and fits: "call_fits L call"
  shows "\<exists>d1. perform D L now call (Some d) = Some d1 \<and> db_isConnected D d1 \<and> T d1 = written_table L (note_call call m)"
proof (cases call)
  case (SaveGame gs)
  have "fst (saveGame D (lib_parse L) (lib_dump L) now gs (Some d))"
    using game_writesD(1) [OF laws(2) d(1)] d(1) by (simp add: saveGame_def Let_def split_beta)
  then obtain repo where r: "saveGame D (lib_parse L) (lib_dump L) now gs (Some d) = (True, repo)"
    by (cases "saveGame D (lib_parse L) (lib_dump L) now gs (Some d)") simp
  from saveGame_table [OF laws(1) d(1) _ _ r] fits SaveGame d(2) r show ?thesis by auto
next
  case (DeleteGame g)
  let ?d1 = "exec_bound D sql_clear_players [SqlText g] d"
  have d1: "db_isConnected D ?d1 \<and> T ?d1 = T d" using game_tableD(2) [OF laws(1) d(1)] by blast
  have "perform D L now call (Some d) = Some (exec_bound D sql_delete_game [SqlText g] ?d1)"
    using DeleteGame by (simp add: deleteGame_def exec_bound_def split_beta)
  then show ?thesis using game_writesD(2) [OF laws(2), of ?d1 g] d1 d(2) fits DeleteGame by auto
next
  case (SavePlayer p)
  let ?save = "exec_bound D sql_save_player [SqlText (player_id p), SqlText (player_name p), SqlInt now] d"
  let ?stats = "exec_bound D sql_save_stats
    [SqlText (player_id p), SqlInt (gamesPlayed p), SqlInt (gamesWon p), SqlInt (cumulativeScore p), SqlInt now] ?save"
  have s1: "db_isConnected D ?save \<and> T ?save = T d" using game_writesD(3) [OF laws(2) d(1)] by blast
  then have "db_isConnected D ?stats \<and> T ?stats = T ?save" using game_writesD(3) [OF laws(2)] by blast
  moreover have "perform D L now call (Some d) = Some ?stats"
    using SavePlayer d(1) game_writesD(1) [OF laws(2) d(1)]
    by (simp add: savePlayer_def save_stats_def exec_bound_def split_beta Let_def)
  ultimately show ?thesis using s1 d(2) SavePlayer by simp
next
  case (UpdateStats pid won score)
  have q: "db_isConnected D (snd (db_queryOneBound D sql ps e)) \<and> T (snd (db_queryOneBound D sql ps e)) = T d"
    if "db_isConnected D e \<and> T e = T d"
      "sql \<in> {sql_stats_name, sql_total_games, sql_games_won, sql_total_score, sql_last_played}" for sql ps e
    using game_writesD(4) [OF laws(2)] that by metis
  have "\<exists>e. snd (getPlayerStats D pid (Some d)) = Some e \<and> db_isConnected D e \<and> T e = T d"
    by (simp add: getPlayerStats_def split_beta Let_def q d(1))
  then obtain s e where g: "getPlayerStats D pid (Some d) = (s, Some e)" "db_isConnected D e" "T e = T d"
    by (cases "getPlayerStats D pid (Some d)") auto
  then show ?thesis
    using UpdateStats game_writesD(3) [OF laws(2) g(2), of sql_save_stats] d(2)
    by (simp add: updateStats_def save_stats_def flip: exec_bound_def)
qed

lemma replay_refines:
  assumes "game_table D T" "game_writes D T" "db_isConnected D d" "T d = written_table L m"
    "\<forall>call \<in> snd ` set timed. call_fits L call"
  shows "\<exists>d1. replay D L timed (Some d) = Some d1 \<and> db_isConnected D d1 \<and>
    T d1 = written_table L (fold note_call (map snd timed) m)"
  using assms(3-5)
proof (induction timed arbitrary: d m)
  case (Cons t timed)
  obtain now call where t: "t = (now, call)" by (cases t)
  obtain d1 where "perform D L now call (Some d) = Some d1" "db_isConnected D d1" "T d1 = written_table L (note_call call m)"
    using perform_refines [OF assms(1,2) Cons.prems(1,2), of call now] Cons.prems(3) t by auto
  then show ?case using Cons.IH [of d1 "note_call call m"] Cons.prems(3) t by (simp add: replay_def)
qed (simp add: replay_def)

section \<open>The games on record and the saved calls\<close>

lemma fold_note_call:
  assumes "fold note_call calls m g = Some gs" "\<forall>gs. m g = Some gs \<longrightarrow> gameId gs = g"
  shows "gameId gs = g \<and> (m g = Some gs \<or> SaveGame gs \<in> set calls)"
  using assms
proof (induction calls arbitrary: m)
  case (Cons call calls)
  have "\<forall>gs. note_call call m g = Some gs \<longrightarrow> gameId gs = g \<and> (m g = Some gs \<or> call = SaveGame gs)"
    using Cons.prems(2) by (cases call) (auto split: if_splits)
  with Cons.IH [of "note_call call m"] Cons.prems(1) show ?case by auto
qed simp

lemma saved_games_called:
  "saved_games calls g = Some gs \<Longrightarrow> gameId gs = g \<and> SaveGame gs \<in> set calls"
  using fold_note_call [of calls Map.empty g gs] by (simp add: saved_games_def)

lemma written_back:
  assumes "\<forall>call \<in> set calls. call_fits L call" "saved_games calls g = Some gs"
  shows "is_written (lib_parse L) g (lib_dump L (state_toJson gs)) (status_of (phase gs)) gs"
  using assms saved_games_called [OF assms(2)] by (auto simp: is_written_def)

lemma all_written_back:
  "\<forall>call \<in> set calls. call_fits L call \<Longrightarrow> all_written (lib_parse L) (written_table L (saved_games calls))"
  using written_back [of calls L] unfolding all_written_def written_table_def by fastforce

text \<open>Two states with the same text are restored alike.\<close>

lemma restored_by_text:
  assumes "state_wf gs" "state_wf gs'" "state_toJson gs = state_toJson gs'"
  shows "restored now seed gs = restored now seed gs'"
  using state_fromJson_toJson [OF assms(1), of "''''" now seed] state_fromJson_toJson [OF assms(2), of "''''" now seed] assms(3)
  by simp

text \<open>What a game is after the restart: nothing when there was none, and otherwise what the last saved state
  gives, which has the badge of the game and seats everybody who still sat there.\<close>

definition survives :: "StoreCall list \<Rightarrow> int \<Rightarrow> string \<Rightarrow> GameEngine option \<Rightarrow> GameEngine option \<Rightarrow> bool" where
  "survives calls clock g before after \<longleftrightarrow>
     (case before of
        None \<Rightarrow> after = None
      | Some eng \<Rightarrow> \<exists>gs. saved_games calls g = Some gs \<and> seated_in (badge (eng_state eng)) (badge gs) \<and>
          (if phase gs = ROUND_ENDED \<or> phase gs = GAME_ENDED then after = None
           else \<exists>seed. after = Some (engine_new clock (restored clock seed gs))))"

lemma stored_as_survives:
  assumes "\<forall>call \<in> set calls. call_fits L call" "on_record (saved_games calls) g before"
    "stored_as (lib_parse L) (written_table L (saved_games calls)) clock g after"
  shows "survives calls clock g before after"
proof (cases "saved_games calls g")
  case None
  then have "before = None" "after = None"
    using assms(2,3) by (auto simp: on_record_def stored_as_def written_table_def split: option.splits)
  then show ?thesis by (simp add: survives_def)
next
  case (Some gs)
  let ?s = "lib_dump L (state_toJson gs)"
  have w: "is_written (lib_parse L) g ?s (status_of (phase gs)) gs" using written_back [OF assms(1) Some] .
  have t: "written_table L (saved_games calls) g = Some (?s, status_of (phase gs))" using Some by (simp add: written_table_def)
  obtain eng where eng: "before = Some eng" "seated_in (badge (eng_state eng)) (badge gs)"
    using assms(2) Some by (auto simp: on_record_def split: option.splits)
  have same: "phase gs' = phase gs \<and> (\<forall>seed. restored clock seed gs' = restored clock seed gs)"
    if "is_written (lib_parse L) g ?s st gs'" for st gs'
  proof -
    have "state_wf gs" "state_wf gs'" "state_toJson gs' = state_toJson gs" using that w by (auto simp: is_written_def)
    then have "\<forall>seed. restored clock seed gs' = restored clock seed gs" using restored_by_text by blast
    then show ?thesis by (metis restored_fields(2))
  qed
  have "if phase gs = ROUND_ENDED \<or> phase gs = GAME_ENDED then after = None
      else \<exists>seed. after = Some (engine_new clock (restored clock seed gs))"
  proof (cases "phase gs = ROUND_ENDED \<or> phase gs = GAME_ENDED")
    case True
    then have "after = None" using assms(3) t same unfolding stored_as_def by (cases after) auto
    then show ?thesis using True by simp
  next
    case False
    then obtain eng' where "after = Some eng'" using assms(3) t w unfolding stored_as_def by (cases after) auto
    then show ?thesis using False assms(3) t same unfolding stored_as_def by auto
  qed
  then show ?thesis using eng Some by (simp add: survives_def)
qed


text \<open>The server over an empty table, and what its calls leave there.\<close>

lemma fresh_run_recorded:
  assumes "setupDatabase Q (cfg_dbConfig cfg) = (Some d, True)" "game_table (sqlite_database Q) T"
    "game_writes (sqlite_database Q) T" "T d = Map.empty"
    "server_start Q L cfg steady wall junk r seeds loadSeeds = Some sv"
    "server_runs L board fs path (sv_app sv) app" "map snd timed = app_store app"
    "\<forall>call \<in> set (app_store app). call_fits L call"
  shows "tracks app"
    and "\<exists>d1. replay (sqlite_database Q) L timed (Some d) = Some d1 \<and> T d1 = written_table L (saved_games (app_store app))"
proof -
  have empty: "all_written (lib_parse L) (T d)" by (simp add: assms(4) all_written_def)
  from server_start_over [OF assms(1,2) this, of steady wall junk r seeds loadSeeds] assms(5)
  have sv: "db_isConnected (sqlite_database Q) d" "app_db (sv_app sv)" "app_store (sv_app sv) = []"
    "map_wf (activeGames (sv_app sv))" "\<forall>g. stored_as (lib_parse L) (T d) steady g (getGame g (sv_app sv))"
    by simp_all
  have "getGame g (sv_app sv) = None" for g
    using spec [OF sv(5), of g] assms(4) unfolding stored_as_def by (cases "getGame g (sv_app sv)") auto
  then have "tracks (sv_app sv)" using sv(2-4) by (simp add: tracks_def on_record_def getGame_def)
  then show "tracks app" using tracks_server_runs [OF assms(6)] by blast
  have fits: "\<forall>call \<in> snd ` set timed. call_fits L call" using assms(7,8) by (metis list.set_map)
  have "T d = written_table L Map.empty" using assms(4) by simp
  from replay_refines [OF assms(2,3) sv(1) this fits] assms(7)
  show "\<exists>d1. replay (sqlite_database Q) L timed (Some d) = Some d1 \<and> T d1 = written_table L (saved_games (app_store app))"
    by (auto simp: saved_games_def)
qed

text \<open>C16: A server that starts over an empty database, handles any sequence of events and is started again over
  what its calls have left there has the same games again: each one as it was last saved, with the id,
  code, creator and configuration it had and a seat for everybody who sat in it (a player who had left
  may be back), except those saved between two rounds or at their end, which are gone; no other game
  comes back, and none that was removed.  The statements are asked to succeed, the texts to be read back
  and the numbers saved to fit an \<open>int\<close>.\<close>

theorem games_survive_restart:
  assumes "setupDatabase Q (cfg_dbConfig cfg) = (Some d, True)" "game_table (sqlite_database Q) T"
    "game_writes (sqlite_database Q) T" "T d = Map.empty"
    "server_start Q L cfg steady wall junk r seeds loadSeeds = Some sv"
    "server_runs L board fs path (sv_app sv) app" "map snd timed = app_store app"
    "\<forall>call \<in> set (app_store app). call_fits L call"
  shows "\<exists>d1. replay (sqlite_database Q) L timed (Some d) = Some d1 \<and>
    (\<forall>Q2 d2. setupDatabase Q2 (cfg_dbConfig cfg2) = (Some d2, True) \<and> game_table (sqlite_database Q2) T \<and> T d2 = T d1 \<longrightarrow>
      (\<exists>sv2. server_start Q2 L cfg2 steady2 wall2 junk2 r2 seeds2 loadSeeds2 = Some sv2 \<and>
         (\<forall>g. survives (app_store app) steady2 g (getGame g app) (getGame g (sv_app sv2)))))"
proof -
  note run = fresh_run_recorded [OF assms]
  obtain d1 where d1: "replay (sqlite_database Q) L timed (Some d) = Some d1"
    "T d1 = written_table L (saved_games (app_store app))" using run(2) by blast
  have "\<exists>sv2. server_start Q2 L cfg2 steady2 wall2 junk2 r2 seeds2 loadSeeds2 = Some sv2 \<and>
      (\<forall>g. survives (app_store app) steady2 g (getGame g app) (getGame g (sv_app sv2)))"
    if start: "setupDatabase Q2 (cfg_dbConfig cfg2) = (Some d2, True)" "game_table (sqlite_database Q2) T" "T d2 = T d1"
    for Q2 d2
  proof -
    have "all_written (lib_parse L) (T d2)" using all_written_back [OF assms(8)] d1(2) start(3) by simp
    from server_start_over [OF start(1,2) this, of steady2 wall2 junk2 r2 seeds2 loadSeeds2] obtain sv2 where
      sv2: "server_start Q2 L cfg2 steady2 wall2 junk2 r2 seeds2 loadSeeds2 = Some sv2"
      "\<forall>g. stored_as (lib_parse L) (T d2) steady2 g (getGame g (sv_app sv2))" by blast
    have "survives (app_store app) steady2 g (getGame g app) (getGame g (sv_app sv2))" for g
      using stored_as_survives [OF assms(8) tracksD(3) [OF run(1)]] sv2(2) d1(2) start(3) by simp
    then show ?thesis using sv2(1) by blast
  qed
  then show ?thesis using d1(1) by blast
qed

section \<open>A run over the small SQLite\<close>

lemma small_deletes:
  assumes "sq_db d = Some h" "plain_text g"
  shows "exec_bound (sqlite_database (small_sqlite start)) sql_delete_game [SqlText g] d =
    d\<lparr>sq_db := Some (filter (\<lambda>row. fst row \<noteq> g) h)\<rparr>"
  using assms by (simp add: exec_bound_def sqlite_database_def sq_executeBound_def small_prepare)

lemma map_of_filter_key: "map_of (filter (\<lambda>row. fst row \<noteq> k) xs) = (map_of xs)(k := None)"
  by (induction xs) (auto simp: fun_eq_iff)

lemma small_game_writes: "game_writes (sqlite_database (small_sqlite start)) small_table"
  unfolding game_writes_def small_database
proof (intro conjI allI impI)
  fix d :: "game_rows SQLiteDatabase" and sql ps
  assume a: "sq_db d \<noteq> None \<and> sql \<in> {sql_save_game, sql_save_player, sql_save_stats}"
  show "fst (db_executeBound (sqlite_database (small_sqlite start)) sql ps d)"
  proof (cases "sql = sql_save_game")
    case True
    then show ?thesis using a by (auto simp: sqlite_database_def sq_executeBound_def small_prepare)
  next
    case False
    then show ?thesis using a small_other(1) [of d _ sql start ps] by auto
  qed
next
  fix d :: "game_rows SQLiteDatabase" and g
  assume "sq_db d \<noteq> None \<and> plain_text g"
  then show "sq_db (exec_bound (sqlite_database (small_sqlite start)) sql_delete_game [SqlText g] d) \<noteq> None"
    and "small_table (exec_bound (sqlite_database (small_sqlite start)) sql_delete_game [SqlText g] d) =
      (small_table d)(g := None)"
    by (auto simp: small_deletes small_table_def map_of_filter_key)
next
  fix d :: "game_rows SQLiteDatabase" and sql ps
  assume "sq_db d \<noteq> None \<and> sql \<in> {sql_save_player, sql_save_stats}"
  then show "sq_db (exec_bound (sqlite_database (small_sqlite start)) sql ps d) \<noteq> None"
    and "small_table (exec_bound (sqlite_database (small_sqlite start)) sql ps d) = small_table d"
    using small_other(2) [of d _ sql start ps] by auto
next
  fix d :: "game_rows SQLiteDatabase" and sql ps
  assume "sq_db d \<noteq> None \<and>
    sql \<in> {sql_stats_name, sql_total_games, sql_games_won, sql_total_score, sql_last_played}"
  then show "sq_db (snd (db_queryOneBound (sqlite_database (small_sqlite start)) sql ps d)) \<noteq> None"
    and "small_table (snd (db_queryOneBound (sqlite_database (small_sqlite start)) sql ps d)) = small_table d"
    using small_other(3) [of d _ sql start ps] by auto
qed

text \<open>A library that writes a value as so many letters, by which it reads it back.\<close>

instance json :: countable
  by countable_datatype

definition counting_lib :: JsonLib where
  "counting_lib = \<lparr>lib_parse = \<lambda>s. Some (from_nat (length s)), lib_dump = \<lambda>j. replicate (to_nat j) (CHR ''x'')\<rparr>"

lemma counting_fits:
  "call_fits counting_lib call \<longleftrightarrow>
     (case call of SaveGame gs \<Rightarrow> state_wf gs \<and> plain_text (gameId gs) | DeleteGame g \<Rightarrow> plain_text g | _ \<Rightarrow> True)"
  by (cases call) (auto simp: counting_lib_def plain_text_def)

text \<open>A new server over no rows, and the first request it gets.\<close>

definition fresh :: Application where
  "fresh = app_new 100 True 0 0 0 [] []"

lemma small_fresh_start:
  "server_start (small_sqlite []) L file_config 0 0 0 [] [] [] =
     Some \<lparr>sv_app = fresh, sv_db = Some \<lparr>sq_config = cfg_dbConfig file_config, sq_db = Some []\<rparr>\<rparr>"
proof -
  have "stored_games (sqlite_database (small_sqlite [])) parse 0 [] (Some d) = Some ([], Some d)" if "sq_db d = Some []" for parse d
    using small_query(1) [OF that, of sql_active_games "[]"] small_active [of "[]"]
    by (simp add: stored_games_def getActiveGames_def)
  moreover have "cfg_maxGamesPerServer file_config = 100" by (simp add: file_config_def application_config_def)
  ultimately show ?thesis
    by (simp add: server_start_def small_opens fresh_def loadExistingGames_def Let_def)
qed

definition first_request :: HttpRequest where
  "first_request = \<lparr>req_method = POST, req_path = ''/api/games'', req_headers = [], req_queryParams = [],
     req_pathParams = [], req_body = []\<rparr>"

definition posted :: Application where
  "posted = snd (api_connection counting_lib (\<lambda>n. []) (\<lambda>s. None) '''' (''POST /api/games HTTP/1.1'' @ crlf @ crlf) fresh)"

lemma posted_creates: "posted = snd (handleCreateGame counting_lib first_request fresh)"
proof -
  have "header_loop (CR # LF # s) [] = []" for s
    by (subst header_loop.simps) (simp add: read_line_def)
  then have "parse_request (''POST /api/games HTTP/1.1'' @ crlf @ crlf) = first_request"
    by (simp add: parse_request_def first_request_def read_word_def is_space_def parse_target_def split_at_def
       crlf_def Let_def parseMethod_def)
  moreover have "find_handler (api_server '''') first_request = Some (R_CreateGame, first_request)"
    by (simp add: api_server_def find_handler_def addRoute_def addPatternRoute_def setStaticRoot_def http_new_def
       map_get_def first_request_def)
  ultimately show ?thesis
    by (simp add: posted_def api_connection_def serve_connection_def handleRequest_def split_beta Let_def)
      (simp add: first_request_def)
qed

lemma posted_quiet: "\<not> app_thrown posted"
  using create_throws [of counting_lib first_request fresh] sound_app_new [of 100 True 0 0 0 "[]" "[]"]
  by (simp add: posted_creates first_request_def fresh_def app_new_def to_size_t_def create_request_def body_with_def
      default_config_def utf8_ascii_Cons)

lemma posted_fits: "\<forall>call \<in> set (app_store posted). call_fits counting_lib call"
proof -
  have "list_all (\<lambda>call. case call of SaveGame gs \<Rightarrow> state_wf gs \<and> plain_text (gameId gs) | DeleteGame g \<Rightarrow> plain_text g | _ \<Rightarrow> True)
      (app_store (snd (handleCreateGame L first_request fresh)))" for L by code_simp
  then show ?thesis unfolding counting_fits posted_creates by (simp only: list_all_iff)
qed

lemma posted_saves:
  "getGame ''game-0-0'' posted \<noteq> None \<and> map_option phase (saved_games (app_store posted) ''game-0-0'') = Some LOBBY"
proof -
  have "getGame ''game-0-0'' (snd (handleCreateGame L first_request fresh)) \<noteq> None \<and>
      map_option phase (saved_games (app_store (snd (handleCreateGame L first_request fresh))) ''game-0-0'') = Some LOBBY" for L
    by code_simp
  then show ?thesis unfolding posted_creates .
qed

theorem games_survive_restart_witness:
  "\<exists>h sv2. replay (sqlite_database (small_sqlite [])) counting_lib (map (Pair 0) (app_store posted))
       (Some \<lparr>sq_config = cfg_dbConfig file_config, sq_db = Some []\<rparr>) \<noteq> None \<and>
     server_start (small_sqlite h) counting_lib file_config 5 0 0 [] [] [] = Some sv2 \<and>
     getGame ''game-0-0'' (sv_app sv2) \<noteq> None"
proof -
  let ?d = "\<lparr>sq_config = cfg_dbConfig file_config, sq_db = Some ([] :: game_rows)\<rparr>"
  let ?sv = "\<lparr>sv_app = fresh, sv_db = Some ?d\<rparr>"
  have run: "server_runs counting_lib (\<lambda>n. []) (\<lambda>s. None) '''' (sv_app ?sv) posted"
    using posted_quiet unfolding posted_def by (simp add: server_runs.next_step [OF server_runs.none server_step.requested])
  have none: "small_table ?d = Map.empty" by (simp add: small_table_def)
  have calls: "map snd (map (Pair 0) (app_store posted)) = app_store posted" by (simp add: comp_def)
  obtain d1 where d1: "replay (sqlite_database (small_sqlite [])) counting_lib (map (Pair 0) (app_store posted)) (Some ?d) = Some d1"
    and again: "\<forall>Q2 d2. setupDatabase Q2 (cfg_dbConfig file_config) = (Some d2, True) \<and> game_table (sqlite_database Q2) small_table \<and>
        small_table d2 = small_table d1 \<longrightarrow>
      (\<exists>sv2. server_start (Q2 :: (game_rows, game_stmt) Sqlite) counting_lib file_config 5 0 0 [] [] [] = Some sv2 \<and>
         (\<forall>g. survives (app_store posted) 5 g (getGame g posted) (getGame g (sv_app sv2))))"
    using games_survive_restart [OF small_opens small_game_table small_game_writes none small_fresh_start run calls posted_fits,
        of file_config 5 0 0 "[]" "[]" "[]"] by blast
  let ?h = "case sq_db d1 of None \<Rightarrow> [] | Some h \<Rightarrow> h"
  have "small_table \<lparr>sq_config = cfg_dbConfig file_config, sq_db = Some ?h\<rparr> = small_table d1"
    by (simp add: small_table_def split: option.split)
  then obtain sv2 where sv2: "server_start (small_sqlite ?h) counting_lib file_config 5 0 0 [] [] [] = Some sv2"
    "survives (app_store posted) 5 ''game-0-0'' (getGame ''game-0-0'' posted) (getGame ''game-0-0'' (sv_app sv2))"
    using again small_opens [of ?h] small_game_table [of ?h] by blast
  have "getGame ''game-0-0'' (sv_app sv2) \<noteq> None"
    using sv2(2) posted_saves by (auto simp: survives_def)
  then show ?thesis using d1 sv2(1) by blast
qed

end
