(* ===== verification/Whot_Threads.thy ===== *)
theory Whot_Threads
  imports Whot_Life
begin

text \<open>
  Requests in several threads.  Every HTTP request runs in a thread of its own beside the one of the WebSockets,
  and \<open>joinGame\<close> holds the mutex of the games only while it looks the game up.  \<open>addPlayer\<close> holds none, so
  neither what the join has seen of the table nor what \<open>addPlayer\<close> has seen of its size need still hold when the
  player is pushed.  A join is therefore three steps here, with any steps of the other threads between them:
  the look, the check of the size in \<open>addPlayer\<close>, and the push with what follows it.  (Two pushes at the very
  same moment are a data race, which has no meaning in C++; the model has the pushes one after the other.)
\<close>

section \<open>The three steps of a join\<close>

text \<open>The look: \<open>Some\<close> result ends the join, \<open>None\<close> goes on.\<close>

definition join_check :: "string \<Rightarrow> string \<Rightarrow> Application \<Rightarrow> bool option" where
  "join_check gid pid app =
     (case getGame gid app of
        None \<Rightarrow> Some False
      | Some eng \<Rightarrow>
          let gs = eng_state eng
          in if phase gs \<noteq> LOBBY then Some False
             else if getPlayer pid gs \<noteq> None then Some True
             else if getPlayerCount gs \<ge> to_size_t (maxPlayers (config gs)) then Some False
             else None)"

text \<open>The player it makes.\<close>

definition join_player :: "string \<Rightarrow> string \<Rightarrow> Application \<Rightarrow> Player" where
  "join_player pid playerName app = player_new (app_steady app) pid (if playerName = '''' then pid else playerName) HUMAN"

text \<open>The check of the size.  \<open>None\<close> here and below: the game has been removed, and the pointer of the look dangles.\<close>

definition join_room :: "string \<Rightarrow> Application \<Rightarrow> bool option" where
  "join_room gid app =
     map_option (\<lambda>eng. length (players (eng_state eng)) < to_size_t (maxPlayers (config (eng_state eng)))) (getGame gid app)"

text \<open>What follows \<open>addPlayer\<close>, whether it has seated the player or not.\<close>

definition join_rest :: "string \<Rightarrow> string \<Rightarrow> Application \<Rightarrow> Application option" where
  "join_rest gid pid app =
     map_option (\<lambda>eng.
       let gs = eng_state eng;
           app1 = (case getPlayer pid gs of
                     None \<Rightarrow> app | Some i \<Rightarrow> store (SavePlayer (players gs ! i)) app)
       in touchGameActivity gid (store (SaveGame gs) app1)) (getGame gid app)"

text \<open>The push, without another look at the size.\<close>

definition push_player :: "Player \<Rightarrow> GameState \<Rightarrow> GameState" where
  "push_player p gs =
     (let gs' = (if players gs = [] then gs\<lparr>creatorPlayerId := player_id p\<rparr> else gs)
      in gs'\<lparr>players := players gs' @ [p]\<rparr>)"

definition join_push :: "string \<Rightarrow> Player \<Rightarrow> Application \<Rightarrow> Application option" where
  "join_push gid p app =
     (case getGame gid app of
        None \<Rightarrow> None
      | Some eng \<Rightarrow> join_rest gid (player_id p) (put_engine gid (eng\<lparr>eng_state := push_player p (eng_state eng)\<rparr>) app))"

text \<open>One after the other they are the join.\<close>

lemma addPlayer_steps:
  "addPlayer (Some p) gs = (if length (players gs) < to_size_t (maxPlayers (config gs)) then push_player p gs else gs)"
  by (simp add: addPlayer_def push_player_def)

lemma joinGame_steps:
  assumes "map_wf (activeGames app)"
  shows "joinGame gid pid name app =
    (case join_check gid pid app of
       Some r \<Rightarrow> (r, app)
     | None \<Rightarrow>
         (case join_room gid app of
            None \<Rightarrow> (False, app)
          | Some room \<Rightarrow>
              (case if room then join_push gid (join_player pid name app) app else join_rest gid pid app of
                 None \<Rightarrow> (False, app) | Some app' \<Rightarrow> (True, app'))))"
proof (cases "getGame gid app")
  case None
  then show ?thesis by (simp add: joinGame_def join_check_def)
next
  case (Some eng)
  let ?p = "join_player pid name app" and ?gs = "eng_state eng"
  have pid: "player_id ?p = pid" by (simp add: join_player_def player_new_def)
  have "joinGame gid pid name app =
      (if phase ?gs \<noteq> LOBBY then (False, app)
       else if getPlayer pid ?gs \<noteq> None then (True, app)
       else if getPlayerCount ?gs \<ge> to_size_t (maxPlayers (config ?gs)) then (False, app)
       else let gs1 = addPlayer (Some ?p) ?gs; app1 = put_engine gid (eng\<lparr>eng_state := gs1\<rparr>) app
            in (True, touchGameActivity gid (store (SaveGame gs1) (case getPlayer pid gs1 of
                  None \<Rightarrow> app1 | Some i \<Rightarrow> store (SavePlayer (players gs1 ! i)) app1))))"
    using Some by (simp add: joinGame_def join_player_def Let_def)
  then show ?thesis
    using Some assms pid
    by (auto simp: join_check_def join_room_def join_push_def join_rest_def addPlayer_steps
        put_engine_def getGame_def get_put getPlayerCount_def Let_def split: option.split)
qed

section \<open>Steps of all threads\<close>




section \<open>The law of a table under races\<close>














section \<open>What becomes of a join\<close>





section \<open>Two joins for the last seat\<close>









end
