(* ===== verification/Whot_Timers.thy ===== *)
theory Whot_Timers
  imports Whot_SessionLaw
begin

text \<open>
  The loop of \<open>WsServerImpl::run\<close>: the heartbeat and the timeout check, each driven by a timer that arms
  itself again, among the callbacks of the transport.  A timer holds the time at which it fires; the
  library calls it then or later, at most \<open>late\<close> nanoseconds later.
\<close>

record Loop =
  lp_app :: Application
  lp_serving :: bool
  heartbeatTimer :: "int option"
  timeoutTimer :: "int option"
  lp_pinged :: "nat list list"

text \<open>\<open>lp_serving\<close>: the loop is in \<open>server_.run\<close>; \<open>lp_pinged\<close>: the connections of every heartbeat.\<close>

definition scheduleHeartbeat :: "Loop \<Rightarrow> Loop" where
  "scheduleHeartbeat lp =
     (let app = lp_app lp; ws = app_ws app
      in if \<not> ws_running ws then lp
         else lp\<lparr>heartbeatTimer := Some (app_steady app + ws_heartbeatInterval ws * 1000000000)\<rparr>)"

definition heartbeat_fired :: "Loop \<Rightarrow> Loop" where
  "heartbeat_fired lp =
     (let lp1 = lp\<lparr>heartbeatTimer := None\<rparr>; ws = app_ws (lp_app lp)
      in if \<not> ws_running ws then lp1
         else scheduleHeartbeat (lp1\<lparr>lp_pinged := lp_pinged lp1 @ [sendPings ws]\<rparr>))"

definition scheduleTimeoutCheck :: "Loop \<Rightarrow> Loop" where
  "scheduleTimeoutCheck lp =
     (let app = lp_app lp; ws = app_ws app
      in if \<not> ws_running ws then lp
         else lp\<lparr>timeoutTimer := Some (app_steady app + check_interval ws * 1000000000)\<rparr>)"

definition timeout_fired :: "Loop \<Rightarrow> Loop" where
  "timeout_fired lp =
     (let lp1 = lp\<lparr>timeoutTimer := None\<rparr>
      in if \<not> ws_running (app_ws (lp_app lp)) then lp1
         else scheduleTimeoutCheck (lp1\<lparr>lp_app := timeouts_checked (lp_app lp1)\<rparr>))"

text \<open>\<open>run\<close>, and whether the port could be listened on: when it could not, the exception is swallowed, and the
  thread ends while the server goes on as running.\<close>

definition loop_run :: "bool \<Rightarrow> Loop \<Rightarrow> Loop" where
  "loop_run listens lp =
     (if \<not> listens then lp else scheduleTimeoutCheck (scheduleHeartbeat (lp\<lparr>lp_serving := True\<rparr>)))"

text \<open>\<open>stop\<close> cancels the timers before it closes the connections.\<close>

definition loop_stop :: "Loop \<Rightarrow> Loop" where
  "loop_stop lp =
     lp\<lparr>heartbeatTimer := None, timeoutTimer := None, lp_serving := False,
        lp_app := (lp_app lp)\<lparr>app_ws := ws_stop (app_ws (lp_app lp))\<rparr>\<rparr>"

definition loop_new :: "Application \<Rightarrow> Loop" where
  "loop_new app = \<lparr>lp_app = app, lp_serving = False, heartbeatTimer = None, timeoutTimer = None, lp_pinged = []\<rparr>"

section \<open>Steps\<close>

text \<open>What clients do, over WebSockets while the loop serves (\<open>ws\<close>) and over HTTP while that server runs
  (\<open>http\<close>).\<close>

inductive client_step ::
    "JsonLib \<Rightarrow> (int \<Rightarrow> PlayerStats list) \<Rightarrow> (string \<Rightarrow> string option) \<Rightarrow> string \<Rightarrow> bool \<Rightarrow> bool \<Rightarrow>
     Application \<Rightarrow> Application \<Rightarrow> bool"
  for L board fs path ws http where
  opens: "ws \<Longrightarrow> connection_opened hdl ip app = Some app' \<Longrightarrow> client_step L board fs path ws http app app'"
| sends: "ws \<Longrightarrow> text_received L hdl data app = Some app' \<Longrightarrow> \<not> app_thrown app' \<Longrightarrow>
    client_step L board fs path ws http app app'"
| closes: "ws \<Longrightarrow> \<not> app_thrown (connection_closed L hdl app) \<Longrightarrow>
    client_step L board fs path ws http app (connection_closed L hdl app)"
| requests: "http \<Longrightarrow> \<not> app_thrown (snd (api_connection L board fs path buf app)) \<Longrightarrow>
    client_step L board fs path ws http app (snd (api_connection L board fs path buf app))"

lemma client_server_step: "client_step L board fs path ws http app app' \<Longrightarrow> server_step L board fs path app app'"
  by (erule client_step.cases) (auto intro: server_step.intros)

text \<open>Time passes up to the timers that are armed, and no further than the library may be late.\<close>

inductive loop_step ::
    "JsonLib \<Rightarrow> (int \<Rightarrow> PlayerStats list) \<Rightarrow> (string \<Rightarrow> string option) \<Rightarrow> string \<Rightarrow> bool \<Rightarrow> int \<Rightarrow> Loop \<Rightarrow> Loop \<Rightarrow> bool"
  for L board fs path http late where
  client: "client_step L board fs path (lp_serving lp) http (lp_app lp) app \<Longrightarrow> loop_step L board fs path http late lp (lp\<lparr>lp_app := app\<rparr>)"
| passes: "app_steady (lp_app lp) \<le> s \<Longrightarrow> pred_option (\<lambda>t. s \<le> t + late) (heartbeatTimer lp) \<Longrightarrow>
    pred_option (\<lambda>t. s \<le> t + late) (timeoutTimer lp) \<Longrightarrow>
    loop_step L board fs path http late lp (lp\<lparr>lp_app := (lp_app lp)\<lparr>app_steady := s, app_wall := w, app_junk := j\<rparr>\<rparr>)"
| beats: "heartbeatTimer lp = Some t \<Longrightarrow> t \<le> app_steady (lp_app lp) \<Longrightarrow>
    loop_step L board fs path http late lp (heartbeat_fired lp)"
| checks: "timeoutTimer lp = Some t \<Longrightarrow> t \<le> app_steady (lp_app lp) \<Longrightarrow>
    loop_step L board fs path http late lp (timeout_fired lp)"

inductive loop_runs ::
    "JsonLib \<Rightarrow> (int \<Rightarrow> PlayerStats list) \<Rightarrow> (string \<Rightarrow> string option) \<Rightarrow> string \<Rightarrow> bool \<Rightarrow> int \<Rightarrow> Loop \<Rightarrow> Loop \<Rightarrow> bool"
  for L board fs path http late where
  begins: "loop_runs L board fs path http late lp lp"
| goes_on: "loop_runs L board fs path http late lp lp1 \<Longrightarrow> loop_step L board fs path http late lp1 lp2 \<Longrightarrow>
    loop_runs L board fs path http late lp lp2"

section \<open>What the handlers leave alone\<close>

text \<open>The settings of the server and the time.\<close>

definition settings :: "Application \<Rightarrow> bool \<times> int \<times> int \<times> int" where
  "settings app = (ws_running (app_ws app), ws_timeout (app_ws app), ws_heartbeatInterval (app_ws app), app_steady app)"

lemma settings_update [simp]:
  "settings (app\<lparr>activeGames := g\<rparr>) = settings app" "settings (app\<lparr>gameActivity := t\<rparr>) = settings app"
  "settings (app\<lparr>app_rng := r\<rparr>) = settings app" "settings (app\<lparr>app_seeds := ss\<rparr>) = settings app"
  "settings (app\<lparr>app_counter := n\<rparr>) = settings app" "settings (app\<lparr>app_ws := (app_ws app)\<lparr>ws_sessions := mgr\<rparr>\<rparr>) = settings app"
  "settings (app\<lparr>app_rng := r, app_ws := (app_ws app)\<lparr>ws_sessions := mgr\<rparr>\<rparr>) = settings app"
  "settings (put_engine gid eng app) = settings app" "settings (store call app) = settings app"
  "settings (bind_session sid gid pid app) = settings app" "settings (touchGameActivity gid app) = settings app"
  "settings (app_send L sid m app) = settings app" "settings (dumped j app) = settings app"
  "settings (answer_dumped res app) = settings app" "settings (put_new_round gid eng app) = settings app"
  "settings (send_state L gid gs ts sid pid app) = settings app"
  by (simp_all add: settings_def put_engine_def store_def bind_session_def touchGameActivity_def app_send_def
      sendMessage_def ws_send_def answer_dumped_def put_new_round_def send_state_def Let_def
      split: option.split StoreCall.split)

lemma settings_fold: "(\<And>x app. settings (f x app) = settings app) \<Longrightarrow> settings (fold f xs app) = settings app"
  by (induction xs arbitrary: app) simp_all

lemma settings_broadcast [simp]: "settings (broadcastGameState L gid app) = settings app"
  by (simp add: broadcastGameState_def Let_def settings_fold split_beta split: option.split)

lemma settings_operations [simp]:
  "settings (next_round L gid eng app) = settings app" "settings (store_stats gs app) = settings app"
  "settings (snd (createGame cfg app)) = settings app" "settings (snd (joinGame gid pid name app)) = settings app"
  "settings (addBotsToGame gid n app) = settings app"
  by (simp_all add: next_round_def store_stats_def settings_fold createGame_def joinGame_def addBotsToGame_def
      next_seed_def Let_def split_beta split: option.split list.split)

lemma settings_leaveGame [simp]: "settings (snd (leaveGame L gref pid app)) = settings app"
  by (simp add: leaveGame_def Let_def split: option.split)

lemma settings_removeGame [simp]: "settings (removeGame gid app) = settings app"
  by (simp add: removeGame_def settings_def store_def)

lemma settings_remove_stale [simp]: "settings (remove_stale n app) = settings app"
  unfolding remove_stale_def by (rule settings_fold) simp

lemma settings_bot_turns: "bot_turns L gid n app = Some app' \<Longrightarrow> settings app' = settings app"
proof (induction n arbitrary: app)
  case (Suc n)
  from Suc.prems obtain go_on app1 where turn: "bot_turn L gid app = Some (go_on, app1)"
      "(if go_on then bot_turns L gid n app1 else Some app1) = Some app'"
    by (auto split: option.splits)
  from turn(1) have "settings app1 = settings app" by (cases rule: bot_turn_cases) (simp_all add: Let_def)
  then show ?case using Suc.IH [of app1] turn(2) by (cases go_on) simp_all
qed simp

lemma settings_handleClientMessage:
  assumes "handleClientMessage L sid m app = Some app'"
  shows "settings app' = settings app"
  using assms
proof (cases rule: handleClientMessage_cases)
  case joins
  then show ?thesis by (simp add: handleJoinGame_def reattach_def Let_def split_beta split: option.split)
next
  case starts
  then show ?thesis
    by (cases rule: handleStartGame_cases)
      (auto simp: start_error_def runBotTurnsIfNeeded_def dest: settings_bot_turns)
next
  case left
  then show ?thesis by (simp add: handleLeaveGame_def Let_def split_beta)
next
  case acts
  then show ?thesis
    by (cases rule: handleGameAction_cases)
      (auto simp: action_error_def action_accepted_def Let_def runBotTurnsIfNeeded_def dest!: settings_bot_turns)
qed simp

lemma settings_api_call: "settings (snd (api_call L board h req app)) = settings app"
  by (cases h)
    (simp_all add: handleCreateGame_def joined_response_def handleJoinGameHttp_def handleJoinByCode_def
       handleCleanupStaleLobbies_def Let_def split_beta split: option.split)

lemma settings_client_step:
  assumes "client_step L board fs path ws http app app'"
  shows "settings app' = settings app"
  using assms
proof (cases rule: client_step.cases)
  case (opens hdl ip)
  then show ?thesis by (auto simp: connection_opened_def on_open_def settings_def Let_def split: option.splits if_splits)
next
  case (sends hdl data)
  have "settings (app\<lparr>app_ws := snd (receive hdl now (app_ws app))\<rparr>) = settings app" for now
    by (simp add: settings_def receive_def split: option.split)
  then show ?thesis
    using sends settings_handleClientMessage by (fastforce simp: text_received_def Let_def split_beta split: if_splits)
next
  case (closes hdl)
  have "settings (app\<lparr>app_ws := snd (close_connection hdl (app_ws app))\<rparr>) = settings app"
    by (simp add: settings_def close_connection_def split: option.split)
  then show ?thesis
    using closes by (simp add: connection_closed_def handleDisconnection_def Let_def split_beta split: option.split)
next
  case (requests buf)
  then show ?thesis
    using settings_api_call by (cases rule: api_connection_cases [of L board fs path buf app]) auto
qed

section \<open>The registry in every reachable state\<close>

interpretation heard_until: session_law "\<lambda>sid s. sess_lastActivity s \<le> b" "\<lambda>now. now \<le> b" for b :: int
  by unfold_locales simp_all

lemma server_step_steady:
  assumes "server_step L board fs path app app'"
  shows "app_steady app \<le> app_steady app'"
proof -
  have client: "app_steady app' = app_steady app" if "client_step L board fs path True True app app'"
    using settings_client_step [OF that] by (simp add: settings_def)
  show ?thesis
    using assms
  proof (cases rule: server_step.cases)
    case swept
    then show ?thesis by (simp add: timeouts_checked_def)
  qed (use client client_step.intros in auto)
qed

text \<open>C36: In every state the server reaches each session is stored under its own id, ids ascending, and none was
  heard of in the future.\<close>

theorem registry_in_order:
  assumes "server_runs L board fs path (app_new maxGames db steady wall junk r seeds) app"
  shows "sessions_ok (app_sessions app) \<and> list_all (\<lambda>(sid, s). sess_lastActivity s \<le> app_steady app) (app_sessions app)"
proof -
  have "sessions_ok (app_sessions app) \<and> all_sessions (\<lambda>sid s. sess_lastActivity s \<le> app_steady app) (app_sessions app)"
    using assms
  proof (induction "app_new maxGames db steady wall junk r seeds" app rule: server_runs.induct)
    case none
    then show ?case
      by (simp add: app_new_def ws_start_def ws_new_def sessions_ok_def all_sessions_def map_wf_def map_get_def)
  next
    case (next_step app1 app2)
    have "all_sessions (\<lambda>sid s. sess_lastActivity s \<le> app_steady app1) (app_sessions app2)"
      using heard_until.server_step_lawful [OF next_step(3)] next_step(2) by simp
    then have "all_sessions (\<lambda>sid s. sess_lastActivity s \<le> app_steady app2) (app_sessions app2)"
      using server_step_steady [OF next_step(3)] by (fastforce simp: all_sessions_def)
    moreover have "sessions_ok (app_sessions app2)"
      using own_session.server_step_lawful [OF next_step(3)] next_step(2) by (simp add: sessions_ok_law)
    ultimately show ?case by simp
  qed
  then show ?thesis by (auto simp: all_sessions_def list_all_iff get_Some)
qed

section \<open>How long a silent session stays\<close>

interpretation heard_since: session_law "\<lambda>sid s. b \<le> sess_lastActivity s" "\<lambda>now. b \<le> now" for b :: int
  by unfold_locales simp_all

text \<open>The timers are armed and due: the last heartbeat was at \<open>h\<close>, the last check at \<open>c\<close>, and every session
  that is registered was heard of within the timeout before \<open>c\<close>, or since.\<close>

definition on_time :: "int \<Rightarrow> int \<Rightarrow> int \<Rightarrow> Loop \<Rightarrow> bool" where
  "on_time timeout beat late lp \<longleftrightarrow>
     (let app = lp_app lp; now = app_steady app
      in (\<exists>n. settings app = (True, timeout, beat, n)) \<and>
         (\<exists>h. heartbeatTimer lp = Some (h + beat * 1000000000) \<and> h \<le> now \<and> now \<le> h + beat * 1000000000 + late) \<and>
         (\<exists>c. timeoutTimer lp = Some (c + max 1 (timeout div 2) * 1000000000) \<and> c \<le> now \<and>
            now \<le> c + max 1 (timeout div 2) * 1000000000 + late \<and>
            all_sessions (\<lambda>sid s. c - timeout * 1000000000 \<le> sess_lastActivity s) (app_sessions app)))"

lemma swept_sessions:
  assumes "ws_running (app_ws app)" "0 < ws_timeout (app_ws app)" "map_wf (app_sessions app)"
  shows "all_sessions (\<lambda>sid s. app_steady app - ws_timeout (app_ws app) * 1000000000 \<le> sess_lastActivity s)
    (app_sessions (timeouts_checked app))"
  using assms
  by (auto simp: timeouts_checked_def checkTimeouts_def closeSessions_sessions removeExpiredSessions_def map_del_if_def
      Let_def all_sessions_def wf_filter get_Some)

lemma settings_timeouts: "settings (timeouts_checked app) = settings app"
proof -
  have "ws_running (fold closeSession sids ws) = ws_running ws \<and> ws_timeout (fold closeSession sids ws) = ws_timeout ws \<and>
      ws_heartbeatInterval (fold closeSession sids ws) = ws_heartbeatInterval ws" for sids ws
    by (induction sids arbitrary: ws) (simp_all add: closeSession_def split: option.split)
  then show ?thesis by (simp add: timeouts_checked_def checkTimeouts_def settings_def Let_def split_beta)
qed

lemma on_time_client:
  assumes "on_time timeout beat late lp" "client_step L board fs path ws http (lp_app lp) app" "0 < timeout"
  shows "on_time timeout beat late (lp\<lparr>lp_app := app\<rparr>)"
proof -
  obtain c where c: "timeoutTimer lp = Some (c + max 1 (timeout div 2) * 1000000000)" "c \<le> app_steady (lp_app lp)"
    "app_steady (lp_app lp) \<le> c + max 1 (timeout div 2) * 1000000000 + late"
    "all_sessions (\<lambda>sid s. c - timeout * 1000000000 \<le> sess_lastActivity s) (app_sessions (lp_app lp))"
    using assms(1) unfolding on_time_def Let_def by blast
  have same: "settings app = settings (lp_app lp)" using settings_client_step [OF assms(2)] .
  then have steady: "app_steady app = app_steady (lp_app lp)" by (simp add: settings_def)
  have "all_sessions (\<lambda>sid s. c - timeout * 1000000000 \<le> sess_lastActivity s) (app_sessions app)"
    using heard_since.server_step_lawful [OF client_server_step [OF assms(2)] c(4)] c(2) assms(3) by simp
  then show ?thesis using assms(1) c(1-3) same steady unfolding on_time_def Let_def by auto
qed

lemma on_time_step:
  assumes "loop_step L board fs path http late lp lp'" "on_time timeout beat late lp" "0 < timeout" "0 \<le> beat" "0 \<le> late"
  shows "on_time timeout beat late lp'"
  using assms(1)
proof (cases rule: loop_step.cases)
  case (client app)
  then show ?thesis using on_time_client assms(2,3) by blast
next
  case (passes s w j)
  then show ?thesis using assms(2) by (auto simp: on_time_def settings_def Let_def)
next
  case (beats t)
  then show ?thesis
    using assms(2,4,5)
    by (auto simp: on_time_def heartbeat_fired_def scheduleHeartbeat_def settings_def Let_def)
next
  case (checks t)
  obtain c where c: "all_sessions (\<lambda>sid s. c - timeout * 1000000000 \<le> sess_lastActivity s) (app_sessions (lp_app lp))"
    and set: "ws_running (app_ws (lp_app lp))" "ws_timeout (app_ws (lp_app lp)) = timeout"
    using assms(2) unfolding on_time_def Let_def settings_def by auto
  have "map_wf (app_sessions (lp_app lp))" using c by (simp add: all_sessions_def)
  then have swept: "all_sessions (\<lambda>sid s. app_steady (lp_app lp) - timeout * 1000000000 \<le> sess_lastActivity s)
      (app_sessions (timeouts_checked (lp_app lp)))"
    using swept_sessions [OF set(1)] set(2) assms(3) by simp
  note same = settings_timeouts [of "lp_app lp"]
  show ?thesis
    using checks assms(2,5) swept set same
    by (auto simp: on_time_def timeout_fired_def scheduleTimeoutCheck_def check_interval_def settings_def Let_def)
qed

lemma on_time_runs:
  assumes "loop_runs L board fs path http late lp lp'" "on_time timeout beat late lp" "0 < timeout" "0 \<le> beat" "0 \<le> late"
  shows "on_time timeout beat late lp'"
  using assms(1,2) by (induction rule: loop_runs.induct) (auto intro: on_time_step [OF _ _ assms(3-5)])

text \<open>C29: Between two calls of its timers the library may be \<open>late\<close>.  In every run of the loop a session that
  nothing was heard of is gone after the timeout and one interval of the check (ninety seconds as the
  server is configured), and both timers are armed, for a time that is not further away than their
  interval.\<close>

theorem silent_session_bound:
  assumes "loop_runs L board fs path http late (loop_run True (loop_new app)) lp" "0 \<le> late"
    "ws_running (app_ws app)" "app_sessions app = []" "0 < ws_timeout (app_ws app)" "0 \<le> ws_heartbeatInterval (app_ws app)"
  shows "(\<forall>sid s. map_get (app_sessions (lp_app lp)) sid = Some s \<longrightarrow>
      app_steady (lp_app lp) - sess_lastActivity s
        \<le> (ws_timeout (app_ws app) + check_interval (app_ws app)) * 1000000000 + late) \<and>
    (\<exists>t. timeoutTimer lp = Some t \<and> app_steady (lp_app lp) \<le> t + late \<and>
       t \<le> app_steady (lp_app lp) + check_interval (app_ws app) * 1000000000) \<and>
    (\<exists>t. heartbeatTimer lp = Some t \<and> app_steady (lp_app lp) \<le> t + late \<and>
       t \<le> app_steady (lp_app lp) + ws_heartbeatInterval (app_ws app) * 1000000000)"
proof -
  let ?T = "ws_timeout (app_ws app)" and ?H = "ws_heartbeatInterval (app_ws app)"
  have "on_time ?T ?H late (loop_run True (loop_new app))"
    using assms(2-6)
    by (auto simp: on_time_def loop_run_def loop_new_def scheduleTimeoutCheck_def scheduleHeartbeat_def check_interval_def
        settings_def Let_def all_sessions_def map_wf_def map_get_def)
  from on_time_runs [OF assms(1) this assms(5,6,2)] have "on_time ?T ?H late lp" .
  then show ?thesis
    unfolding on_time_def check_interval_def Let_def all_sessions_def by (fastforce simp: algebra_simps)
qed

text \<open>The bound is met but for a nanosecond: a session opened one nanosecond after the start is still
  registered after ninety seconds.\<close>

definition tick :: "int \<Rightarrow> Loop \<Rightarrow> Loop" where
  "tick s lp = lp\<lparr>lp_app := (lp_app lp)\<lparr>app_steady := s, app_wall := 0, app_junk := 0\<rparr>\<rparr>"

definition new_loop :: Loop where
  "new_loop = tick 1 (loop_run True (loop_new (app_new 100 True 0 0 0 [] [])))"

definition open_loop :: Loop where
  "open_loop =
     (let (sid, r) = generateSessionId []; app = lp_app new_loop
      in new_loop\<lparr>lp_app := app\<lparr>app_rng := r, app_ws := (app_ws app)\<lparr>
           ws_sessions := [(sid, \<lparr>sess_sessionId = sid, sess_playerId = '''', sess_gameId = '''', sess_lastActivity = 1,
              sess_ipAddress = ''10.0.0.1'', sess_metadata = [], sess_authenticated = False\<rparr>)],
           hdl_to_session := [(7, sid)], session_to_hdl := [(sid, 7)]\<rparr>\<rparr>\<rparr>)"

definition beat_loop :: "int \<Rightarrow> Loop \<Rightarrow> Loop" where
  "beat_loop s lp = heartbeat_fired (timeout_fired (tick s lp))"

definition late_loop :: Loop where
  "late_loop = tick 90000000000 (beat_loop 60000000000 (beat_loop 30000000000 open_loop))"

lemma open_loop_app: "connection_opened 7 ''10.0.0.1'' (lp_app new_loop) = Some (lp_app open_loop)"
proof -
  have "fresh_session_id [] [] = Some (generateSessionId [])"
    by (subst fresh_session_id.simps) (simp add: split_beta map_get_def)
  moreover have "fst (generateSessionId []) \<noteq> ''''" by code_simp
  ultimately show ?thesis
    by (simp add: connection_opened_def on_open_def createSession_def open_loop_def new_loop_def tick_def loop_run_def loop_new_def
      scheduleHeartbeat_def scheduleTimeoutCheck_def app_new_def ws_start_def ws_new_def split_beta Let_def)
qed

text \<open>The registry with that session is one the server reaches.\<close>

theorem registry_in_order_witness:
  "map fst (app_sessions (lp_app open_loop)) = [fst (generateSessionId [])] \<and> sessions_ok (app_sessions (lp_app open_loop)) \<and>
     list_all (\<lambda>(sid, s). sess_lastActivity s \<le> 1) (app_sessions (lp_app open_loop))"
proof -
  let ?L = "\<lparr>lib_parse = \<lambda>s. None, lib_dump = \<lambda>j. ''''\<rparr>"
  have new: "lp_app new_loop = app_new 100 True 1 0 0 [] []"
    by (simp add: new_loop_def tick_def loop_run_def loop_new_def scheduleHeartbeat_def scheduleTimeoutCheck_def
        app_new_def ws_start_def ws_new_def Let_def)
  have "server_runs ?L (\<lambda>n. []) (\<lambda>s. None) '''' (app_new 100 True 1 0 0 [] []) (lp_app open_loop)"
    using open_loop_app unfolding new by (intro server_runs.next_step [OF server_runs.none] server_step.intros)
  from registry_in_order [OF this] have "sessions_ok (app_sessions (lp_app open_loop)) \<and>
      list_all (\<lambda>(sid, s). sess_lastActivity s \<le> app_steady (lp_app open_loop)) (app_sessions (lp_app open_loop))" .
  moreover have "app_steady (lp_app open_loop) = 1" "map fst (app_sessions (lp_app open_loop)) = [fst (generateSessionId [])]"
    by code_simp+
  ultimately show ?thesis by simp
qed

lemma tick_runs:
  assumes "loop_runs L board fs path http late lp0 lp" "app_steady (lp_app lp) \<le> s"
    "heartbeatTimer lp = Some t" "timeoutTimer lp = Some t" "s \<le> t + late"
  shows "loop_runs L board fs path http late lp0 (tick s lp)"
  unfolding tick_def using assms by (intro loop_runs.goes_on [OF assms(1)] loop_step.passes) simp_all

lemma timeout_fired_keeps:
  "heartbeatTimer (timeout_fired lp) = heartbeatTimer lp" "app_steady (lp_app (timeout_fired lp)) = app_steady (lp_app lp)"
  using settings_timeouts [of "lp_app lp"]
  by (simp_all add: timeout_fired_def scheduleTimeoutCheck_def Let_def) (simp add: settings_def)

lemma beat_runs:
  assumes "loop_runs L board fs path http 0 lp0 lp" "app_steady (lp_app lp) \<le> s"
    "heartbeatTimer lp = Some s" "timeoutTimer lp = Some s"
  shows "loop_runs L board fs path http 0 lp0 (beat_loop s lp)"
proof -
  let ?lp1 = "timeout_fired (tick s lp)"
  have "loop_runs L board fs path http 0 lp0 (tick s lp)" using tick_runs [OF assms] by simp
  then have "loop_runs L board fs path http 0 lp0 ?lp1"
    by (rule loop_runs.goes_on [OF _ loop_step.checks [where t = s]]) (use assms(4) in \<open>simp_all add: tick_def\<close>)
  moreover have "heartbeatTimer ?lp1 = Some s" "s \<le> app_steady (lp_app ?lp1)"
    using assms(3) by (simp_all add: timeout_fired_keeps) (simp_all add: tick_def)
  ultimately show ?thesis unfolding beat_loop_def by (rule loop_runs.goes_on [OF _ loop_step.beats])
qed

lemma late_loop_runs:
  "loop_runs L board fs path http 0 (loop_run True (loop_new (app_new 100 True 0 0 0 [] []))) late_loop"
proof -
  have timers: "list_all (\<lambda>(lp, t). timeoutTimer lp = Some t \<and> heartbeatTimer lp = Some t \<and> app_steady (lp_app lp) \<le> t)
      [(loop_run True (loop_new (app_new 100 True 0 0 0 [] [])), 30000000000), (open_loop, 30000000000),
       (beat_loop 30000000000 open_loop, 60000000000), (beat_loop 60000000000 (beat_loop 30000000000 open_loop), 90000000000)]"
    by code_simp
  have serving: "lp_serving new_loop" by code_simp
  have "loop_runs L board fs path http 0 (loop_run True (loop_new (app_new 100 True 0 0 0 [] []))) new_loop"
    unfolding new_loop_def by (rule tick_runs [OF loop_runs.begins, where t = 30000000000]) (use timers in \<open>simp_all add: loop_run_def loop_new_def
      scheduleHeartbeat_def scheduleTimeoutCheck_def app_new_def ws_start_def ws_new_def Let_def check_interval_def\<close>)
  then have "loop_runs L board fs path http 0 (loop_run True (loop_new (app_new 100 True 0 0 0 [] []))) (new_loop\<lparr>lp_app := lp_app open_loop\<rparr>)"
    by (rule loop_runs.goes_on [OF _ loop_step.client [OF client_step.opens [OF serving open_loop_app]]])
  moreover have "new_loop\<lparr>lp_app := lp_app open_loop\<rparr> = open_loop" by (simp add: open_loop_def split_beta Let_def)
  ultimately show ?thesis
    unfolding late_loop_def using timers by (intro tick_runs [where t = 90000000000] beat_runs) simp_all
qed

theorem silent_session_bound_witness:
  "\<exists>lp sid s. loop_runs \<lparr>lib_parse = \<lambda>s. None, lib_dump = \<lambda>j. ''''\<rparr> (\<lambda>n. []) (\<lambda>s. None) '''' False 0
     (loop_run True (loop_new (app_new 100 True 0 0 0 [] []))) lp \<and>
     map_get (app_sessions (lp_app lp)) sid = Some s \<and>
     app_steady (lp_app lp) - sess_lastActivity s \<in> {89999999999 .. 90000000000}"
proof -
  let ?app = "app_new 100 True 0 0 0 [] []" and ?sid = "fst (generateSessionId [])"
  have "map_get (app_sessions (lp_app late_loop)) ?sid \<noteq> None \<and>
      map_option sess_lastActivity (map_get (app_sessions (lp_app late_loop)) ?sid) = Some 1 \<and>
      app_steady (lp_app late_loop) = 90000000000" by code_simp
  then obtain s where s: "map_get (app_sessions (lp_app late_loop)) ?sid = Some s" "sess_lastActivity s = 1"
    "app_steady (lp_app late_loop) = 90000000000" by auto
  have "ws_running (app_ws ?app)" "app_sessions ?app = []" "ws_timeout (app_ws ?app) = 60" "ws_heartbeatInterval (app_ws ?app) = 30"
    by (simp_all add: app_new_def ws_start_def ws_new_def)
  then have "app_steady (lp_app late_loop) - sess_lastActivity s \<le> 90000000000"
    using silent_session_bound [OF late_loop_runs] s(1) by (fastforce simp: check_interval_def)
  then show ?thesis using late_loop_runs s by (intro exI [of _ late_loop] exI [of _ ?sid] exI [of _ s]) simp
qed

end
