(* ===== verification/Whot_Run.thy ===== *)
theory Whot_Run
  imports Whot_Timers Whot_Startup
begin

text \<open>
  \<open>main\<close> from its arguments to its exit code: the log, the start of the application, the two servers,
  and the end.  What the program finds around it is an argument: the environment variable, the log file,
  the sockets, the times and the generators.
\<close>

section \<open>The listening socket of the HTTP server\<close>

text \<open>\<open>http_thread\<close>: there is a thread to join, the one that loops over \<open>accept\<close>.\<close>

record HttpListener =
  listenFd :: int
  http_running :: bool
  http_thread :: bool

definition listener_new :: HttpListener where
  "listener_new = \<lparr>listenFd = - 1, http_running = False, http_thread = False\<rparr>"

text \<open>What \<open>socket\<close>, \<open>bind\<close> and \<open>listen\<close> answer.\<close>

record Sockets =
  sock_fd :: int
  sock_bind :: int
  sock_listen :: int

definition http_start :: "Sockets \<Rightarrow> HttpListener \<Rightarrow> HttpListener" where
  "http_start so hl =
     (if http_running hl then hl
      else let hl1 = hl\<lparr>listenFd := sock_fd so\<rparr>
           in if listenFd hl1 < 0 then hl1
              else if sock_bind so < 0 then hl1\<lparr>listenFd := - 1\<rparr>
              else if sock_listen so < 0 then hl1\<lparr>listenFd := - 1\<rparr>
              else hl1\<lparr>http_running := True, http_thread := True\<rparr>)"

text \<open>\<open>stop\<close> clears the flag, closes the socket and joins the thread.  Closing a socket does not wake a thread that
  waits in \<open>accept\<close> on it (on Linux it goes on waiting until some client connects), and the thread looks at
  the flag only between two calls.  \<open>wakes\<close> is what the system does: whether that \<open>accept\<close> returns after
  the socket is closed.  The result tells whether \<open>stop\<close> returns.\<close>

definition http_stop :: "bool \<Rightarrow> HttpListener \<Rightarrow> bool \<times> HttpListener" where
  "http_stop wakes hl =
     (let hl1 = hl\<lparr>http_running := False\<rparr>;
          hl2 = (if listenFd hl1 \<ge> 0 then hl1\<lparr>listenFd := - 1\<rparr> else hl1)
      in if http_thread hl2 then (if wakes then (True, hl2\<lparr>http_thread := False\<rparr>) else (False, hl2))
         else (True, hl2))"

section \<open>The program\<close>

record Surroundings =
  env_program :: string
  env_dbPath :: "string option"
  env_dbConfig :: DatabaseConfig
  env_opens :: "string \<Rightarrow> bool"
  env_stamp :: "string \<Rightarrow> string"
  env_error :: string
  env_listens :: bool
  env_sockets :: Sockets
  env_wakes :: bool
  env_steady :: int
  env_wall :: nat
  env_junk :: nat
  env_rng :: rng
  env_seeds :: "rng list"
  env_loadSeeds :: "rng list"

text \<open>\<open>env_program\<close>: the name of the program; \<open>env_dbConfig\<close>: the members of the configuration that have no initial value; \<open>env_stamp\<close>: the time at
  which a line is logged; \<open>env_error\<close>: the text of the exception; \<open>env_listens\<close>: whether the WebSocket
  port is free; \<open>env_wakes\<close>: whether the system wakes an \<open>accept\<close> whose socket is closed.\<close>

record 'h Program =
  pr_loop :: Loop
  pr_http :: HttpListener
  pr_db :: "'h SQLiteDatabase option"
  pr_log :: Logger

text \<open>An exception that nobody catches; the exit code, with what was written to \<open>std::cout\<close> and the log, and to
  \<open>std::cerr\<close>; or the program waits for its end.\<close>

datatype 'h Main = Aborted | Returned int Logger "string list" | Serving "'h Program"

definition start_lines :: "ApplicationConfig \<Rightarrow> string list" where
  "start_lines cfg =
     [''Starting Whot Card Game Server'',
      ''WebSocket Port: '' @ nat_to_string (unat (cfg_websocketPort cfg)),
      ''HTTP Port: '' @ nat_to_string (unat (cfg_httpPort cfg))]"

definition help_lines :: "string \<Rightarrow> string list" where
  "help_lines program =
     [''Whot Card Game Server'', '''', ''Usage: '' @ program @ '' [options]'', '''', ''Options:'',
      ''  --ws-port PORT       WebSocket port (default: 8080)'',
      ''  --http-port PORT     HTTP port (default: 8081)'',
      ''  --static-path PATH   Static files path (default: ./web)'',
      ''  --log-file PATH      Log file path (default: ./logs/whot.log)'',
      ''  --db-path PATH       SQLite DB file path (default: ./whot.db or $WHOT_DB_PATH)'',
      ''  --no-ai              Disable AI players'',
      ''  --help, -h           Show this help message'']"

definition banner :: "ApplicationConfig \<Rightarrow> string list" where
  "banner cfg =
     ['''', ''================================='', ''  Whot Card Game Server Ready'', ''================================='',
      ''WebSocket: ws://localhost:'' @ nat_to_string (unat (cfg_websocketPort cfg)) @ '' (use this port for WS, not HTTP)'',
      ''HTTP:      http://localhost:'' @ nat_to_string (unat (cfg_httpPort cfg)),
      ''Static:    '' @ cfg_staticFilesPath cfg, '''', ''Press Ctrl+C once to stop the server'',
      ''================================='', '''']"

text \<open>Lines written to \<open>std::cout\<close>, where the log writes its lines as well.\<close>

definition print_lines :: "string list \<Rightarrow> Logger \<Rightarrow> Logger" where
  "print_lines lines lg = lg\<lparr>log_console := log_console lg @ lines\<rparr>"

definition main_info :: "Surroundings \<Rightarrow> string \<Rightarrow> Logger \<Rightarrow> Logger" where
  "main_info E line = log_info (env_stamp E line) line"

text \<open>\<open>main\<close> up to where it waits: the options, the log, \<open>initialize\<close> and the start of both servers.\<close>

definition main_begin :: "('h, 's) Sqlite \<Rightarrow> JsonLib \<Rightarrow> Surroundings \<Rightarrow> string list \<Rightarrow> 'h Main" where
  "main_begin Q L E args =
     (case main_config (env_dbPath E) args (application_config (env_dbConfig E)) of
        None \<Rightarrow> Aborted
      | Some Help \<Rightarrow> Returned 0 (print_lines (help_lines (env_program E)) logger_new) []
      | Some (Run cfg path) \<Rightarrow>
          let lg = fold (main_info E) (start_lines cfg) (setup_logger (env_opens E) cfg logger_new)
          in case server_start Q L cfg (env_steady E) (env_wall E) (env_junk E) (env_rng E) (env_seeds E) (env_loadSeeds E) of
               None \<Rightarrow>
                 let line = ''Fatal error: '' @ env_error E
                 in Returned 1 (log_critical (env_stamp E line) line lg) [line]
             | Some sv \<Rightarrow>
                 Serving \<lparr>pr_loop = loop_run (env_listens E) (loop_new (sv_app sv)),
                   pr_http = http_start (env_sockets E) listener_new, pr_db = sv_db sv,
                   pr_log = print_lines (banner cfg) (main_info E ''Server initialized successfully'' lg)\<rparr>)"

text \<open>\<open>shutdown\<close>, once the signal handler has set its flag: whether it returns, and the state it leaves or stays in.\<close>

definition program_shutdown :: "bool \<Rightarrow> 'h Program \<Rightarrow> bool \<times> 'h Program" where
  "program_shutdown wakes pr =
     (let pr1 = (if ws_running (app_ws (lp_app (pr_loop pr))) then pr\<lparr>pr_loop := loop_stop (pr_loop pr)\<rparr> else pr);
          (returns, hl) = (if http_running (pr_http pr1) then http_stop wakes (pr_http pr1) else (True, pr_http pr1));
          pr2 = pr1\<lparr>pr_http := hl\<rparr>
      in if \<not> returns then (False, pr2)
         else (True, pr2\<lparr>pr_db := map_option (\<lambda>db. if sq_isConnected db then sq_disconnect db else db) (pr_db pr2)\<rparr>))"

text \<open>The exit code, \<open>None\<close> when the program never exits.\<close>

definition main_end :: "Surroundings \<Rightarrow> 'h Program \<Rightarrow> int option \<times> 'h Program" where
  "main_end E pr =
     (case program_shutdown (env_wakes E) pr of
        (False, pr1) \<Rightarrow> (None, pr1)
      | (True, pr1) \<Rightarrow> (Some 0, pr1\<lparr>pr_log := main_info E ''Server shut down successfully'' (pr_log pr1)\<rparr>))"

text \<open>What happens between the two: the steps of the loop, and requests while the HTTP server runs.\<close>

definition served ::
    "JsonLib \<Rightarrow> (int \<Rightarrow> PlayerStats list) \<Rightarrow> (string \<Rightarrow> string option) \<Rightarrow> string \<Rightarrow> int \<Rightarrow> 'h Program \<Rightarrow> 'h Program \<Rightarrow> bool" where
  "served L board fs path late pr pr' \<longleftrightarrow>
     (\<exists>lp. loop_runs L board fs path (http_running (pr_http pr)) late (pr_loop pr) lp \<and> pr' = pr\<lparr>pr_loop := lp\<rparr>)"

section \<open>The lines it logs\<close>

lemma main_info_console:
  assumes "log_minLevel lg = LOG_INFO" "log_consoleOutput lg"
  shows "log_console (main_info E line lg) = log_console lg @ [formatMessage (env_stamp E line) LOG_INFO line lg] \<and>
    log_minLevel (main_info E line lg) = LOG_INFO \<and> log_consoleOutput (main_info E line lg) \<and>
    log_includeTimestamp (main_info E line lg) = log_includeTimestamp lg \<and>
    log_includeLevel (main_info E line lg) = log_includeLevel lg"
  using assms by (simp add: main_info_def log_info_def log_message_def Let_def split: option.split)

text \<open>A line as it stands in the log.\<close>

definition info_line :: "Surroundings \<Rightarrow> string \<Rightarrow> string" where
  "info_line E line = ''['' @ env_stamp E line @ ''] [INFO] '' @ line"

definition plain_log :: "Logger \<Rightarrow> bool" where
  "plain_log lg \<longleftrightarrow> log_minLevel lg = LOG_INFO \<and> log_consoleOutput lg \<and> log_includeTimestamp lg \<and> log_includeLevel lg"

lemma main_info_line:
  "plain_log lg \<Longrightarrow> plain_log (main_info E line lg) \<and> log_console (main_info E line lg) = log_console lg @ [info_line E line]"
  using main_info_console [of lg E line] by (simp add: plain_log_def info_line_def formatMessage_def)

lemma main_info_lines:
  "plain_log lg \<Longrightarrow> plain_log (fold (main_info E) lines lg) \<and>
     log_console (fold (main_info E) lines lg) = log_console lg @ map (info_line E) lines"
  by (induction lines arbitrary: lg) (simp_all add: main_info_line)

lemma setup_logger_plain: "plain_log (setup_logger opens cfg logger_new) \<and> log_console (setup_logger opens cfg logger_new) = []"
  by (simp add: setup_logger_def plain_log_def logger_new_def setLogFile_def setLogLevel_def enableConsoleOutput_def
      enableFileOutput_def)

section \<open>Runs of the loop\<close>

text \<open>The settings of a running loop stay, but for the time.\<close>

lemma loop_step_settings:
  assumes "loop_step L board fs path http late lp lp'"
  shows "ws_running (app_ws (lp_app lp')) = ws_running (app_ws (lp_app lp)) \<and> lp_serving lp' = lp_serving lp"
  using assms
proof (cases rule: loop_step.cases)
  case (client app)
  then show ?thesis using settings_client_step [OF client(2)] by (simp add: settings_def)
next
  case (checks t)
  then show ?thesis
    using settings_timeouts [of "lp_app lp"]
    by (simp add: timeout_fired_def scheduleTimeoutCheck_def settings_def Let_def)
qed (simp_all add: heartbeat_fired_def scheduleHeartbeat_def Let_def)

lemma loop_runs_settings:
  assumes "loop_runs L board fs path http late lp lp'"
  shows "ws_running (app_ws (lp_app lp')) = ws_running (app_ws (lp_app lp)) \<and> lp_serving lp' = lp_serving lp"
  using assms by (induction rule: loop_runs.induct) (auto dest: loop_step_settings)

text \<open>With neither port nothing but the time changes.\<close>

lemma deaf_step:
  assumes "loop_step L board fs path False late lp lp'" "\<not> lp_serving lp" "timeoutTimer lp = None" "heartbeatTimer lp = None"
  shows "\<exists>s w j. lp' = lp\<lparr>lp_app := (lp_app lp)\<lparr>app_steady := s, app_wall := w, app_junk := j\<rparr>\<rparr>"
  using assms(1)
proof (cases rule: loop_step.cases)
  case (client app)
  from client(2) have False using assms(2) by (cases rule: client_step.cases) simp_all
  then show ?thesis ..
next
  case (passes s w j)
  then show ?thesis by blast
qed (use assms(3,4) in simp_all)

lemma deaf_runs:
  assumes "loop_runs L board fs path False late lp lp'" "\<not> lp_serving lp" "timeoutTimer lp = None" "heartbeatTimer lp = None"
  shows "\<exists>s w j. lp' = lp\<lparr>lp_app := (lp_app lp)\<lparr>app_steady := s, app_wall := w, app_junk := j\<rparr>\<rparr>"
  using assms
proof (induction rule: loop_runs.induct)
  case (begins lp)
  then show ?case
    by (intro exI [of _ "app_steady (lp_app lp)"] exI [of _ "app_wall (lp_app lp)"] exI [of _ "app_junk (lp_app lp)"]) simp
next
  case (goes_on lp lp1 lp2)
  then obtain s w j where lp1: "lp1 = lp\<lparr>lp_app := (lp_app lp)\<lparr>app_steady := s, app_wall := w, app_junk := j\<rparr>\<rparr>" by blast
  then show ?case using deaf_step [OF goes_on(2)] goes_on.prems by auto
qed

section \<open>From the first line to the last\<close>

lemma main_begin_serves:
  assumes "main_config (env_dbPath E) args (application_config (env_dbConfig E)) = Some (Run cfg path)"
    "server_start Q L cfg (env_steady E) (env_wall E) (env_junk E) (env_rng E) (env_seeds E) (env_loadSeeds E) = Some sv"
  shows "\<exists>pr. main_begin Q L E args = Serving pr \<and> pr_loop pr = loop_run (env_listens E) (loop_new (sv_app sv)) \<and>
    pr_http pr = http_start (env_sockets E) listener_new \<and> pr_db pr = sv_db sv \<and> plain_log (pr_log pr) \<and>
    log_console (pr_log pr) = map (info_line E) (start_lines cfg @ [''Server initialized successfully'']) @ banner cfg"
proof -
  let ?lg = "fold (main_info E) (start_lines cfg) (setup_logger (env_opens E) cfg logger_new)"
  have "plain_log ?lg \<and> log_console ?lg = map (info_line E) (start_lines cfg)"
    using main_info_lines [of "setup_logger (env_opens E) cfg logger_new" E "start_lines cfg"]
      setup_logger_plain [of "env_opens E" cfg] by simp
  then show ?thesis
    using assms main_info_line [of ?lg E "''Server initialized successfully''"]
    by (simp add: main_begin_def Let_def print_lines_def plain_log_def)
qed

text \<open>The HTTP server is up when the system gave it its socket.\<close>

definition http_up :: "Sockets \<Rightarrow> bool" where
  "http_up so \<longleftrightarrow> 0 \<le> sock_fd so \<and> 0 \<le> sock_bind so \<and> 0 \<le> sock_listen so"

lemma http_start_up:
  "http_running (http_start so listener_new) = http_up so" "http_thread (http_start so listener_new) = http_up so"
  "http_up so \<Longrightarrow> 0 \<le> listenFd (http_start so listener_new)" "\<not> http_up so \<Longrightarrow> listenFd (http_start so listener_new) < 0"
  by (auto simp: http_start_def listener_new_def http_up_def Let_def)

text \<open>What the signal leaves of the two servers.\<close>

definition servers_down :: "'h Program \<Rightarrow> 'h Program \<Rightarrow> bool" where
  "servers_down before down \<longleftrightarrow>
     timeoutTimer (pr_loop down) = None \<and> heartbeatTimer (pr_loop down) = None \<and> \<not> lp_serving (pr_loop down) \<and>
     hdl_to_session (app_ws (lp_app (pr_loop down))) = [] \<and>
     fst ` set (hdl_to_session (app_ws (lp_app (pr_loop before)))) \<subseteq> set (ws_closing (app_ws (lp_app (pr_loop down)))) \<and>
     \<not> http_running (pr_http down) \<and> listenFd (pr_http down) < 0"

lemma shutdown_closes:
  assumes "served L board fs path late pr pr'" "ws_running (app_ws (lp_app (pr_loop pr)))"
    "pr_http pr = http_start so listener_new"
  shows "let (returns, down) = program_shutdown wakes pr'
    in servers_down pr' down \<and> pr_log down = pr_log pr \<and> returns = (http_up so \<longrightarrow> wakes) \<and>
       pr_db down = (if returns then map_option (\<lambda>db. if sq_isConnected db then sq_disconnect db else db) (pr_db pr) else pr_db pr)"
proof -
  obtain lp where lp: "loop_runs L board fs path (http_running (pr_http pr)) late (pr_loop pr) lp" "pr' = pr\<lparr>pr_loop := lp\<rparr>"
    using assms(1) by (auto simp: served_def)
  have run: "ws_running (app_ws (lp_app lp))" using loop_runs_settings [OF lp(1)] assms(2) by simp
  show ?thesis
  proof (cases "http_up so")
    case True
    then show ?thesis
      using run http_start_up(3) [OF True]
      by (auto simp: lp(2) assms(3) program_shutdown_def loop_stop_def http_stop_def ws_stop_def Let_def servers_down_def
          http_start_up)
  next
    case False
    then show ?thesis
      using run http_start_up(4) [OF False]
      by (auto simp: lp(2) assms(3) program_shutdown_def loop_stop_def ws_stop_def Let_def servers_down_def http_start_up)
  qed
qed

lemma deaf_serves_nobody:
  assumes "served L board fs path late pr pr'" "\<not> http_running (pr_http pr)" "pr_loop pr = loop_new app"
    "hdl_to_session (app_ws app) = []"
  shows "app_store (lp_app (pr_loop pr')) = app_store app \<and> hdl_to_session (app_ws (lp_app (pr_loop pr'))) = [] \<and>
    activeGames (lp_app (pr_loop pr')) = activeGames app"
proof -
  obtain lp where lp: "loop_runs L board fs path False late (loop_new app) lp" "pr' = pr\<lparr>pr_loop := lp\<rparr>"
    using assms(1-3) by (auto simp: served_def)
  from deaf_runs [OF lp(1)] obtain s w j where
    "lp = loop_new app\<lparr>lp_app := app\<lparr>app_steady := s, app_wall := w, app_junk := j\<rparr>\<rparr>"
    by (auto simp: loop_new_def)
  then show ?thesis using lp(2) assms(4) by (simp add: loop_new_def)
qed

text \<open>C30: Over a database it can read, the program starts whatever its ports and writes exactly these lines.  In
  every run the signal leaves no timer armed, every connection closed and neither server listening.  Then, if
  the HTTP server did not come up, or the system wakes its thread, the database is closed, a last line is
  written and the exit code is 0.  Otherwise the program hangs in the join of that thread: it never
  exits, the database stays open and the last line is not written.  When both ports are taken the program
  says that it is ready and serves nobody: nothing is saved, no connection is made and no game changes.\<close>

theorem main_serves:
  assumes "main_config (env_dbPath E) args (application_config (env_dbConfig E)) = Some (Run cfg path)"
    "setupDatabase Q (cfg_dbConfig cfg) = (Some d, True)" "game_table (sqlite_database Q) T"
    "all_written (lib_parse L) (T d)"
  shows "\<exists>pr. main_begin Q L E args = Serving pr \<and>
    (\<forall>board fs late pr'. served L board fs (cfg_staticFilesPath cfg) late pr pr' \<longrightarrow>
       (let (code, down) = main_end E pr';
            lines = map (info_line E) (start_lines cfg @ [''Server initialized successfully'']) @ banner cfg
        in servers_down pr' down \<and>
           (if http_up (env_sockets E) \<and> \<not> env_wakes E
            then code = None \<and> map_option sq_isConnected (pr_db down) = Some True \<and> log_console (pr_log down) = lines
            else code = Some 0 \<and> map_option sq_isConnected (pr_db down) = Some False \<and>
              log_console (pr_log down) = lines @ [info_line E ''Server shut down successfully''])) \<and>
       (\<not> env_listens E \<and> \<not> http_up (env_sockets E) \<longrightarrow>
           app_store (lp_app (pr_loop pr')) = [] \<and> hdl_to_session (app_ws (lp_app (pr_loop pr'))) = [] \<and>
           activeGames (lp_app (pr_loop pr')) = activeGames (lp_app (pr_loop pr))))"
proof -
  obtain sv where sv: "server_start Q L cfg (env_steady E) (env_wall E) (env_junk E) (env_rng E) (env_seeds E) (env_loadSeeds E)
      = Some sv" "sv_db sv = Some d" "db_isConnected (sqlite_database Q) d" "app_store (sv_app sv) = []"
    "app_ws (sv_app sv) = ws_start ws_new"
    using server_start_over [OF assms(2-4), of "env_steady E" "env_wall E" "env_junk E" "env_rng E" "env_seeds E" "env_loadSeeds E"]
    by (auto simp: app_new_def)
  obtain pr where pr: "main_begin Q L E args = Serving pr" "pr_loop pr = loop_run (env_listens E) (loop_new (sv_app sv))"
    "pr_http pr = http_start (env_sockets E) listener_new" "pr_db pr = sv_db sv" "plain_log (pr_log pr)"
    "log_console (pr_log pr) = map (info_line E) (start_lines cfg @ [''Server initialized successfully'']) @ banner cfg"
    using main_begin_serves [OF assms(1) sv(1)] by blast
  have app: "lp_app (pr_loop pr) = sv_app sv"
    by (simp add: pr(2) loop_run_def loop_new_def scheduleTimeoutCheck_def scheduleHeartbeat_def Let_def)
  have running: "ws_running (app_ws (lp_app (pr_loop pr)))" by (simp add: app sv(5) ws_start_def ws_new_def)
  have connected: "sq_isConnected d" using sv(3) by (simp add: sqlite_database_def)
  have closed: "\<not> sq_isConnected (sq_disconnect d)" by (simp add: sq_isConnected_def sq_disconnect_def)
  note last = main_info_line [OF pr(5), of E "''Server shut down successfully''"]
  have ends: "let (code, down) = main_end E pr';
        lines = map (info_line E) (start_lines cfg @ [''Server initialized successfully'']) @ banner cfg
      in servers_down pr' down \<and>
        (if http_up (env_sockets E) \<and> \<not> env_wakes E
         then code = None \<and> map_option sq_isConnected (pr_db down) = Some True \<and> log_console (pr_log down) = lines
         else code = Some 0 \<and> map_option sq_isConnected (pr_db down) = Some False \<and>
           log_console (pr_log down) = lines @ [info_line E ''Server shut down successfully''])"
    if "served L board fs (cfg_staticFilesPath cfg) late pr pr'" for board fs late pr'
  proof -
    obtain returns down where s: "program_shutdown (env_wakes E) pr' = (returns, down)"
      by (cases "program_shutdown (env_wakes E) pr'")
    note c = shutdown_closes [OF that running pr(3), of "env_wakes E", unfolded s Let_def prod.case]
    have "servers_down pr' (down\<lparr>pr_log := lg\<rparr>) = servers_down pr' down" for lg by (simp add: servers_down_def)
    moreover have "main_end E pr' = (if returns
        then (Some 0, down\<lparr>pr_log := main_info E ''Server shut down successfully'' (pr_log down)\<rparr>) else (None, down))"
      by (simp add: main_end_def s)
    ultimately show ?thesis
      using c connected closed last pr(4,6) sv(2) by (cases returns) auto
  qed
  have deaf: "app_store (lp_app (pr_loop pr')) = [] \<and> hdl_to_session (app_ws (lp_app (pr_loop pr'))) = [] \<and>
      activeGames (lp_app (pr_loop pr')) = activeGames (lp_app (pr_loop pr))"
    if s: "served L board fs (cfg_staticFilesPath cfg) late pr pr'" and ports: "\<not> env_listens E" "\<not> http_up (env_sockets E)"
      for board fs late pr'
  proof -
    have "pr_loop pr = loop_new (sv_app sv)" using ports(1) by (simp add: pr(2) loop_run_def)
    moreover have "\<not> http_running (pr_http pr)" using ports(2) by (simp add: pr(3) http_start_up)
    ultimately show ?thesis using deaf_serves_nobody [OF s] sv(4,5) app by (simp add: ws_start_def ws_new_def)
  qed
  show ?thesis
    by (intro exI [of _ pr] conjI allI impI pr(1) ends deaf) simp_all
qed

text \<open>A start without arguments where the port of the WebSockets is taken and the HTTP server is up: the program
  starts, and the signal does not end it.\<close>

definition one_port :: Surroundings where
  "one_port = \<lparr>env_program = ''whot'', env_dbPath = None, env_dbConfig = cfg_dbConfig file_config, env_opens = \<lambda>f. True,
     env_stamp = \<lambda>line. ''2026-01-01 12:00:00'', env_error = '''', env_listens = False,
     env_sockets = \<lparr>sock_fd = 3, sock_bind = 0, sock_listen = 0\<rparr>, env_wakes = False, env_steady = 0, env_wall = 0,
     env_junk = 0, env_rng = [], env_seeds = [], env_loadSeeds = []\<rparr>"

theorem main_serves_witness:
  "\<exists>pr. main_begin (small_sqlite []) \<lparr>lib_parse = \<lambda>s. None, lib_dump = \<lambda>j. ''''\<rparr> one_port [] = Serving pr \<and>
     http_running (pr_http pr) \<and> fst (main_end one_port pr) = None \<and>
     length (log_console (pr_log (snd (main_end one_port pr)))) = 15 \<and>
     fst (main_end (one_port\<lparr>env_wakes := True\<rparr>) pr) = Some 0"
proof -
  let ?L = "\<lparr>lib_parse = \<lambda>s. None, lib_dump = \<lambda>j. ''''\<rparr>"
  let ?cfg = "final_config (application_config (env_dbConfig one_port)) ''./whot.db''"
  have cfg: "main_config (env_dbPath one_port) [] (application_config (env_dbConfig one_port)) = Some (Run ?cfg ''./whot.db'')"
    by (simp add: main_config_def one_port_def initial_db_path_def)
  have "dbc_type (cfg_dbConfig ?cfg) = SQLITE" "dbc_filepath (cfg_dbConfig ?cfg) \<noteq> ''''" by (simp_all add: final_config_def)
  note db = small_opens_any [OF this, of "[]"]
  have "all_written (lib_parse ?L) (small_table \<lparr>sq_config = cfg_dbConfig ?cfg, sq_db = Some []\<rparr>)"
    by (simp add: all_written_def small_table_def)
  from main_serves [OF cfg db small_game_table this] obtain pr where
    pr: "main_begin (small_sqlite []) ?L one_port [] = Serving pr"
    "\<And>board fs late pr'. served ?L board fs (cfg_staticFilesPath ?cfg) late pr pr' \<Longrightarrow>
       (let (code, down) = main_end one_port pr';
            lines = map (info_line one_port) (start_lines ?cfg @ [''Server initialized successfully'']) @ banner ?cfg
        in servers_down pr' down \<and>
           (if http_up (env_sockets one_port) \<and> \<not> env_wakes one_port
            then code = None \<and> map_option sq_isConnected (pr_db down) = Some True \<and> log_console (pr_log down) = lines
            else code = Some 0 \<and> map_option sq_isConnected (pr_db down) = Some False \<and>
              log_console (pr_log down) = lines @ [info_line one_port ''Server shut down successfully'']))"
    by blast
  have "served ?L (\<lambda>n. []) (\<lambda>s. None) (cfg_staticFilesPath ?cfg) 0 pr pr"
    unfolding served_def by (intro exI [of _ "pr_loop pr"]) (simp add: loop_runs.begins)
  from pr(2) [OF this] have hangs: "fst (main_end one_port pr) = None"
    "length (log_console (pr_log (snd (main_end one_port pr)))) = 15"
    by (auto simp: Let_def start_lines_def banner_def one_port_def http_up_def split_beta)
  have up: "pr_http pr = http_start (env_sockets one_port) listener_new"
    using pr(1) cfg by (auto simp: main_begin_def Let_def split: option.splits)
  then have "http_running (pr_http pr)" by (simp add: http_start_up one_port_def http_up_def)
  moreover have "fst (main_end (one_port\<lparr>env_wakes := True\<rparr>) pr) = Some 0"
    using up by (auto simp: main_end_def program_shutdown_def http_stop_def Let_def split: prod.splits)
  ultimately show ?thesis using pr(1) hangs by blast
qed

end
