(* ===== verification/Whot_ApiProps.thy ===== *)
theory Whot_ApiProps
  imports Whot_HandlerProps
begin

text \<open>
  The HTTP interface from end to end: the table that a request to create a game lays.
\<close>

section \<open>The body of the request\<close>

lemma try_steps_invariant:
  "(\<And>f r r'. f \<in> set fs \<Longrightarrow> P r \<Longrightarrow> f r = Some r' \<Longrightarrow> P r') \<Longrightarrow> P r \<Longrightarrow> P (try_steps fs r)"
proof (induction fs arbitrary: r)
  case (Cons f fs)
  show ?case
  proof (cases "f r")
    case (Some r')
    have "P r'" using Cons.prems(1) [of f r r'] Cons.prems(2) Some by simp
    then have "P (try_steps fs r')" by (rule Cons.IH [rotated]) (use Cons.prems(1) in auto)
    then show ?thesis using Some by simp
  qed (use Cons.prems(2) in simp)
qed simp

lemma get_int_bounds: "get_int j = Some n \<Longrightarrow> - (2 ^ 31) \<le> n \<and> n < 2 ^ 31"
  by (cases j) (use to_int32_bounds in \<open>auto split: if_splits\<close>)

definition in_int :: "CreateRequest \<Rightarrow> bool" where
  "in_int r \<longleftrightarrow> - (2 ^ 31) \<le> maxPlayers (cr_config r) \<and> maxPlayers (cr_config r) < 2 ^ 31"

lemma create_steps_in_int: "f \<in> set (create_steps j) \<Longrightarrow> in_int r \<Longrightarrow> f r = Some r' \<Longrightarrow> in_int r'"
  using get_int_bounds by (auto simp: create_steps_def read_field_def in_int_def split: option.splits)

text \<open>The request keeps to the range of an \<open>int\<close>, and its bots leave a seat for the player.\<close>

lemma create_request_bounds:
  "in_int (create_request L body)"
  "cr_botCount (create_request L body) < maxPlayers (cr_config (create_request L body))"
proof -
  have "in_int \<lparr>cr_config = default_config, cr_botCount = 0\<rparr>" by (simp add: in_int_def default_config_def)
  then have "in_int (body_with L body create_steps \<lparr>cr_config = default_config, cr_botCount = 0\<rparr>)"
    using try_steps_invariant [of "create_steps _" in_int] create_steps_in_int
    by (simp add: body_with_def read_with_def split: option.split)
  then show "in_int (create_request L body)" by (simp add: create_request_def in_int_def Let_def)
  show "cr_botCount (create_request L body) < maxPlayers (cr_config (create_request L body))"
    by (simp add: create_request_def Let_def)
qed

section \<open>Seating the bots\<close>

lemma fold_bots_seats:
  assumes "length (players gs) + (n - j) \<le> to_size_t (maxPlayers (config gs))" "players gs \<noteq> []"
  shows "fold (\<lambda>k. addPlayer (Some (bot_player now gid k))) [j..<n] gs =
    gs\<lparr>players := players gs @ map (bot_player now gid) [j..<n]\<rparr>"
  using assms
proof (induction "n - j" arbitrary: j gs)
  case (Suc d)
  then have j: "j < n" "[j..<n] = j # [Suc j..<n]" by (simp_all add: upt_conv_Cons)
  let ?gs1 = "gs\<lparr>players := players gs @ [bot_player now gid j]\<rparr>"
  have "addPlayer (Some (bot_player now gid j)) gs = ?gs1"
    using Suc.prems j(1) by (simp add: addPlayer_def)
  moreover have "fold (\<lambda>k. addPlayer (Some (bot_player now gid k))) [Suc j..<n] ?gs1 =
      ?gs1\<lparr>players := players ?gs1 @ map (bot_player now gid) [Suc j..<n]\<rparr>"
    using Suc.prems Suc.hyps(2) j(1) by (intro Suc.hyps(1)) auto
  ultimately show ?case using j(2) by simp
qed simp

section \<open>Creating a game over HTTP\<close>

lemma to_size_t_int:
  assumes "- (2 ^ 31) \<le> n" "n < 2 ^ 31"
  shows "to_size_t n = 0 \<longleftrightarrow> n = 0" "0 \<le> n \<Longrightarrow> to_size_t n = nat n"
proof -
  have "n mod 2 ^ 64 = (if n < 0 then n + 2 ^ 64 else n)"
  proof (cases "n < 0")
    case True
    then have "(n + 2 ^ 64) mod 2 ^ 64 = n + 2 ^ 64" using assms by (intro mod_pos_pos_trivial) auto
    then show ?thesis using True by simp
  qed (use assms in simp)
  then show "to_size_t n = 0 \<longleftrightarrow> n = 0" using assms by (auto simp: to_size_t_def)
  show "0 \<le> n \<Longrightarrow> to_size_t n = nat n" using assms by (simp add: to_size_t_def)
qed

text \<open>The new table, before anybody sits down.\<close>

definition new_table :: "GameConfig \<Rightarrow> string \<Rightarrow> string \<Rightarrow> int \<Rightarrow> rng \<Rightarrow> GameState" where
  "new_table cfg gid code now seed = (state_initialize (state_new cfg gid now seed))\<lparr>gameCode := code\<rparr>"

lemma new_table_parts [simp]:
  "phase (new_table cfg gid code now seed) = LOBBY" "players (new_table cfg gid code now seed) = []"
  "config (new_table cfg gid code now seed) = cfg" "getPlayer pid (new_table cfg gid code now seed) = None"
  "getPlayerCount (new_table cfg gid code now seed) = 0"
  by (simp_all add: new_table_def state_initialize_def state_new_def getPlayer_def getPlayerCount_def)

lemma createGame_put:
  assumes "length (activeGames app) < to_size_t (maxGamesPerServer app)"
  shows "\<exists>code now seed t app1. createGame cfg app = (generateGameId app, app1) \<and>
    activeGames app1 = map_put (generateGameId app)
      (engine_new t (new_table cfg (generateGameId app) code now seed)) (activeGames app)"
  using assms
  by (auto simp: createGame_def Let_def split_beta next_seed_def new_table_def split: list.split)

lemma joinGame_first_seat:
  assumes "getGame gid app = Some eng" "phase (eng_state eng) = LOBBY" "players (eng_state eng) = []"
    "0 < to_size_t (maxPlayers (config (eng_state eng)))"
  shows "\<exists>app' p. joinGame gid pid name app = (True, app') \<and> player_id p = pid \<and> player_type p = HUMAN \<and>
    activeGames app' = map_put gid (eng\<lparr>eng_state := (eng_state eng)\<lparr>creatorPlayerId := pid, players := [p]\<rparr>\<rparr>)
      (activeGames app)"
proof -
  let ?p = "player_new (app_steady app) pid (if name = '''' then pid else name) HUMAN"
  have "player_id ?p = pid" "player_type ?p = HUMAN" by (simp_all add: player_new_def)
  then show ?thesis
    using assms
    by (auto simp: joinGame_def Let_def getPlayer_def getPlayerCount_def addPlayer_def split: option.split
        intro!: exI [of _ ?p])
qed

lemma createGame_full:
  assumes "to_size_t (maxGamesPerServer app) \<le> length (activeGames app)"
  shows "fst (createGame cfg app) = '''' \<and> activeGames (snd (createGame cfg app)) = activeGames app"
  using assms by (simp add: createGame_def Let_def split_beta)

lemma addBots_seats:
  assumes "getGame gid app = Some eng" "players (eng_state eng) = [p]" "0 < n" "n < maxPlayers (config (eng_state eng))"
    "maxPlayers (config (eng_state eng)) < 2 ^ 31"
  shows "activeGames (addBotsToGame gid n app) =
    map_put gid (eng\<lparr>eng_state := (eng_state eng)\<lparr>players := p # map (bot_player (app_steady app) gid) [0..<nat n]\<rparr>\<rparr>)
      (activeGames app)"
proof -
  have "length (players (eng_state eng)) + (nat n - 0) \<le> to_size_t (maxPlayers (config (eng_state eng)))"
    using assms(2-5) to_size_t_int(2) [of "maxPlayers (config (eng_state eng))"] by simp
  then show ?thesis
    using assms fold_bots_seats [of "eng_state eng" "nat n" 0 "app_steady app" gid]
    by (simp add: addBotsToGame_def Let_def getPlayerCount_def)
qed

lemma create_leaves:
  assumes "map_wf (activeGames app)" "\<not> app_thrown (snd (handleCreateGame L req app))"
  shows "let cr = create_request L (req_body req); cfg = cr_config cr; gid = generateGameId app;
      (resp, app') = handleCreateGame L req app
    in (\<forall>g. g = gid \<or> getGame g app' = getGame g app) \<and> cr_botCount cr < maxPlayers cfg \<and>
       (if length (activeGames app) \<ge> to_size_t (maxGamesPerServer app)
        then resp_statusCode resp = 503 \<and> activeGames app' = activeGames app
        else if maxPlayers cfg = 0
        then resp_statusCode resp = 500 \<and> (\<exists>eng. getGame gid app' = Some eng \<and> players (eng_state eng) = [])
        else resp_statusCode resp = 201 \<and>
          (\<exists>eng. getGame gid app' = Some eng \<and> phase (eng_state eng) = LOBBY \<and> config (eng_state eng) = cfg \<and>
             map (\<lambda>p. (player_id p, player_type p)) (players (eng_state eng)) =
               (creatorPlayerId (eng_state eng), HUMAN) #
               map (\<lambda>k. (''bot-'' @ gid @ ''-'' @ nat_to_string k, AI_EASY)) [0..<nat (cr_botCount cr)]))"
proof -
  let ?cr = "create_request L (req_body req)" and ?gid = "generateGameId app"
  let ?cfg = "cr_config ?cr" and ?r = "handleCreateGame L req app"
  have int: "- (2 ^ 31) \<le> maxPlayers ?cfg" "maxPlayers ?cfg < 2 ^ 31"
    using create_request_bounds(1) by (simp_all add: in_int_def)
  note few = create_request_bounds(2) [of L "req_body req"]
  show ?thesis
  proof (cases "to_size_t (maxGamesPerServer app) \<le> length (activeGames app)")
    case True
    then show ?thesis
      using createGame_full [OF True, of ?cfg] few
      by (simp add: handleCreateGame_def Let_def split_beta getGame_def resp_json_def response_def set_header_def)
  next
    case False
    then obtain code now seed t app1 where c: "createGame ?cfg app = (?gid, app1)"
      "activeGames app1 = map_put ?gid (engine_new t (new_table ?cfg ?gid code now seed)) (activeGames app)"
      using createGame_put [of app ?cfg] by (auto simp: not_le)
    obtain pid r where u: "generateUUID (app_rng app1) = (pid, r)" by (cases "generateUUID (app_rng app1)")
    let ?appr = "app1\<lparr>app_rng := r\<rparr>" and ?name = "body_name L (req_body req)"
    have gid: "?gid \<noteq> ''''" by (simp add: generateGameId_def)
    have new: "getGame ?gid ?appr = Some (engine_new t (new_table ?cfg ?gid code now seed))"
      using c(2) assms(1) by (simp add: getGame_def get_put)
    show ?thesis
    proof (cases "maxPlayers ?cfg = 0")
      case True
      then have "joinGame ?gid pid ?name ?appr = (False, ?appr)"
        using new by (simp add: joinGame_def engine_new_def to_size_t_def)
      then show ?thesis
        using True False c u gid new few assms(1)
        by (simp add: handleCreateGame_def getGame_def get_put engine_new_def resp_json_def response_def set_header_def)
    next
      case seats: False
      let ?eng = "engine_new t (new_table ?cfg ?gid code now seed)"
      have room: "0 < to_size_t (maxPlayers (config (eng_state ?eng)))"
        using seats to_size_t_int(1) [OF int] by (simp add: engine_new_def)
      obtain app2 p where j: "joinGame ?gid pid ?name ?appr = (True, app2)" "player_id p = pid" "player_type p = HUMAN"
        and a2: "activeGames app2 = map_put ?gid (?eng\<lparr>eng_state := (eng_state ?eng)
           \<lparr>creatorPlayerId := pid, players := [p]\<rparr>\<rparr>) (activeGames app1)"
        using joinGame_first_seat [OF new _ _ room, of pid ?name] by (auto simp: engine_new_def)
      let ?eng2 = "?eng\<lparr>eng_state := (eng_state ?eng)\<lparr>creatorPlayerId := pid, players := [p]\<rparr>\<rparr>"
      have wf1: "map_wf (activeGames app1)" using c(2) assms(1) wf_put by metis
      have eng2: "getGame ?gid app2 = Some ?eng2" using a2 wf1 by (simp add: getGame_def get_put)
      let ?n = "cr_botCount ?cr"
      let ?app3 = "if ?n > 0 then addBotsToGame ?gid ?n app2 else app2"
      have a3: "activeGames ?app3 = map_put ?gid (?eng2\<lparr>eng_state := (eng_state ?eng2)
          \<lparr>players := p # map (bot_player (app_steady app2) ?gid) [0..<nat ?n]\<rparr>\<rparr>) (activeGames app2)" if "0 < ?n"
        using addBots_seats [OF eng2, of p ?n] few int(2) that by (simp add: engine_new_def)
      have wf2: "map_wf (activeGames app2)" using a2 wf1 wf_put by metis
      have bots: "player_type (bot_player s g k) = AI_EASY" for s g k
        by (simp add: bot_player_def player_new_def)
      have last: "\<exists>eng. getGame ?gid ?app3 = Some eng \<and> phase (eng_state eng) = LOBBY \<and> config (eng_state eng) = ?cfg \<and>
          map (\<lambda>p. (player_id p, player_type p)) (players (eng_state eng)) =
            (creatorPlayerId (eng_state eng), HUMAN) # map (\<lambda>k. (''bot-'' @ ?gid @ ''-'' @ nat_to_string k, AI_EASY)) [0..<nat ?n]"
        using a3 wf2 eng2 j(2,3) by (cases "0 < ?n") (simp_all add: getGame_def get_put engine_new_def bots bot_player_id)
      have others: "getGame g ?app3 = getGame g app" if "g \<noteq> ?gid" for g
        using that a3 a2 c(2) assms(1) wf1 wf2 by (cases "0 < ?n") (simp_all add: getGame_def get_put)
      have r: "\<exists>j. snd ?r = dumped j ?app3" "resp_statusCode (fst ?r) = 201"
        using c(1) u j(1) gid by (auto simp: handleCreateGame_def Let_def resp_json_def response_def set_header_def)
      then have same: "getGame g (snd ?r) = getGame g ?app3" for g by auto
      have "\<forall>g. g = ?gid \<or> getGame g (snd ?r) = getGame g app" using others unfolding same by blast
      then show ?thesis
        using last [folded same] r(2) few False seats by (simp add: Let_def split_beta)
    qed
  qed
qed

text \<open>What the members of a body ask for: the whole numbers among them, and otherwise the default.\<close>

definition asked :: "(string \<times> json) list \<Rightarrow> string \<Rightarrow> int \<Rightarrow> int" where
  "asked ms k d = (case map_of ms k of Some (JInt n) \<Rightarrow> n | _ \<Rightarrow> d)"

definition plain_numbers :: "(string \<times> json) list \<Rightarrow> bool" where
  "plain_numbers ms \<longleftrightarrow>
     (\<forall>k \<in> {''minPlayers'', ''maxPlayers'', ''startingCards'', ''botCount''}. \<forall>v. map_of ms k = Some v \<longrightarrow>
        (\<exists>n. v = JInt n \<and> - (2 ^ 31) \<le> n \<and> n < 2 ^ 31))"

lemma read_number:
  assumes "plain_numbers ms" "k \<in> {''minPlayers'', ''maxPlayers'', ''startingCards'', ''botCount''}" "upd d r = r"
  shows "read_field (JObject ms) k get_int upd r = Some (upd (asked ms k d) r)"
proof (cases "map_of ms k")
  case (Some v)
  then obtain n where "v = JInt n" "- (2 ^ 31) \<le> n" "n < 2 ^ 31" using assms(1,2) unfolding plain_numbers_def by blast
  then show ?thesis using Some by (simp add: read_field_def asked_def to_int32_id)
qed (use assms(3) in \<open>simp add: read_field_def asked_def\<close>)

lemma create_request_asked:
  assumes "if req_body req = '''' then ms = []
    else case lib_parse L (req_body req) of None \<Rightarrow> ms = [] | Some j \<Rightarrow> j = JObject ms" "plain_numbers ms"
  shows "create_request L (req_body req) =
    \<lparr>cr_config = default_config\<lparr>minPlayers := asked ms ''minPlayers'' 2, maxPlayers := asked ms ''maxPlayers'' 8,
       startingCards := asked ms ''startingCards'' 6\<rparr>,
     cr_botCount = min (max 0 (asked ms ''botCount'' 0)) (asked ms ''maxPlayers'' 8 - 1)\<rparr>"
proof -
  let ?r0 = "\<lparr>cr_config = default_config, cr_botCount = 0\<rparr>"
  let ?want = "\<lparr>cr_config = default_config\<lparr>minPlayers := asked ms ''minPlayers'' 2, maxPlayers := asked ms ''maxPlayers'' 8,
       startingCards := asked ms ''startingCards'' 6\<rparr>, cr_botCount = asked ms ''botCount'' 0\<rparr>"
  have none: "?want = ?r0" if "ms = []" using that by (simp add: asked_def default_config_def)
  let ?r1 = "?r0\<lparr>cr_config := default_config\<lparr>minPlayers := asked ms ''minPlayers'' 2\<rparr>\<rparr>"
  let ?r2 = "?r0\<lparr>cr_config := default_config\<lparr>minPlayers := asked ms ''minPlayers'' 2, maxPlayers := asked ms ''maxPlayers'' 8\<rparr>\<rparr>"
  let ?r3 = "?want\<lparr>cr_botCount := 0\<rparr>"
  note read = read_number [OF assms(2)]
  have "read_field (JObject ms) ''minPlayers'' get_int (\<lambda>n r. r\<lparr>cr_config := (cr_config r)\<lparr>minPlayers := n\<rparr>\<rparr>) ?r0 = Some ?r1"
    by (subst read [where d = 2]) (simp_all add: default_config_def)
  moreover have "read_field (JObject ms) ''maxPlayers'' get_int (\<lambda>n r. r\<lparr>cr_config := (cr_config r)\<lparr>maxPlayers := n\<rparr>\<rparr>) ?r1 = Some ?r2"
    by (subst read [where d = 8]) (simp_all add: default_config_def)
  moreover have "read_field (JObject ms) ''startingCards'' get_int (\<lambda>n r. r\<lparr>cr_config := (cr_config r)\<lparr>startingCards := n\<rparr>\<rparr>) ?r2 = Some ?r3"
    by (subst read [where d = 6]) (simp_all add: default_config_def)
  moreover have "read_field (JObject ms) ''botCount'' get_int (\<lambda>n r. r\<lparr>cr_botCount := n\<rparr>) ?r3 = Some ?want"
    by (subst read [where d = 0]) simp_all
  ultimately have "try_steps (create_steps (JObject ms)) ?r0 = ?want"
    unfolding create_steps_def try_steps.simps by (simp only: option.case)
  then have "body_with L (req_body req) create_steps ?r0 = ?want"
    using assms(1) none by (auto simp: body_with_def read_with_def split: if_splits option.splits)
  then show ?thesis by (simp add: create_request_def Let_def)
qed

text \<open>C27: What a request to create a game leaves, for a body whose four numbers are whole or missing, or that is no
  JSON at all.  There is a table under an unused id with the minimum and maximum of players and the starting cards
  asked for (2, 8 and 6 by default): its creator in the first seat, then the bots asked for, none for a negative
  number and always fewer than the table has seats.  A full server answers 503 and keeps its games (the line that goes
  out says 200 OK, since \<open>statusLine\<close> does not know 503); a table without seats answers 500, and the game that nobody
  could join stays behind.  No other game is touched.  (It is required that no text of the answer or of the
  saved game throws.)\<close>

theorem created_table:
  assumes "map_wf (activeGames app)" "\<not> app_thrown (snd (handleCreateGame L req app))"
    and "if req_body req = '''' then ms = []
      else case lib_parse L (req_body req) of None \<Rightarrow> ms = [] | Some j \<Rightarrow> j = JObject ms"
    and "plain_numbers ms"
  shows "let seats = asked ms ''maxPlayers'' 8; bots = min (max 0 (asked ms ''botCount'' 0)) (seats - 1);
      cfg = default_config\<lparr>minPlayers := asked ms ''minPlayers'' 2, maxPlayers := seats,
        startingCards := asked ms ''startingCards'' 6\<rparr>;
      gid = generateGameId app; (resp, app') = handleCreateGame L req app
    in (\<forall>g. g = gid \<or> getGame g app' = getGame g app) \<and>
       (if length (activeGames app) \<ge> to_size_t (maxGamesPerServer app)
        then resp_statusCode resp = 503 \<and> statusLine (resp_statusCode resp) = ''200 OK'' \<and> activeGames app' = activeGames app
        else if seats = 0
        then resp_statusCode resp = 500 \<and> (\<exists>eng. getGame gid app' = Some eng \<and> players (eng_state eng) = [])
        else resp_statusCode resp = 201 \<and>
          (\<exists>eng. getGame gid app' = Some eng \<and> phase (eng_state eng) = LOBBY \<and> config (eng_state eng) = cfg \<and>
             map (\<lambda>p. (player_id p, player_type p)) (players (eng_state eng)) =
               (creatorPlayerId (eng_state eng), HUMAN) #
               map (\<lambda>k. (''bot-'' @ gid @ ''-'' @ nat_to_string k, AI_EASY)) [0..<nat bots]))"
  using create_leaves [OF assms(1,2)]
  unfolding create_request_asked [OF assms(3,4)] Let_def
  by (cases "handleCreateGame L req app") (auto simp: statusLine_def split: if_splits)

text \<open>A request for a table for three with a bot, to a new server.\<close>

definition bot_lib :: JsonLib where
  "bot_lib = \<lparr>lib_parse = \<lambda>s. Some (JObject [(''maxPlayers'', JInt 3), (''botCount'', JInt 1)]), lib_dump = \<lambda>j. ''''\<rparr>"

theorem created_table_witness:
  "\<exists>eng. getGame ''game-0-0'' (snd (handleCreateGame bot_lib \<lparr>req_method = POST, req_path = '''', req_headers = [],
     req_queryParams = [], req_pathParams = [], req_body = ''x''\<rparr> (app_new 100 True 0 0 0 [] []))) = Some eng \<and>
     length (players (eng_state eng)) = 2 \<and> maxPlayers (config (eng_state eng)) = 3"
proof -
  let ?req = "\<lparr>req_method = POST, req_path = '''', req_headers = [], req_queryParams = [], req_pathParams = [],
     req_body = ''x''\<rparr>" and ?ms = "[(''maxPlayers'', JInt 3), (''botCount'', JInt 1)]"
  let ?app = "app_new 100 True 0 0 0 [] []"
  have wf: "map_wf (activeGames ?app)" by (simp add: app_new_def map_wf_def)
  have numbers: "plain_numbers ?ms" by (simp add: plain_numbers_def)
  have body: "if req_body ?req = '''' then ?ms = []
      else case lib_parse bot_lib (req_body ?req) of None \<Rightarrow> ?ms = [] | Some j \<Rightarrow> j = JObject ?ms"
    by (simp add: bot_lib_def)
  have name: "body_name bot_lib ''x'' = ''Player''" by code_simp
  have seats: "maxPlayers (cr_config (create_request bot_lib (req_body ?req))) = 3"
    unfolding create_request_asked [OF body numbers] by (simp add: asked_def)
  have room: "\<not> to_size_t (maxGamesPerServer ?app) \<le> length (activeGames ?app)" "generateGameId ?app = ''game-0-0''"
    by code_simp+
  have "\<not> app_thrown (snd (handleCreateGame bot_lib ?req ?app))"
    using create_throws [OF _ name_game_hyps(1) _ _ name_game_hyps(2), of bot_lib ?req] sound_app_new seats name
    by (simp add: utf8_ascii_Cons to_size_t_def)
  from created_table [OF wf this body numbers] room show ?thesis
    by (auto simp: Let_def split_beta asked_def)
qed

end
