(* ===== verification/Whot_Book.thy ===== *)
theory Whot_Book
  imports Whot_EngineProps
begin

text \<open>
  The game by the book: what a table is and which moves there are, without lists, positions in a hand or an
  order of the stock, and the proof that the engine implements it.  A card drawn is any card of the stock; the
  engine takes the top one.
\<close>

section \<open>The table\<close>

record Table =
  t_hands :: "Card multiset list"
  t_active :: "bool list"
  t_stock :: "Card multiset"
  t_pile :: "Card multiset"
  t_call :: "Card option"
  t_turn :: nat
  t_clockwise :: bool
  t_reversible :: bool
  t_debt :: int
  t_suit :: "Suit option"
  t_again :: bool
  t_over :: bool

text \<open>\<open>t_debt\<close>: the cards somebody will have to pick; \<open>t_again\<close>: a hold-on card was played and nobody has drawn
  since; \<open>t_over\<close>: the round is over.\<close>

definition seat_hand :: "Table \<Rightarrow> Card multiset" where
  "seat_hand t = t_hands t ! t_turn t"

definition passes :: "Table \<Rightarrow> Table" where
  "passes t =
     (let n = length (t_hands t)
      in t\<lparr>t_turn := (if t_clockwise t then t_turn t + 1 else t_turn t + n - 1) mod n\<rparr>)"

text \<open>Which card may be laid on the call card, and which one answers a pick.\<close>

definition fits :: "Card \<Rightarrow> Table \<Rightarrow> bool" where
  "fits c t =
     (case t_call t of
        None \<Rightarrow> False
      | Some k \<Rightarrow> getValue c = TWENTY \<or>
          (case t_suit t of
             Some s \<Rightarrow> getSuit c = s
           | None \<Rightarrow> getSuit c = getSuit k \<or> getValue c = getValue k))"

definition answers :: "Card \<Rightarrow> Table \<Rightarrow> bool" where
  "answers c t =
     (case t_call t of None \<Rightarrow> False | Some k \<Rightarrow> getValue k \<in> {TWO, FIVE} \<and> getValue c = getValue k)"

definition must_draw :: "Table \<Rightarrow> bool" where
  "must_draw t =
     (if 0 < t_debt t then \<not> (\<exists>c \<in># seat_hand t. answers c t) else \<not> (\<exists>c \<in># seat_hand t. fits c t))"

definition due :: "Table \<Rightarrow> nat" where
  "due t = (if 0 < t_debt t then nat (t_debt t) else 1)"

text \<open>An empty stock is made of the pile, but for the copies of the call card, which are lost.\<close>

definition turned_over :: "Table \<Rightarrow> Table" where
  "turned_over t =
     (case t_call t of
        None \<Rightarrow> t
      | Some k \<Rightarrow> t\<lparr>t_stock := t_stock t + filter_mset (\<lambda>c. c \<noteq> k) (t_pile t), t_pile := {#}\<rparr>)"

definition refill :: "Table \<Rightarrow> Table" where
  "refill t = (if t_stock t = {#} then turned_over t else t)"

definition give :: "nat \<Rightarrow> Card multiset \<Rightarrow> Table \<Rightarrow> Table" where
  "give k cs t = t\<lparr>t_hands := (t_hands t)[k := t_hands t ! k + cs], t_stock := t_stock t - cs\<rparr>"

definition lay :: "Card \<Rightarrow> Table \<Rightarrow> Table" where
  "lay c t = t\<lparr>t_hands := (t_hands t)[t_turn t := seat_hand t - {#c#}], t_pile := t_pile t + {#c#},
     t_call := Some c, t_suit := None\<rparr>"

text \<open>The end of a play: an empty hand ends the round, otherwise the turn passes unless a hold-on card holds it.\<close>

definition settle :: "Table \<Rightarrow> Table" where
  "settle t = (if {#} \<in> set (t_hands t) then t\<lparr>t_over := True\<rparr> else if t_again t then t else passes t)"

definition market_seats :: "Table \<Rightarrow> nat list" where
  "market_seats t = filter (\<lambda>k. k \<noteq> t_turn t \<and> t_active t ! k) [0..<length (t_hands t)]"

section \<open>The moves\<close>

inductive takes :: "nat \<Rightarrow> Table \<Rightarrow> Table \<Rightarrow> bool" where
  takes_card: "c \<in># t_stock (refill t) \<Longrightarrow> takes k t (give k {#c#} (refill t))"
| takes_none: "t_stock (refill t) = {#} \<Longrightarrow> takes k t (refill t)"

inductive deals :: "nat list \<Rightarrow> Table \<Rightarrow> Table \<Rightarrow> bool" where
  deals_done: "deals [] t t"
| deals_one: "takes k t u \<Longrightarrow> deals ks u v \<Longrightarrow> deals (k # ks) t v"

inductive effect :: "Card \<Rightarrow> Table \<Rightarrow> Table \<Rightarrow> bool" where
  hold_on: "getValue c = ONE \<Longrightarrow> effect c t ((passes t)\<lparr>t_again := True\<rparr>)"
| pick_two: "getValue c = TWO \<Longrightarrow> effect c t (t\<lparr>t_debt := t_debt t + 2\<rparr>)"
| pick_three: "getValue c = FIVE \<Longrightarrow> effect c t (t\<lparr>t_debt := t_debt t + 3\<rparr>)"
| suspension: "getValue c = EIGHT \<Longrightarrow> effect c t (passes t)"
| market: "getValue c = FOURTEEN \<Longrightarrow> deals (market_seats t) t t' \<Longrightarrow> effect c t t'"
| plain: "getValue c \<notin> {ONE, TWO, FIVE, EIGHT, FOURTEEN} \<Longrightarrow> effect c t t"

datatype Move = Lays Card | Draws | Names Suit bool

inductive book :: "Move \<Rightarrow> Table \<Rightarrow> Table \<Rightarrow> bool" where
  lays: "c \<in># seat_hand t \<Longrightarrow> fits c t \<Longrightarrow> effect c (lay c t) t' \<Longrightarrow> book (Lays c) t (settle t')"
| draws: "must_draw t \<Longrightarrow> got \<subseteq># t_stock (refill t) \<Longrightarrow> size got = min (due t) (size (t_stock (refill t))) \<Longrightarrow>
    book Draws t (passes ((give (t_turn t) got (refill t))\<lparr>t_debt := 0, t_again := False\<rparr>))"
| names: "book (Names s turn_round) t
    (t\<lparr>t_suit := Some s, t_clockwise := (t_clockwise t \<noteq> (turn_round \<and> t_reversible t))\<rparr>)"

inductive_cases book_elims: "book (Lays c) t t'" "book Draws t t'" "book (Names s b) t t'"

section \<open>The table of an engine\<close>

definition table_with :: "bool \<Rightarrow> GameState \<Rightarrow> Table" where
  "table_with again gs =
     \<lparr>t_hands = map (\<lambda>p. mset (hand_cards (player_hand p))) (players gs),
      t_active = map (\<lambda>p. player_status p = ACTIVE) (players gs),
      t_stock = mset (deck_cards (deck gs)), t_pile = mset (discardPile gs), t_call = callCard gs,
      t_turn = nat (currentPlayerIndex gs), t_clockwise = (direction gs = CLOCKWISE),
      t_reversible = allowDirectionChange (config gs), t_debt = activePickCount gs, t_suit = demandedSuit gs,
      t_again = again, t_over = (phase gs = ROUND_ENDED)\<rparr>"

definition table_of :: "GameEngine \<Rightarrow> Table" where
  "table_of eng = table_with (allowMultipleActions (eng_turn eng)) (eng_state eng)"

lemma table_with_parts [simp]:
  "t_hands (table_with b gs) = map (\<lambda>p. mset (hand_cards (player_hand p))) (players gs)"
  "t_active (table_with b gs) = map (\<lambda>p. player_status p = ACTIVE) (players gs)"
  "t_stock (table_with b gs) = mset (deck_cards (deck gs))" "t_pile (table_with b gs) = mset (discardPile gs)"
  "t_call (table_with b gs) = callCard gs" "t_turn (table_with b gs) = nat (currentPlayerIndex gs)"
  "t_clockwise (table_with b gs) = (direction gs = CLOCKWISE)"
  "t_reversible (table_with b gs) = allowDirectionChange (config gs)" "t_debt (table_with b gs) = activePickCount gs"
  "t_suit (table_with b gs) = demandedSuit gs" "t_again (table_with b gs) = b"
  "t_over (table_with b gs) = (phase gs = ROUND_ENDED)"
  by (simp_all add: table_with_def)

section \<open>What the parts of the engine do to the table\<close>

lemma length_hands [simp]: "length (t_hands (table_with b gs)) = length (players gs)"
  by simp

lemma index_okE:
  assumes "index_ok gs"
  obtains i where "currentPlayerIndex gs = int i" "i < length (players gs)"
  using assms that [of "nat (currentPlayerIndex gs)"] by (simp add: index_ok_def nat_less_iff)

lemma seat_hand_with:
  "currentPlayerIndex gs = int i \<Longrightarrow> i < length (players gs) \<Longrightarrow> seat_hand (table_with b gs) = mset (hand_cards (hand_of gs i))"
  by (simp add: seat_hand_def)

text \<open>A table is determined by its parts.\<close>

lemma table_with_cong:
  assumes "map (\<lambda>p. mset (hand_cards (player_hand p))) (players gs) = map (\<lambda>p. mset (hand_cards (player_hand p))) (players gs')"
    "roster gs = roster gs'" "mset (deck_cards (deck gs)) = mset (deck_cards (deck gs'))"
    "mset (discardPile gs) = mset (discardPile gs')" "callCard gs = callCard gs'"
    "currentPlayerIndex gs = currentPlayerIndex gs'" "direction gs = direction gs'" "config gs = config gs'"
    "activePickCount gs = activePickCount gs'" "demandedSuit gs = demandedSuit gs'" "phase gs = phase gs'"
  shows "table_with b gs = table_with b gs'"
proof -
  have "map (\<lambda>p. player_status p = ACTIVE) (players g) = map (\<lambda>x. snd x = ACTIVE) (roster g)" for g
    by (simp add: roster_def o_def)
  then show ?thesis using assms by (simp add: table_with_def)
qed

lemma table_advance:
  assumes "index_ok gs"
  shows "table_with b (advanceTurn gs) = passes (table_with b gs)"
proof -
  let ?n = "length (players gs)"
  obtain i where i: "currentPlayerIndex gs = int i" "i < ?n" by (rule index_okE [OF assms])
  then have ne: "players gs \<noteq> []" by auto
  have "getNextPlayerIndex gs = int ((if direction gs = CLOCKWISE then i + 1 else i + ?n - 1) mod ?n)"
    using i ne mod_add_self2 [of "int i - 1" "int ?n"] mod_add_self2 [of "1 + int i" "int ?n"]
    by (simp add: getNextPlayerIndex_def Let_def zmod_int of_nat_diff algebra_simps del: mod_add_self2)
  then show ?thesis
    using i ne by (simp add: table_with_def passes_def currentPlayerIndex_advanceTurn Let_def)
qed

lemma table_reshuffle: "table_with b (reshuffleDiscardPile gs) = turned_over (table_with b gs)"
  by (simp add: table_with_def turned_over_def reshuffleDiscardPile_def reshuffle_mset mset_filter split: option.split)

lemma table_refill:
  "table_with b (if needsReshuffle gs then reshuffleDiscardPile gs else gs) = refill (table_with b gs)"
  by (auto simp: refill_def table_reshuffle [symmetric] needsReshuffle_def deck_isEmpty_def)
    (auto simp: table_with_def reshuffleDiscardPile_def split: option.split)

lemma table_give:
  assumes "k < length (players gs)" "mset (deck_cards d) = mset (deck_cards (deck gs)) - cs"
    "mset (hand_cards (player_hand p)) = mset (hand_cards (hand_of gs k)) + cs"
    "player_status p = player_status (players gs ! k)"
  shows "table_with b (gs\<lparr>players := (players gs)[k := p], deck := d\<rparr>) = give k cs (table_with b gs)"
  using assms by (simp add: table_with_def give_def map_update map_update_same list_update_same_conv)

text \<open>One card of the stock, or none.\<close>

lemma table_draw_for:
  assumes "k < length (players gs)"
  shows "takes k (table_with b gs) (table_with b (draw_for k gs))"
proof -
  let ?g1 = "if needsReshuffle gs then reshuffleDiscardPile gs else gs"
  have same: "(if deck_isEmpty (deck gs) \<and> needsReshuffle gs then reshuffleDiscardPile gs else gs) = ?g1"
    by (simp add: needsReshuffle_def)
  have full: "table_with b ?g1 = refill (table_with b gs)" by (rule table_refill)
  show ?thesis
  proof (cases "deck_cards (deck ?g1) = []")
    case True
    then have "draw_for k gs = ?g1"
      unfolding draw_for_def same by (simp add: deck_draw_def deck_isEmpty_def Let_def)
    moreover have "t_stock (refill (table_with b gs)) = {#}" using True by (simp add: full [symmetric])
    ultimately show ?thesis using takes_none full by simp
  next
    case False
    let ?cs = "deck_cards (deck ?g1)"
    let ?d = "(deck ?g1)\<lparr>deck_cards := butlast ?cs\<rparr>"
    have drawn: "draw_for k gs = ?g1\<lparr>players := (players ?g1)[k := give_card (last ?cs) (players ?g1 ! k)], deck := ?d\<rparr>"
      unfolding draw_for_def same using False
      by (simp add: deck_draw_def deck_isEmpty_def Let_def modify_player_def)
    have mset: "mset ?cs = add_mset (last ?cs) (mset (butlast ?cs))"
      using arg_cong [OF append_butlast_last_id [OF False], of mset] by simp
    have "table_with b (draw_for k gs) = give k {#last ?cs#} (table_with b ?g1)"
      unfolding drawn by (rule table_give) (use assms mset in simp_all)
    moreover have "last ?cs \<in># t_stock (refill (table_with b gs))"
      unfolding full [symmetric] using False by simp
    ultimately show ?thesis using takes_card full by simp
  qed
qed

lemma table_fold_draw:
  "\<forall>k \<in> set ks. k < length (players gs) \<Longrightarrow> deals ks (table_with b gs) (table_with b (fold draw_for ks gs))"
proof (induction ks arbitrary: gs)
  case (Cons k ks)
  then show ?case using table_draw_for [of k gs b] by (auto intro: deals_one)
qed (simp add: deals_done)

text \<open>The penalty: that many cards of the stock, or all of them.\<close>

lemma table_penalty:
  assumes "i < length (players gs)"
  shows "\<exists>got. got \<subseteq># t_stock (refill (table_with b gs)) \<and> size got = min (nat n) (size (t_stock (refill (table_with b gs)))) \<and>
    table_with b (penalty_draw i n gs) = (give i got (refill (table_with b gs)))\<lparr>t_debt := 0\<rparr>"
proof -
  let ?g1 = "if needsReshuffle gs then reshuffleDiscardPile gs else gs"
  obtain cs d where drawn: "draw_many deck_draw (nat n) (deck ?g1) = (cs, d)"
    by (cases "draw_many deck_draw (nat n) (deck ?g1)")
  have m: "mset cs + mset (deck_cards d) = mset (deck_cards (deck ?g1))"
    using deck_src.draw_many_mset [of "nat n" "deck ?g1"] drawn by simp
  have size: "length cs = min (nat n) (length (deck_cards (deck ?g1)))"
    using deck_src.draw_many_spec [of "nat n" "deck ?g1"] drawn by simp
  have i: "i < length (players ?g1)" using assms by simp
  have st: "penalty_draw i n gs = (?g1\<lparr>players := (players ?g1)[i := (players ?g1 ! i)
      \<lparr>player_hand := hand_addCards (map Some cs) (player_hand (players ?g1 ! i))\<rparr>], deck := d\<rparr>)\<lparr>activePickCount := 0\<rparr>"
    unfolding penalty_draw_def Let_def draw_cards_def drawn by (simp add: modify_player_def resetActivePickCount_def)
  have "table_with b (?g1\<lparr>players := (players ?g1)[i := (players ?g1 ! i)
      \<lparr>player_hand := hand_addCards (map Some cs) (player_hand (players ?g1 ! i))\<rparr>], deck := d\<rparr>) =
      give i (mset cs) (table_with b ?g1)"
    by (rule table_give) (use i m in \<open>simp_all add: hand_cards_addCards union_commute flip: m\<close>)
  moreover have debt: "table_with b (g\<lparr>activePickCount := 0\<rparr>) = (table_with b g)\<lparr>t_debt := 0\<rparr>" for g
    by (simp add: table_with_def)
  ultimately have "table_with b (penalty_draw i n gs) = (give i (mset cs) (table_with b ?g1))\<lparr>t_debt := 0\<rparr>"
    by (simp only: st debt)
  moreover have "mset cs \<subseteq># mset (deck_cards (deck ?g1))" using m by (metis mset_subset_eq_add_left)
  ultimately show ?thesis
    using size unfolding table_refill [symmetric] by (intro exI [of _ "mset cs"]) simp
qed

text \<open>A card goes from the hand of the current player to the pile.\<close>

lemma table_put:
  assumes "currentPlayerIndex gs = int i" "i < length (players gs)" "idx < length (hand_cards (hand_of gs i))"
  shows "table_with b (put_card i idx (hand_cards (hand_of gs i) ! idx) gs) = lay (hand_cards (hand_of gs i) ! idx) (table_with b gs)"
proof -
  let ?c = "hand_cards (hand_of gs i) ! idx"
  have "mset (hand_cards (player_hand (take_from_hand idx (players gs ! i)))) = mset (hand_cards (hand_of gs i)) - {#?c#}"
    using arg_cong [OF hand_playCard_mset [OF assms(3)], of "\<lambda>M. M - {#?c#}"] by (simp add: take_from_hand_def)
  then show ?thesis
    using assms seat_hand_with [OF assms(1,2), of b]
    by (simp add: table_with_def lay_def put_card_players modify_player_def map_update list_update_same_conv seat_hand_def)
qed

lemma market_seats_with:
  assumes "currentPlayerIndex gs = int i" "i < length (players gs)" "distinct (map player_id (players gs))"
  shows "market_players i gs = market_seats (table_with b gs)"
proof -
  have "player_id (players gs ! k) \<noteq> player_id (players gs ! i) \<longleftrightarrow> k \<noteq> i" if "k < length (players gs)" for k
    using nth_eq_iff_index_eq [OF assms(3), of k i] that assms(2) by simp
  then show ?thesis
    using assms(1)
    by (auto simp: market_players_def market_seats_def getActivePlayers_def indices_where_def intro!: filter_cong)
qed

lemma passes_again: "passes (t\<lparr>t_again := x\<rparr>) = (passes t)\<lparr>t_again := x\<rparr>"
  by (simp add: passes_def Let_def)

lemma table_special:
  assumes "currentPlayerIndex gs = int i" "i < length (players gs)" "distinct (map player_id (players gs))"
    "demandedSuit gs = None"
  shows "effect c (table_with b gs) (table_with (b \<or> getValue c = ONE) (special_state c i gs))"
proof -
  have ok: "index_ok gs" using assms(1,2) by (simp add: index_ok_def)
  have again: "table_with True gs' = (table_with b gs')\<lparr>t_again := True\<rparr>" for gs' by (simp add: table_with_def)
  have debt: "table_with b (gs\<lparr>activePickCount := n\<rparr>) = (table_with b gs)\<lparr>t_debt := n\<rparr>" for n
    by (simp add: table_with_def)
  have deals: "deals (market_seats (table_with b gs)) (table_with b gs) (table_with b (fold draw_for (market_players i gs) gs))"
    unfolding market_seats_with [OF assms(1-3), symmetric] using market_players_lt by (intro table_fold_draw) blast
  have suit: "gs\<lparr>demandedSuit := None\<rparr> = gs" using assms(4) by simp
  show ?thesis
    using hold_on [of c "table_with b gs"] pick_two [of c "table_with b gs"] pick_three [of c "table_with b gs"]
      suspension [of c "table_with b gs"] market [OF _ deals, of c] plain [of c "table_with b gs"]
    by (cases "getValue c") (simp_all add: special_state_def again table_advance [OF ok] passes_again debt suit)
qed

lemma table_round_end: "checkRoundEnd gs \<longleftrightarrow> {#} \<in> set (t_hands (table_with b gs))"
  by (auto simp: checkRoundEnd_iff)

lemma table_score: "table_with b (score_round gs) = (table_with b gs)\<lparr>t_over := True\<rparr>"
proof -
  have "map (\<lambda>p. mset (hand_cards (player_hand p))) (players (score_round gs)) =
      map (\<lambda>p. mset (hand_cards (player_hand p))) (players gs)"
    using arg_cong [OF score_round_hands [of gs], of "map (\<lambda>h. mset (hand_cards h))"] by (simp add: o_def)
  then have "table_with b (score_round gs) = table_with b (gs\<lparr>phase := ROUND_ENDED\<rparr>)"
    by (intro table_with_cong) (simp_all add: roster_def [of "gs\<lparr>phase := ROUND_ENDED\<rparr>"] roster_def [of gs, symmetric])
  then show ?thesis by (simp add: table_with_def)
qed

lemma table_after_play:
  assumes "index_ok (eng_state eng)"
  shows "table_of (after_play eng) = settle (table_of eng)"
proof (cases "checkRoundEnd (eng_state eng)")
  case True
  then have "table_of (after_play eng) = table_with (allowMultipleActions (eng_turn eng)) (score_round (eng_state eng))"
    by (simp add: table_of_def after_play_def Let_def)
  then show ?thesis
    using True unfolding table_of_def settle_def table_round_end [of _ "allowMultipleActions (eng_turn eng)"]
    by (simp only: table_score if_True)
next
  case False
  then show ?thesis
    using table_advance [OF assms, of False]
    unfolding table_of_def settle_def table_round_end [of _ "allowMultipleActions (eng_turn eng)"]
    by (auto simp: after_play_def canPlayAgain_def table_round_end [of _ "allowMultipleActions (eng_turn eng)"])
qed

text \<open>The questions of the rule engine, asked of the table.\<close>

lemma table_fits: "re_canPlayCard ru gs p c = fits c (table_with b gs)"
  by (simp add: re_canPlayCard_def rules_canPlayCard_def fits_def isWhotCard_iff matchesSuit_def canPlayOn_iff
      split: option.split)

lemma table_must_draw:
  assumes "currentPlayerIndex gs = int i" "i < length (players gs)"
  shows "re_mustDrawCard ru gs (players gs ! i) = must_draw (table_with b gs)"
proof -
  have "re_hasDefenseCard ru gs (players gs ! i) \<longleftrightarrow> (\<exists>c \<in># seat_hand (table_with b gs). answers c (table_with b gs))"
    if "0 < activePickCount gs"
    using that by (auto simp: seat_hand_with [OF assms] re_hasDefenseCard_def answers_def canDefendAgainstAttack_def list_ex_iff
        split: option.split)
  moreover have "re_hasPlayableCard ru gs (players gs ! i) \<longleftrightarrow> (\<exists>c \<in># seat_hand (table_with b gs). fits c (table_with b gs))"
    unfolding seat_hand_with [OF assms] hasPlayableCard_iff table_fits [of _ _ _ _ b] set_mset_mset by (metis in_set_conv_nth)
  ultimately show ?thesis by (simp add: re_mustDrawCard_def must_draw_def)
qed

lemma table_due:
  "re_mustDrawCard ru gs p \<Longrightarrow> nat (re_calculateDrawCount ru gs p) = due (table_with b gs)"
  by (auto simp: re_calculateDrawCount_def re_mustDrawCard_def due_def split: if_splits)

section \<open>The engine plays by the book\<close>

lemma getPlayer_current:
  assumes "getPlayer (getCurrentPlayerId gs) gs = Some i" "index_ok gs" "distinct (map player_id (players gs))"
  shows "currentPlayerIndex gs = int i \<and> i < length (players gs)"
proof -
  obtain k where k: "currentPlayerIndex gs = int k" "k < length (players gs)" by (rule index_okE [OF assms(2)])
  then have "getCurrentPlayerId gs = player_id (players gs ! k)"
    using getCurrentPlayer_Some [of gs k] by (simp add: getCurrentPlayerId_def)
  then have "player_id (players gs ! i) = player_id (players gs ! k)" "i < length (players gs)"
    using getPlayer_Some [OF assms(1)] by simp_all
  then show ?thesis using nth_eq_iff_index_eq [OF assms(3), of i k] k by simp
qed

lemma play_by_the_book:
  assumes "currentPlayerIndex (eng_state eng) = int i" "playable_at eng i idx"
    "distinct (map player_id (players (eng_state eng)))"
  shows "book (Lays (hand_cards (hand_of (eng_state eng) i) ! idx)) (table_of eng)
    (table_of (after_play (emitEvent ty j (play_core i idx eng))))"
proof -
  let ?gs = "eng_state eng" and ?b = "allowMultipleActions (eng_turn eng)"
  let ?c = "hand_cards (hand_of ?gs i) ! idx" and ?core = "emitEvent ty j (play_core i idx eng)"
  have i: "i < length (players ?gs)" "idx < length (hand_cards (hand_of ?gs i))" and fit: "fits ?c (table_with ?b ?gs)"
    using assms(2) table_fits [of "eng_rules eng" ?gs _ ?c ?b] by (simp_all add: playable_at_def)
  let ?put = "put_card i idx ?c ?gs"
  have ids: "map player_id (players ?put) = map player_id (players ?gs)"
    using arg_cong [OF put_card_frame(2) [of i idx ?c ?gs], of "map fst"] by (simp add: roster_def o_def)
  have "effect ?c (table_with ?b ?put) (table_with (?b \<or> getValue ?c = ONE) (special_state ?c i ?put))"
    using assms(1,3) i by (intro table_special) (simp_all add: ids)
  then have eff: "effect ?c (lay ?c (table_of eng)) (table_of ?core)"
    unfolding table_put [OF assms(1) i] by (cases "getValue ?c = ONE") (simp_all add: table_of_def play_core_def Let_def)
  have "index_ok ?gs" using assms(1) i(1) by (simp add: index_ok_def)
  then have "index_ok (eng_state ?core)" by (simp add: Let_def index_ok_special)
  moreover have "?c \<in># seat_hand (table_of eng)" using i by (simp add: table_of_def seat_hand_with [OF assms(1)])
  ultimately show ?thesis
    unfolding table_after_play [OF \<open>index_ok (eng_state ?core)\<close>]
    by (intro lays [OF _ _ eff]) (use fit in \<open>simp_all add: table_of_def\<close>)
qed

lemma draw_by_the_book:
  assumes "currentPlayerIndex (eng_state eng) = int i" "i < length (players (eng_state eng))"
    "re_mustDrawCard (eng_rules eng) (eng_state eng) (players (eng_state eng) ! i)"
    "act_playerId a = player_id (players (eng_state eng) ! i)" "distinct (map player_id (players (eng_state eng)))"
    "(r, eng') = handleDrawCard a eng"
  shows "book Draws (table_of eng) (table_of eng')"
proof -
  let ?gs = "eng_state eng" and ?b = "allowMultipleActions (eng_turn eng)"
  let ?n = "re_calculateDrawCount (eng_rules eng) ?gs (players ?gs ! i)"
  obtain k where k: "getPlayer (act_playerId a) ?gs = Some k" "k < length (players ?gs)" "player_id (players ?gs ! k) = act_playerId a"
  proof (cases "getPlayer (act_playerId a) ?gs")
    case None
    then show ?thesis using assms(2,4) by (auto simp: getPlayer_def find_index_None)
  next
    case (Some k)
    then show ?thesis using that getPlayer_Some by blast
  qed
  have "k = i" using nth_eq_iff_index_eq [OF assms(5), of k i] k(2,3) assms(2,4) by simp
  then have eng': "eng_state eng' = advanceTurn (penalty_draw i ?n ?gs)" "allowMultipleActions (eng_turn eng') = False"
    using handleDrawCard_state [OF assms(6)] assms(6) k(1) by (simp_all add: handleDrawCard_def Let_def)
  have "index_ok (penalty_draw i ?n ?gs)" using assms(1,2) by (simp add: index_ok_def)
  then have tab: "table_of eng' = passes (table_with False (penalty_draw i ?n ?gs))"
    using eng' by (simp add: table_of_def table_advance)
  obtain got where got: "got \<subseteq># t_stock (refill (table_with ?b ?gs))"
    "size got = min (nat ?n) (size (t_stock (refill (table_with ?b ?gs))))"
    "table_with ?b (penalty_draw i ?n ?gs) = (give i got (refill (table_with ?b ?gs)))\<lparr>t_debt := 0\<rparr>"
    using table_penalty [OF assms(2)] by blast
  have again: "table_with False g = (table_with ?b g)\<lparr>t_again := False\<rparr>" for g by (simp add: table_with_def)
  have "table_of eng' = passes ((give i got (refill (table_with ?b ?gs)))\<lparr>t_debt := 0, t_again := False\<rparr>)"
    unfolding tab again [of "penalty_draw i ?n ?gs"] got(3) by simp
  moreover have "must_draw (table_of eng)"
    using assms(3) unfolding table_must_draw [OF assms(1,2), of _ "allowMultipleActions (eng_turn eng)"] table_of_def .
  moreover have "nat ?n = due (table_of eng)" using table_due [OF assms(3)] by (simp add: table_of_def)
  moreover have "t_turn (table_of eng) = i" using assms(1) by (simp add: table_of_def)
  ultimately show ?thesis
    using draws [of "table_of eng" got] got(1,2) by (simp add: table_of_def)
qed

text \<open>What an accepted action is in the book.\<close>

definition by_the_book :: "GameAction \<Rightarrow> Table \<Rightarrow> Table \<Rightarrow> bool" where
  "by_the_book a t t' =
     (case act_type a of
        PLAY_CARD \<Rightarrow> \<exists>c. book (Lays c) t t'
      | DRAW_CARD \<Rightarrow> book Draws t t'
      | CHOOSE_SUIT \<Rightarrow> (case act_chosenSuit a of None \<Rightarrow> False | Some s \<Rightarrow> book (Names s (act_chosenDirection a \<noteq> None)) t t')
      | _ \<Rightarrow> t' = t)"

lemma process_by_the_book:
  assumes "processAction a eng = Some (r, eng')" "res_success r" "index_ok (eng_state eng)"
    "distinct (map player_id (players (eng_state eng)))"
  shows "by_the_book a (table_of eng) (table_of eng')"
  using assms(1)
proof (cases rule: processAction_cases)
  case rejected
  then show ?thesis using assms(2) by (simp add: res_fail_def)
next
  case (play idx i)
  have "currentPlayerIndex (eng_state eng) = int i"
    using getPlayer_current [of "eng_state eng" i] play(3,4) assms(3,4) by simp
  from play_by_the_book [OF this play(5) assms(4)] show ?thesis
    unfolding play(7) by (auto simp: by_the_book_def play(1))
next
  case (draw i)
  then show ?thesis
    using draw_by_the_book [OF _ _ draw(4,3) assms(4) draw(5)] getCurrentPlayer_Some [of "eng_state eng" i]
    by (simp add: by_the_book_def)
next
  case declares
  have "table_of eng' = table_of eng"
  proof (cases "getPlayer (act_playerId a) (eng_state eng)")
    case None
    then show ?thesis using declares(3) by (simp add: handleDeclaration_def Let_def)
  next
    case (Some i)
    then have "eng' = eng\<lparr>eng_state := modify_player i (declare_flags (act_type a)) (eng_state eng)\<rparr>"
      using declares(3) by (simp add: handleDeclaration_def Let_def)
    moreover have "map (\<lambda>p. mset (hand_cards (player_hand p)))
        (players (modify_player i (declare_flags (act_type a)) (eng_state eng))) =
      map (\<lambda>p. mset (hand_cards (player_hand p))) (players (eng_state eng))"
      using getPlayer_lt [OF Some] by (simp add: modify_player_def map_update list_update_same_conv)
    ultimately show ?thesis by (auto simp: table_of_def intro!: table_with_cong)
  qed
  then show ?thesis using declares(1) by (auto simp: by_the_book_def)
next
  case (suit s)
  have "table_of eng' = (table_of eng)\<lparr>t_suit := Some s,
      t_clockwise := (t_clockwise (table_of eng) \<noteq> (act_chosenDirection a \<noteq> None \<and> t_reversible (table_of eng)))\<rparr>"
    using suit(2,4)
    by (auto simp: handleSuitChoice_def Let_def table_of_def table_with_def setDemandedSuit_def reverseDirection_def
        split: PlayDirection.splits)
  then have "book (Names s (act_chosenDirection a \<noteq> None)) (table_of eng) (table_of eng')"
    by (simp only: names)
  then show ?thesis using suit(1,2) by (simp add: by_the_book_def)
qed

text \<open>What the moves of the book need of a table holds after any actions.\<close>

lemma run_table:
  assumes "index_ok (eng_state eng)" "distinct (map player_id (players (eng_state eng)))"
  shows "index_ok (eng_state (run_events engine_step eng acts))"
    "distinct (map player_id (players (eng_state (run_events engine_step eng acts))))"
proof -
  have ids: "map player_id (players gs) = map fst (roster gs)" for gs by (simp add: roster_def o_def)
  have "roster (eng_state (run_events engine_step eng acts)) = roster (eng_state eng)"
    by (rule table_seats.run_events_inv) simp
  then show "distinct (map player_id (players (eng_state (run_events engine_step eng acts))))"
    using assms(2) unfolding ids by simp
  show "index_ok (eng_state (run_events engine_step eng acts))"
    using assms(1) by (rule table_index.run_events_inv)
qed

text \<open>C5: The engine plays by the book.  After any sequence of actions, whatever they are, from a table with a
  current player and different players, an action the engine accepts is a move of the book on the table it
  leaves (a declaration is none: the table stays), and an action it refuses leaves everything as it is.\<close>

theorem engine_by_the_book:
  assumes "index_ok (eng_state eng0)" "distinct (map player_id (players (eng_state eng0)))"
    and "eng = run_events engine_step eng0 acts" "processAction a eng = Some (r, eng')"
  shows "if res_success r then by_the_book a (table_of eng) (table_of eng') else eng' = eng"
  using process_by_the_book [OF assms(4) _ run_table [OF assms(1,2), of acts, folded assms(3)]]
    refused_unchanged [OF assms(4)] by simp

theorem engine_by_the_book_witness:
  "\<exists>eng' c. book (Lays c) (table_of (sample_engine [Card STAR FIVE, Card CROSS ONE] [Card STAR ONE] (Card STAR TWO)))
     (table_of eng')"
proof -
  have "canPlayOn (Card STAR FIVE) (Card STAR TWO)" by code_simp
  from sample_play_success [OF this, of "[Card CROSS ONE]" "[Card STAR ONE]"] obtain eng' where
    "processAction (sample_action PLAY_CARD) (sample_engine [Card STAR FIVE, Card CROSS ONE] [Card STAR ONE] (Card STAR TWO)) =
      Some (res_ok [''a''] (state_toJson (eng_state (play_core 0 0
        (sample_engine [Card STAR FIVE, Card CROSS ONE] [Card STAR ONE] (Card STAR TWO))))), eng')" by blast
  from engine_by_the_book [OF _ _ run_events.simps(1) [symmetric] this] show ?thesis
    by (auto simp: index_ok_def res_ok_def by_the_book_def)
qed

lemma current_player_found:
  assumes "index_ok gs" "distinct (map player_id (players gs))"
  obtains i where "currentPlayerIndex gs = int i" "i < length (players gs)" "getCurrentPlayer gs = Some i"
    "getCurrentPlayerId gs = player_id (players gs ! i)" "getPlayer (getCurrentPlayerId gs) gs = Some i"
proof -
  obtain i where i: "currentPlayerIndex gs = int i" "i < length (players gs)" by (rule index_okE [OF assms(1)])
  then have cur: "getCurrentPlayer gs = Some i" using getCurrentPlayer_Some [of gs i] by simp
  then have id: "getCurrentPlayerId gs = player_id (players gs ! i)" by (simp add: getCurrentPlayerId_def)
  obtain k where k: "getPlayer (getCurrentPlayerId gs) gs = Some k"
    using i(2) id by (cases "getPlayer (getCurrentPlayerId gs) gs") (auto simp: getPlayer_def find_index_None)
  from getPlayer_current [OF k assms] have "k = i" using i by simp
  with that i cur id k show ?thesis by simp
qed

text \<open>C6: The engine refuses no move of the book.  Whatever move the book allows at a table the engine reaches, the
  current player has an action for it that the engine accepts, and that makes this move.\<close>

theorem every_book_move_accepted:
  assumes "index_ok (eng_state eng0)" "distinct (map player_id (players (eng_state eng0)))"
    and "eng = run_events engine_step eng0 acts" "book m (table_of eng) t'"
  shows "\<exists>a r eng'. act_playerId a = getCurrentPlayerId (eng_state eng) \<and> processAction a eng = Some (r, eng') \<and>
    res_success r \<and> book m (table_of eng) (table_of eng')"
proof -
  note ok = run_table [OF assms(1,2), of acts, folded assms(3)]
  let ?gs = "eng_state eng" and ?b = "allowMultipleActions (eng_turn eng)"
  obtain i where i: "currentPlayerIndex ?gs = int i" "i < length (players ?gs)" "getCurrentPlayer ?gs = Some i"
    "getCurrentPlayerId ?gs = player_id (players ?gs ! i)" "getPlayer (getCurrentPlayerId ?gs) ?gs = Some i"
    by (rule current_player_found [OF ok])
  define act where "act ty idx su dir = \<lparr>act_type = ty, act_playerId = getCurrentPlayerId ?gs, act_cardIndex = idx,
    act_chosenSuit = su, act_chosenDirection = dir, act_metadata = ''''\<rparr>" for ty idx su dir
  have act [simp]: "act_type (act ty idx su dir) = ty" "act_playerId (act ty idx su dir) = getCurrentPlayerId ?gs"
    "act_cardIndex (act ty idx su dir) = idx" "act_chosenSuit (act ty idx su dir) = su"
    "act_chosenDirection (act ty idx su dir) = dir" for ty idx su dir by (simp_all add: act_def)
  have accepted: ?thesis if "processAction a eng = Some (r, eng')" "res_success r"
      "act_playerId a = getCurrentPlayerId ?gs" "book m (table_of eng) (table_of eng')" for a r eng'
    using that by blast
  show ?thesis
    using assms(4)
  proof (cases rule: book.cases)
    case (lays c u)
    then obtain idx where idx: "idx < length (hand_cards (hand_of ?gs i))" "c = hand_cards (hand_of ?gs i) ! idx"
      by (auto simp: table_of_def seat_hand_with [OF i(1,2)] in_set_conv_nth)
    have "playable_at eng i idx"
      using lays(4) i(2) idx by (simp add: playable_at_def table_fits [of _ _ _ _ ?b] table_of_def)
    from processAction_play_ok [of "act PLAY_CARD (Some idx) None None", OF _ _ _ _ this] i(5) obtain r eng' where
      p: "processAction (act PLAY_CARD (Some idx) None None) eng = Some (r, eng')" "res_success r" by auto
    from p(1) show ?thesis
    proof (cases rule: processAction_cases)
      case (play idx' i')
      then have "book m (table_of eng) (table_of eng')"
        using play_by_the_book [OF i(1), of idx] ok(2) lays(1) idx(2) i(5) by simp
      then show ?thesis using accepted p by simp
    qed (use p(2) in \<open>simp_all add: res_fail_def\<close>)
  next
    case (draws got)
    have must: "re_mustDrawCard (eng_rules eng) ?gs (players ?gs ! i)"
      using draws(3) unfolding table_must_draw [OF i(1,2), of _ ?b] table_of_def .
    from processAction_draw_ok [of "act DRAW_CARD None None None", OF _ i(3) _ this] i(4) obtain r eng' where
      p: "processAction (act DRAW_CARD None None None) eng = Some (r, eng')" "res_success r" by auto
    from process_by_the_book [OF p ok] have "book m (table_of eng) (table_of eng')"
      using draws(1) by (simp add: by_the_book_def)
    then show ?thesis using accepted p by simp
  next
    case (names s turn_round)
    let ?a = "act CHOOSE_SUIT None (Some s) (if turn_round then Some CLOCKWISE else None)"
    have "isValidAction eng ?a = Some True" by (simp add: isValidAction_def Let_def)
    then obtain r eng' where p: "processAction ?a eng = Some (r, eng')" "res_success r"
      by (auto simp: processAction_def handleSuitChoice_def res_ok_def Let_def)
    from process_by_the_book [OF p ok] have "book m (table_of eng) (table_of eng')"
      using names(1) by (simp add: by_the_book_def split: if_splits)
    then show ?thesis using accepted p by simp
  qed
qed

theorem every_book_move_accepted_witness:
  "\<exists>a r eng'. processAction a (sample_engine [Card STAR FIVE] [] (Card STAR TWO)) = Some (r, eng') \<and> res_success r \<and>
    t_suit (table_of eng') = Some CROSS"
proof -
  let ?e = "sample_engine [Card STAR FIVE] [] (Card STAR TWO)"
  have run: "?e = run_events engine_step ?e []" by simp
  obtain a r eng' where p: "processAction a ?e = Some (r, eng')" "res_success r"
    and b: "book (Names CROSS False) (table_of ?e) (table_of eng')"
    using every_book_move_accepted [OF _ _ run names [of CROSS False "table_of ?e"]]
    by (auto simp: index_ok_def)
  from b have "t_suit (table_of eng') = Some CROSS" by (auto elim!: book_elims)
  with p show ?thesis by blast
qed

end
