(* ===== verification/Spec2Isabelle.thy ===== *)
theory Spec2Isabelle
  imports Whot_EngineProps Whot_CoreProps Whot_AIProps Whot_SessionProps Whot_HttpProps Whot_AppProps
    Whot_HandlerProps Whot_MessageProps Whot_PersistProps Whot_UtilProps Whot_BotProps Whot_Life Whot_Threads Whot_Run Whot_ApiProps
    Whot_Exceptions Whot_Book
begin

text \<open>
  \<^bold>\<open>The Whot card game server.\<close>

  The program is a server for the Nigerian card game Whot: players talk to it over WebSocket messages,
  a small HTTP interface creates, lists and cleans up games, bots fill seats, and SQLite keeps games and
  statistics.  This development models its C++ sources under \<open>src/src\<close> and \<open>src/include\<close> and proves what
  makes them correct, or what exactly they do where that is not what they mean to do.

  \<^bold>\<open>The parts and their theories.\<close>  A component theory has the data of the component (a class is a record,
  an enumeration a datatype), one definition for each operation under its name in the code (with a prefix
  where several classes share a name, \<open>hand_\<close>, \<open>re_\<close>, \<open>sq_\<close>), and its basic lemmas.

  \<^item> \<open>Core\<close>: \<open>Whot_Card\<close> (GameConstants, Card), \<open>Whot_Hand\<close>, \<open>Whot_Deck\<close>, \<open>Whot_Player\<close>.  \<open>Whot_Random\<close>
    is \<open>Utils/Random\<close> with \<open>std::shuffle\<close> and \<open>std::uniform_int_distribution\<close>.
  \<^item> \<open>Rules\<close> and \<open>Game\<close>: \<open>Whot_Rules\<close> (NigerianRules), \<open>Whot_State\<close> (GameState), \<open>Whot_StateJson\<close> (its three
    JSON forms), \<open>Whot_RuleEngine\<close>, \<open>Whot_Turn\<close> (ActionTypes, TurnManager), \<open>Whot_Score\<close> (ScoreCalculator),
    \<open>Whot_Engine\<close> (GameEngine: \<open>processAction\<close> with its handlers, \<open>startNewRound\<close>, events).
  \<^item> \<open>AI\<close>: \<open>Whot_Strategy\<close> (the four strategies), \<open>Whot_AI\<close> (DifficultyLevel, AIPlayer).
  \<^item> \<open>Network\<close>: \<open>Whot_Session\<close> (SessionManager), \<open>Whot_Messages\<close> (MessageProtocol), \<open>Whot_WebSocket\<close>
    (WebSocketServer: the two connection tables, sending, the callbacks, the sweep), \<open>Whot_Timers\<close> (its loop
    with the heartbeat and the timeout check), \<open>Whot_Http\<close> (HTTPServer: from the bytes of a request to the
    text of the answer).
  \<^item> \<open>Persistence\<close>: \<open>Whot_Database\<close> (the interface, and SQLiteDatabase over the functions of the SQLite
    library), \<open>Whot_GameRepo\<close>, \<open>Whot_PlayerRepo\<close>.
  \<^item> \<open>Application\<close>: \<open>Whot_Application\<close> (games, joining, leaving, bots, broadcasts, clean-up), \<open>Whot_Handlers\<close>
    (the messages and the transport events), \<open>Whot_Api\<close> (the HTTP routes), \<open>Whot_Server\<close> (the running
    server as a step relation), \<open>Whot_Restart\<close> (what is read at the start and what the logged writes do),
    \<open>Whot_Main\<close> (the command line), \<open>Whot_Startup\<close> (start and shutdown of the application over its database),
    \<open>Whot_Run\<close> (\<open>main\<close> from its arguments to its exit code, with the listening sockets and the log),
    \<open>Whot_Threads\<close> (joins of several threads, each in three steps).
  \<^item> \<open>Utils\<close>: \<open>Whot_Utils\<close> (Validation, JSONSerializer, Logger).
  \<^item> Shared: \<open>Whot_Prelude\<close> (hints and generic lemmas), \<open>Whot_Text\<close> (byte strings, \<open>stoi\<close>), \<open>Whot_Json\<close>
    (JSON trees and the accessors of the JSON library), \<open>Whot_Utf8\<close> (UTF-8, and which trees can be written),
    \<open>Whot_Store\<close> (\<open>std::map\<close>), \<open>Whot_Samples\<close>.

  \<^bold>\<open>How they interact.\<close>  A transport event (\<open>connection_opened\<close>, \<open>text_received\<close>, \<open>connection_closed\<close>,
  \<open>timeouts_checked\<close>, \<open>api_connection\<close>) goes through the WebSocket or the HTTP layer to a handler, which
  changes the engine of a game, runs the bots, sends each session its own view of the game and hands
  states to the repositories.  \<open>server_step\<close> is one such event, \<open>server_runs\<close> any sequence of them.  \<open>loop_step\<close>
  puts the timers beside them: time passes only as far as the armed timers and their lateness allow.
  \<open>threads_step\<close> lets any of these events happen between the look, the check of the size and the push of a join.

  \<^bold>\<open>How the state is modelled.\<close>  State is passed explicitly.  A \<open>Player*\<close> is a position in the list of
  players, so writing through it is \<open>modify_player\<close>; an engine is reached through the map of games and
  put back by \<open>put_engine\<close>.  The one reference into mutable data that matters, the game id the disconnection
  handler passes out of a session, is an argument that is read again in every state (\<open>leaveGame\<close>).  An
  exception, a null pointer dereferenced or a loop that does not end is \<open>None\<close>.  The one exception with its
  own form is that of \<open>dump()\<close> for a tree with a string that is not UTF-8: every \<open>dump()\<close> outside a \<open>try\<close>
  of a tree that is not all constants sets the mark \<open>app_thrown\<close> of the state when it throws.  An event that
  throws is no step of the server; what a definition computes after the mark is set is not executed by the code,
  so a theorem on a single handler speaks of the events that do not throw.  A generator is the list
  of its future outputs, so a theorem for every list is a theorem for every seed.  A clock is read once by
  each operation and is an argument in nanoseconds (game times, sessions) or seconds (database).  Integers
  are unbounded where lemmas bound them, and reduced (\<open>to_size_t\<close>, 16-bit words for ports, \<open>to_int32\<close>)
  where the code converts.  JSON texts are written and read by \<open>lib_dump\<close> and \<open>lib_parse\<close>, parameters, over
  the trees of \<open>Whot_Json\<close>.  Registered callbacks are numbers whose calls are logged.  Handlers run one
  after the other, except in \<open>Whot_Threads\<close>.  Writes to the database are logged in \<open>app_store\<close>, and \<open>perform\<close> carries them out.

  \<^bold>\<open>The interfaces.\<close>  \<open>ordered_store\<close> (what a map promises its users; \<open>std_map\<close>), \<open>card_source\<close> (a deck that
  is drawn from), \<open>play_rules\<close> (what the engine needs of the rules; \<open>nigerian\<close>), \<open>strategy\<close> (what a bot needs
  of a strategy; one interpretation for each), \<open>event_invariant\<close> (what every action of a game keeps),
  \<open>lobby_law\<close> (a law about id, code, creator, configuration and seats that every event of the server
  keeps; interpreted for games in order, \<open>order_law\<close>, and for tables at which joins race, \<open>crowd_law\<close>),
  \<open>session_law\<close> (a law about a session that every event keeps; interpreted for ids and for the time a
  session was last heard of).  The laws asked of a database are \<open>game_table\<close>, \<open>game_writes\<close> and
  \<open>player_tables\<close>, predicates on the parameter, satisfied by \<open>memory_database\<close> and \<open>memory_players\<close>, and the
  first two by \<open>SQLiteDatabase\<close> itself over a small model of the SQLite library (\<open>Whot_SqliteSample\<close>); of that
  library \<open>result_set\<close> asks that a statement has finitely many rows and a step moves to the next.

  \<^bold>\<open>What is proved.\<close>
  \<^item> A game (\<open>Whot_EngineProps\<close>, over \<open>Whot_EngineFacts\<close> and \<open>Whot_EngineInv\<close>): no card is ever duplicated
    from empty hands, a deal, a play and a draw move exactly the right cards, whose turn it is, how a round
    ends and scores, the events and their order, the only crash of \<open>processAction\<close>, invariants over every
    sequence of actions.
  \<^item> The game by the book (\<open>Whot_Book\<close>): an abstract game on tables (multisets of cards, seats, the pending
    pick) with its moves as an inductive relation \<open>book\<close>.  The engine refines it: what it accepts is a move of
    the book, what it refuses changes nothing, and it refuses no move the book allows.  The book says what this
    program plays, so the turn after a hold-on card and the lost copies of the call card are in it.
  \<^item> Below it (\<open>Whot_CoreProps\<close>): the composition of the deck, that the shuffles over all generators are exactly the
    permutations, reshuffling, that the view of a player depends on the other hands only through their
    sizes, JSON round trips.
  \<^item> Bots (\<open>Whot_AIProps\<close>, \<open>Whot_BotProps\<close>): the engine accepts what a bot decides while no suit is demanded,
    and the loop of the server over its bots returns and stops only for a human, a round end, or the bound.
  \<^item> The server (\<open>Whot_AppProps\<close>, \<open>Whot_HandlerProps\<close>, \<open>Whot_ApiProps\<close>, over \<open>Whot_Badge\<close>, \<open>Whot_AppInv\<close>, \<open>Whot_LobbyLaw\<close>):
    invariants of all reachable states, that a broadcast gives no hand away, and what creating, joining,
    starting, acting, cleaning up and losing a connection do and leave alone.
  \<^item> Exceptions (\<open>Whot_Exceptions\<close>): in every run, \<open>dump()\<close> throws only because of a name that was shortened
    inside a UTF-8 character, and exactly which request to create a game throws.
  \<^item> Protocols (\<open>Whot_MessageProps\<close>, \<open>Whot_HttpProps\<close>, \<open>Whot_SessionProps\<close>): messages and payloads read back,
    requests and route patterns, the registry of sessions.
  \<^item> Persistence (\<open>Whot_PersistProps\<close>, \<open>Whot_Startup\<close>, \<open>Whot_Life\<close>): queries return all rows, what a saved game
    or player is when it is read again, exactly which games are there after a restart, that the games stay in order
    from any such start on, a start without a database, and what of a whole run of the server survives the next start: the calls of the run refine a
    map from ids to saved states (\<open>note_call\<close>), which holds every running game and no other (\<open>tracks\<close>).
  \<^item> Time (\<open>Whot_Timers\<close>): how long a silent session stays registered; the bound is met.
  \<^item> Threads (\<open>Whot_Threads\<close>): how far joins that interleave can overfill a table, and what becomes of one that is
    overtaken.
  \<^item> The program (\<open>Whot_Run\<close>, \<open>Whot_UtilProps\<close>): its options, output, what a signal leaves behind, and when the
    program exits and when it hangs (in the join of the HTTP thread);
    the JSON helpers and the logger.

  \<^bold>\<open>Bounds.\<close>  The loop over the bots makes at most 50 turns and the search for a code at most 20 tries;
  both bounds are the code's own.  The loops that may not end, the search for a free session id and the
  reading of rows, are partial functions, with theorems on when they return.  No other fuel is used.

  \<^bold>\<open>Not modelled.\<close>  The system calls and the websocketpp library (their answers are arguments, a callback is
  an event); handlers that run at the same time, but for the joins of \<open>Whot_Threads\<close>, whose three steps are taken
  to be atomic (two pushes at the very same moment are a data race, which has no meaning in C++); how a generator is
  seeded; the SQL language, SQLite, regular expressions and the
  parser and printer of JSON texts (parameters; a number in JSON is an integer or an exact
  fraction, never a float); what is left of the process after an exception that nothing catches; iterators and accessors
  without behaviour; the web client, tests and scripts, which are not C++ of the server.
\<close>

end
